(* ===== verification/Sorx_Prelude.thy ===== *)
theory Sorx_Prelude
  imports Main "HOL-Library.Char_ord" "HOL-Library.List_Lexorder" "HOL-Library.Product_Lexorder"
begin

text \<open>
  Shared vocabulary of the development: results of fallible Rust functions, the pieces of
  the Rust standard library the sources use on strings and slices, and the lemmas about
  them that the component theories share.

  A Rust \<^verbatim>\<open>String\<close> is a \<^typ>\<open>string\<close> whose characters stand for the code points
  U+0000 to U+00FF: on that range the Unicode predicates the code calls
  (\<^verbatim>\<open>char::is_control\<close>, \<^verbatim>\<open>str::trim\<close>) are written out exactly, and the bytewise order of
  \<^verbatim>\<open>String\<close> is the lexicographic order of the code points.
\<close>

named_theorems model_defs "definitions unfolded by the component proofs"

section \<open>Results\<close>

text \<open>\<^verbatim>\<open>Result<T, E>\<close>: the error is on the left.\<close>

type_synonym ('e, 'a) result = "'e + 'a"

abbreviation Err :: "'e \<Rightarrow> ('e, 'a) result" where "Err \<equiv> Inl"

abbreviation Ok :: "'a \<Rightarrow> ('e, 'a) result" where "Ok \<equiv> Inr"

definition ok_or :: "'a option \<Rightarrow> 'e \<Rightarrow> ('e, 'a) result" where
  "ok_or x e = (case x of None \<Rightarrow> Err e | Some y \<Rightarrow> Ok y)"

lemma ok_or_simps [simp]: "ok_or None e = Err e" "ok_or (Some x) e = Ok x"
  by (simp_all add: ok_or_def)

lemma ok_or_Ok_iff [simp]: "ok_or x e = Ok y \<longleftrightarrow> x = Some y"
  by (cases x) simp_all

lemma ok_or_Err_iff [simp]: "ok_or x e = Err e' \<longleftrightarrow> x = None \<and> e' = e"
  by (cases x) auto

definition unwrap_or :: "'a option \<Rightarrow> 'a \<Rightarrow> 'a" where
  "unwrap_or x d = (case x of None \<Rightarrow> d | Some y \<Rightarrow> y)"

lemma unwrap_or_simps [simp]: "unwrap_or None d = d" "unwrap_or (Some x) d = x"
  by (simp_all add: unwrap_or_def)

definition opt_or :: "'a option \<Rightarrow> 'a option \<Rightarrow> 'a option" where
  "opt_or x y = (case x of None \<Rightarrow> y | Some z \<Rightarrow> Some z)"

lemma opt_or_simps [simp]: "opt_or None y = y" "opt_or (Some x) y = Some x"
  by (simp_all add: opt_or_def)

section \<open>Characters and strings\<close>

abbreviation code :: "char \<Rightarrow> nat" where "code c \<equiv> of_char c"

definition is_ascii_digit :: "char \<Rightarrow> bool" where
  "is_ascii_digit c \<longleftrightarrow> 48 \<le> code c \<and> code c \<le> 57"

definition is_ascii_upper :: "char \<Rightarrow> bool" where
  "is_ascii_upper c \<longleftrightarrow> 65 \<le> code c \<and> code c \<le> 90"

definition is_ascii_lower :: "char \<Rightarrow> bool" where
  "is_ascii_lower c \<longleftrightarrow> 97 \<le> code c \<and> code c \<le> 122"

definition is_ascii_alphanumeric :: "char \<Rightarrow> bool" where
  "is_ascii_alphanumeric c \<longleftrightarrow> is_ascii_digit c \<or> is_ascii_upper c \<or> is_ascii_lower c"

definition to_lower_char :: "char \<Rightarrow> char" where
  "to_lower_char c = (if is_ascii_upper c then char_of (code c + 32) else c)"

definition to_ascii_lowercase :: "string \<Rightarrow> string" where
  "to_ascii_lowercase s = map to_lower_char s"

text \<open>Unicode category Cc below U+0100: U+0000..U+001F and U+007F..U+009F.\<close>

definition is_control :: "char \<Rightarrow> bool" where
  "is_control c \<longleftrightarrow> code c < 32 \<or> (127 \<le> code c \<and> code c < 160)"

text \<open>Unicode White\_Space below U+0100.\<close>

definition is_whitespace :: "char \<Rightarrow> bool" where
  "is_whitespace c \<longleftrightarrow> (9 \<le> code c \<and> code c \<le> 13) \<or> code c = 32 \<or> code c = 133 \<or> code c = 160"

definition trim_matches :: "(char \<Rightarrow> bool) \<Rightarrow> string \<Rightarrow> string" where
  "trim_matches p s = rev (dropWhile p (rev (dropWhile p s)))"

definition trim :: "string \<Rightarrow> string" where
  "trim s = trim_matches is_whitespace s"

text \<open>\<^verbatim>\<open>str::replace\<close> of each of some characters by one other character.\<close>

definition replace_chars :: "char list \<Rightarrow> char \<Rightarrow> string \<Rightarrow> string" where
  "replace_chars cs d s = map (\<lambda>c. if c \<in> set cs then d else c) s"

fun strip_prefix :: "string \<Rightarrow> string \<Rightarrow> string option" where
  "strip_prefix [] s = Some s"
| "strip_prefix (p # ps) [] = None"
| "strip_prefix (p # ps) (c # s) = (if p = c then strip_prefix ps s else None)"

lemma strip_prefix_Some_iff: "strip_prefix p s = Some t \<longleftrightarrow> s = p @ t"
  by (induction p s rule: strip_prefix.induct) auto

text \<open>\<^verbatim>\<open>str::split\<close> on one character: always at least one piece.\<close>

fun split_on :: "char \<Rightarrow> string \<Rightarrow> string list" where
  "split_on d [] = [[]]"
| "split_on d (c # s) =
     (if c = d then [] # split_on d s
      else (case split_on d s of [] \<Rightarrow> [[c]] | p # ps \<Rightarrow> (c # p) # ps))"

lemma split_on_not_Nil [simp]: "split_on d s \<noteq> []"
  by (induction s) (auto split: list.splits)

text \<open>Decimal rendering of an unsigned integer.\<close>

fun show_nat :: "nat \<Rightarrow> string" where
  "show_nat n =
     (if n < 10 then [char_of (48 + n)] else show_nat (n div 10) @ [char_of (48 + n mod 10)])"

declare show_nat.simps [simp del]

subsection \<open>Trimming\<close>

lemma set_dropWhile_subset: "set (dropWhile p s) \<subseteq> set s"
  by (induction s) auto

lemma set_trim_matches_subset: "set (trim_matches p s) \<subseteq> set s"
proof -
  have "set (trim_matches p s) \<subseteq> set (rev (dropWhile p s))"
    unfolding trim_matches_def by (simp only: set_rev) (metis set_dropWhile_subset set_rev)
  then show ?thesis using set_dropWhile_subset [of p s] by auto
qed

lemma last_dropWhile_eq: "dropWhile p xs \<noteq> [] \<Longrightarrow> last (dropWhile p xs) = last xs"
  by (induction xs) (auto split: if_splits)

lemma trim_matches_ends:
  assumes "trim_matches p s \<noteq> []"
  shows "\<not> p (hd (trim_matches p s))" and "\<not> p (last (trim_matches p s))"
proof -
  let ?d = "dropWhile p s"
  have ne: "dropWhile p (rev ?d) \<noteq> []" using assms by (simp add: trim_matches_def)
  have "last (trim_matches p s) = hd (dropWhile p (rev ?d))"
    by (simp add: trim_matches_def last_rev)
  then show "\<not> p (last (trim_matches p s))" using hd_dropWhile [OF ne] by simp
  have "hd (trim_matches p s) = last (dropWhile p (rev ?d))"
    by (simp add: trim_matches_def hd_rev)
  also have "\<dots> = last (rev ?d)" by (rule last_dropWhile_eq [OF ne])
  also have "\<dots> = hd ?d" by (simp add: last_rev)
  finally have hd_eq: "hd (trim_matches p s) = hd ?d" .
  have "?d \<noteq> []" using ne by (metis dropWhile.simps(1) rev.simps(1))
  then show "\<not> p (hd (trim_matches p s))" using hd_eq hd_dropWhile by metis
qed

lemma dropWhile_hd_id: "xs = [] \<or> \<not> p (hd xs) \<Longrightarrow> dropWhile p xs = xs"
  by (cases xs) auto

lemma trim_matches_id:
  assumes "s = [] \<or> \<not> p (hd s) \<and> \<not> p (last s)"
  shows "trim_matches p s = s"
  using assms by (auto simp: trim_matches_def dropWhile_hd_id hd_rev)

lemma trim_matches_idem [simp]: "trim_matches p (trim_matches p s) = trim_matches p s"
  using trim_matches_ends [of p s] by (intro trim_matches_id) auto

lemma trim_matches_none: "\<forall>c \<in> set s. \<not> p c \<Longrightarrow> trim_matches p s = s"
  by (rule trim_matches_id) (cases s; auto)

section \<open>Comparison and stable sorting of slices\<close>

datatype ordering = Less | Equal | Greater

definition cmp :: "'a::linorder \<Rightarrow> 'a \<Rightarrow> ordering" where
  "cmp x y = (if x < y then Less else if x = y then Equal else Greater)"

fun reverse_ord :: "ordering \<Rightarrow> ordering" where
  "reverse_ord Less = Greater"
| "reverse_ord Equal = Equal"
| "reverse_ord Greater = Less"

fun ord_then :: "ordering \<Rightarrow> ordering \<Rightarrow> ordering" where
  "ord_then Equal o2 = o2"
| "ord_then o1 o2 = o1"

text \<open>\<^verbatim>\<open>slice::sort_by\<close> is a stable sort; insertion from the right keeps equal elements in order.\<close>

fun insert_by :: "('a \<Rightarrow> 'a \<Rightarrow> ordering) \<Rightarrow> 'a \<Rightarrow> 'a list \<Rightarrow> 'a list" where
  "insert_by c x [] = [x]"
| "insert_by c x (y # ys) = (if c x y = Greater then y # insert_by c x ys else x # y # ys)"

definition sort_by :: "('a \<Rightarrow> 'a \<Rightarrow> ordering) \<Rightarrow> 'a list \<Rightarrow> 'a list" where
  "sort_by c xs = foldr (insert_by c) xs []"

lemma sort_by_simps [simp]:
  "sort_by c [] = []"
  "sort_by c (x # xs) = insert_by c x (sort_by c xs)"
  by (simp_all add: sort_by_def)

lemma set_insert_by [simp]: "set (insert_by c x xs) = insert x (set xs)"
  by (induction xs) auto

lemma set_sort_by [simp]: "set (sort_by c xs) = set xs"
  by (induction xs) auto

lemma length_insert_by [simp]: "length (insert_by c x xs) = Suc (length xs)"
  by (induction xs) auto

lemma length_sort_by [simp]: "length (sort_by c xs) = length xs"
  by (induction xs) auto

lemma distinct_insert_by [simp]: "distinct (insert_by c x xs) \<longleftrightarrow> x \<notin> set xs \<and> distinct xs"
  by (induction xs) auto

lemma distinct_sort_by [simp]: "distinct (sort_by c xs) \<longleftrightarrow> distinct xs"
  by (induction xs) auto

lemma cmp_Greater [simp]: "cmp x y = Greater \<longleftrightarrow> y < x"
  by (auto simp: cmp_def)

lemma cmp_Equal [simp]: "cmp x y = Equal \<longleftrightarrow> x = y"
  by (auto simp: cmp_def)

lemma cmp_Less [simp]: "cmp x y = Less \<longleftrightarrow> x < y"
  by (auto simp: cmp_def)

lemma insert_by_key: "insert_by (\<lambda>a b. cmp (f a) (f b)) x xs = insort_key f x xs"
  by (induction xs) auto

lemma sort_by_key: "sort_by (\<lambda>a b. cmp (f a) (f b)) xs = sort_key f xs"
  by (induction xs) (auto simp: insert_by_key)

text \<open>Sorting by the flipped comparison reverses the order when no key occurs twice.\<close>

lemma sort_by_flip:
  assumes "distinct (map f xs)"
  shows "sort_by (\<lambda>a b. cmp (f b) (f a)) xs = rev (sort_key f xs)"
  using assms
proof (induction xs)
  case (Cons x xs)
  have ins: "insert_by (\<lambda>a b. cmp (f b) (f a)) x (rev ys) = rev (insort_key f x ys)"
    if "sorted (map f ys)" "f x \<notin> f ` set ys" for ys
    using that
  proof (induction ys rule: rev_induct)
    case (snoc y ys)
    show ?case
    proof (cases "f x \<le> f y")
      case True
      then have lt: "f x < f y" using snoc.prems by auto
      then have "insort_key f x (ys @ [y]) = insort_key f x ys @ [y]"
        by (induction ys) auto
      with lt snoc show ?thesis by (auto simp: cmp_def sorted_append)
    next
      case False
      have last: "insort_key f x zs = zs @ [x]" if "\<forall>z\<in>set zs. f z < f x" for zs
        using that by (induction zs) auto
      have "\<forall>z\<in>set (ys @ [y]). f z < f x"
        using False snoc.prems by (fastforce simp: sorted_append)
      then have "insort_key f x (ys @ [y]) = ys @ [y, x]"
        using last by fastforce
      with False show ?thesis by (auto simp: cmp_def)
    qed
  qed simp
  show ?case using Cons by (simp add: ins)
qed simp

text \<open>
  What \<^verbatim>\<open>slice::sort_by\<close> asks of its comparison: flipping the arguments flips the answer, and
  not-greater is transitive. Then the result is ordered.
\<close>

locale comparator =
  fixes c :: "'a \<Rightarrow> 'a \<Rightarrow> ordering"
  assumes flip: "c y x = reverse_ord (c x y)"
    and not_greater_trans: "c x y \<noteq> Greater \<Longrightarrow> c y z \<noteq> Greater \<Longrightarrow> c x z \<noteq> Greater"
begin

lemma insert_by_ordered:
  assumes "sorted_wrt (\<lambda>x y. c x y \<noteq> Greater) xs"
  shows "sorted_wrt (\<lambda>x y. c x y \<noteq> Greater) (insert_by c a xs)"
  using assms
proof (induction xs)
  case (Cons x xs)
  show ?case
  proof (cases "c a x = Greater")
    case True
    then have "c x a \<noteq> Greater" by (simp add: flip [of x a])
    with Cons True show ?thesis by auto
  next
    case False
    then show ?thesis using Cons.prems not_greater_trans [OF False] by auto
  qed
qed simp

lemma between_equal:
  assumes "c x z = Equal" "c x y \<noteq> Greater" "c y z \<noteq> Greater"
  shows "c x y = Equal" "c y z = Equal"
proof -
  have zx: "c z x \<noteq> Greater" using assms(1) by (simp add: flip [of z x])
  have zy: "c z y \<noteq> Greater" by (rule not_greater_trans [OF zx assms(2)])
  have yx: "c y x \<noteq> Greater" by (rule not_greater_trans [OF assms(3) zx])
  show "c x y = Equal"
    using assms(2) yx unfolding flip [of y x] by (cases "c x y") simp_all
  show "c y z = Equal"
    using assms(3) zy unfolding flip [of z y] by (cases "c y z") simp_all
qed

lemma sort_by_ordered: "sorted_wrt (\<lambda>x y. c x y \<noteq> Greater) (sort_by c xs)"
  by (induction xs) (auto intro: insert_by_ordered)

end

lemma comparator_key: "comparator (\<lambda>x y. cmp (f x) (f y))"
  by unfold_locales (auto simp: cmp_def split: if_splits)

lemma comparator_reverse:
  assumes "comparator c"
  shows "comparator (\<lambda>x y. reverse_ord (c x y))"
proof -
  have flip: "reverse_ord (c x y) = c y x" for x y
    by (rule comparator.flip [OF assms, symmetric])
  have "comparator (\<lambda>x y. c y x)"
  proof (rule comparator.intro)
    show "c x y = reverse_ord (c y x)" for x y by (rule comparator.flip [OF assms])
    show "c y x \<noteq> Greater \<Longrightarrow> c z y \<noteq> Greater \<Longrightarrow> c z x \<noteq> Greater" for x y z
      using comparator.not_greater_trans [OF assms, of z y x] by blast
  qed
  then show ?thesis by (simp only: flip)
qed

lemma comparator_lex:
  assumes "comparator c" and "comparator c'"
  shows "comparator (\<lambda>x y. if c x y \<noteq> Equal then c x y else c' x y)"
proof (rule comparator.intro)
  fix x y z
  show "(if c y x \<noteq> Equal then c y x else c' y x) =
      reverse_ord (if c x y \<noteq> Equal then c x y else c' x y)"
    using comparator.flip [OF assms(1), of y x] comparator.flip [OF assms(2), of y x]
    by (cases "c x y") auto
  assume xy: "(if c x y \<noteq> Equal then c x y else c' x y) \<noteq> Greater"
    and yz: "(if c y z \<noteq> Equal then c y z else c' y z) \<noteq> Greater"
  have le: "c x y \<noteq> Greater" "c y z \<noteq> Greater" using xy yz by (auto split: if_splits)
  have xz: "c x z \<noteq> Greater" using comparator.not_greater_trans [OF assms(1) le] .
  show "(if c x z \<noteq> Equal then c x z else c' x z) \<noteq> Greater"
  proof (cases "c x z = Equal")
    case True
    note eq = comparator.between_equal [OF assms(1) True le]
    have "c' x z \<noteq> Greater"
      using xy yz eq by (intro comparator.not_greater_trans [OF assms(2), of x y z]) auto
    with True show ?thesis by simp
  qed (use xz in simp)
qed

lemma find_insort_key:
  assumes "\<And>x. x \<in> set xs \<Longrightarrow> P x \<Longrightarrow> f x = k" and "sorted (map f xs)"
    and "P a \<Longrightarrow> \<not> (\<exists>x\<in>set xs. P x)"
  shows "find P (insort_key f a xs) = (if P a then Some a else find P xs)"
  using assms by (induction xs) auto

section \<open>Lists\<close>

text \<open>\<^verbatim>\<open>iter_mut().find(p)\<close> followed by an update of the element found: the first match only.\<close>

fun update_first :: "('a \<Rightarrow> bool) \<Rightarrow> ('a \<Rightarrow> 'a) \<Rightarrow> 'a list \<Rightarrow> 'a list" where
  "update_first p f [] = []"
| "update_first p f (x # xs) = (if p x then f x # xs else x # update_first p f xs)"

lemma length_update_first [simp]: "length (update_first p f xs) = length xs"
  by (induction xs) auto

lemma update_first_none [simp]: "find p xs = None \<Longrightarrow> update_first p f xs = xs"
  by (induction xs) (auto split: if_splits)

lemma map_update_first:
  "(\<And>x. g (f x) = g x) \<Longrightarrow> map g (update_first p f xs) = map g xs"
  by (induction xs) auto

lemma find_update_first:
  assumes "\<And>x. p x \<Longrightarrow> p (f x)"
  shows "find p (update_first p f xs) = map_option f (find p xs)"
  using assms by (induction xs) auto

lemma find_update_first_other:
  assumes "\<And>x. q (f x) = q x" and "\<And>x. p x \<Longrightarrow> \<not> q x"
  shows "find q (update_first p f xs) = find q xs"
  using assms by (induction xs) auto

lemma update_first_split:
  "find p xs = Some x \<Longrightarrow>
     \<exists>ys zs. xs = ys @ x # zs \<and> p x \<and> (\<forall>y\<in>set ys. \<not> p y) \<and> update_first p f xs = ys @ f x # zs"
proof (induction xs)
  case (Cons a xs)
  show ?case
  proof (cases "p a")
    case True
    with Cons.prems have "a # xs = [] @ x # xs" and "update_first p f (a # xs) = [] @ f x # xs"
      and "p x" by auto
    then show ?thesis by fastforce
  next
    case False
    with Cons obtain ys zs where "xs = ys @ x # zs" "p x" "\<forall>y\<in>set ys. \<not> p y"
      "update_first p f xs = ys @ f x # zs" by auto
    with False show ?thesis by (intro exI [of _ "a # ys"] exI [of _ zs]) simp
  qed
qed simp

lemma set_update_first:
  "find p xs = Some x \<Longrightarrow> f x \<in> set (update_first p f xs)"
  "y \<in> set (update_first p f xs) \<Longrightarrow> y \<in> set xs \<or> (\<exists>z\<in>set xs. p z \<and> y = f z)"
  by (induction xs) (auto split: if_splits)

lemma find_Some_mem: "find p xs = Some x \<Longrightarrow> x \<in> set xs \<and> p x"
  by (induction xs) (auto split: if_splits)

lemma find_None_all: "find p xs = None \<longleftrightarrow> (\<forall>x\<in>set xs. \<not> p x)"
  by (induction xs) auto

end
