(* ===== verification/Ordered_Map.thy ===== *)
theory Ordered_Map
  imports Sorx_Prelude
begin

text \<open>
  \<^verbatim>\<open>std::collections::BTreeMap\<close> (and \<^verbatim>\<open>serde_json::Map\<close>, which is a \<^verbatim>\<open>BTreeMap\<close> in this
  build) as an association list kept in ascending key order, so that iteration order is part
  of the model. The interface the components use is the locale \<open>ordered_map\<close>; the
  association list is its interpretation.
\<close>

section \<open>The interface\<close>

locale ordered_map =
  fixes empty :: "'m"
    and get :: "'m \<Rightarrow> 'k \<Rightarrow> 'v option"
    and insert :: "'k \<Rightarrow> 'v \<Rightarrow> 'm \<Rightarrow> 'm"
    and remove :: "'k \<Rightarrow> 'm \<Rightarrow> 'm"
    and entries :: "'m \<Rightarrow> ('k \<times> 'v) list"
    and invar :: "'m \<Rightarrow> bool"
  assumes get_empty: "get empty = Map.empty"
    and get_insert: "invar m \<Longrightarrow> get (insert k v m) = (get m)(k \<mapsto> v)"
    and get_remove: "invar m \<Longrightarrow> get (remove k m) = (get m)(k := None)"
    and get_entries: "invar m \<Longrightarrow> get m = map_of (entries m)"
    and distinct_entries: "invar m \<Longrightarrow> distinct (map fst (entries m))"
    and entries_unique: "invar m \<Longrightarrow> invar m' \<Longrightarrow> get m = get m' \<Longrightarrow> m = m'"
    and invar_empty: "invar empty"
    and invar_insert: "invar m \<Longrightarrow> invar (insert k v m)"
    and invar_remove: "invar m \<Longrightarrow> invar (remove k m)"
begin

lemma mem_entries_iff: "invar m \<Longrightarrow> (k, v) \<in> set (entries m) \<longleftrightarrow> get m k = Some v"
  by (simp add: get_entries distinct_entries)

lemma insert_same: "invar m \<Longrightarrow> insert k v (insert k w m) = insert k v m"
  by (rule entries_unique) (simp_all add: invar_insert get_insert)

lemma insert_commute:
  "invar m \<Longrightarrow> k \<noteq> k' \<Longrightarrow> insert k v (insert k' v' m) = insert k' v' (insert k v m)"
  by (rule entries_unique) (simp_all add: invar_insert get_insert fun_upd_twist)

lemma insert_get_id: "invar m \<Longrightarrow> get m k = Some v \<Longrightarrow> insert k v m = m"
  by (rule entries_unique) (auto simp: invar_insert get_insert)

text \<open>\<^verbatim>\<open>for (k, v) in kvs { m.insert(k, v) }\<close>: later entries win.\<close>

lemma invar_extend: "invar m \<Longrightarrow> invar (fold (\<lambda>(k, v). insert k v) kvs m)"
  by (induction kvs arbitrary: m) (auto simp: invar_insert)

lemma get_extend:
  "invar m \<Longrightarrow> get (fold (\<lambda>(k, v). insert k v) kvs m) = get m ++ map_of (rev kvs)"
proof (induction kvs arbitrary: m)
  case (Cons kv kvs)
  obtain k v where kv: "kv = (k, v)" by (cases kv)
  have "get (fold (\<lambda>(k, v). insert k v) kvs (insert k v m))
      = get (insert k v m) ++ map_of (rev kvs)"
    by (rule Cons.IH) (simp add: Cons.prems invar_insert)
  also have "\<dots> = get m ++ map_of (rev (kv # kvs))"
    using Cons.prems by (auto simp: kv get_insert fun_eq_iff map_add_def split: option.splits)
  finally show ?case by (simp add: kv)
qed simp

end

section \<open>Association lists in key order\<close>

type_synonym ('k, 'v) btree = "('k \<times> 'v) list"

abbreviation bt_empty :: "('k, 'v) btree" where "bt_empty \<equiv> []"

definition bt_get :: "('k, 'v) btree \<Rightarrow> 'k \<Rightarrow> 'v option" where
  "bt_get m k = map_of m k"

fun bt_insert :: "'k::linorder \<Rightarrow> 'v \<Rightarrow> ('k, 'v) btree \<Rightarrow> ('k, 'v) btree" where
  "bt_insert k v [] = [(k, v)]"
| "bt_insert k v (kv # m) =
     (if k < fst kv then (k, v) # kv # m
      else if k = fst kv then (k, v) # m
      else kv # bt_insert k v m)"

definition bt_remove :: "'k \<Rightarrow> ('k, 'v) btree \<Rightarrow> ('k, 'v) btree" where
  "bt_remove k m = filter (\<lambda>kv. fst kv \<noteq> k) m"

definition bt_values :: "('k, 'v) btree \<Rightarrow> 'v list" where
  "bt_values m = map snd m"

definition bt_wf :: "('k::linorder, 'v) btree \<Rightarrow> bool" where
  "bt_wf m \<longleftrightarrow> sorted_wrt (<) (map fst m)"

text \<open>\<^verbatim>\<open>iter.collect::<BTreeMap<_, _>>()\<close>: inserts in order.\<close>

definition bt_collect :: "('k::linorder \<times> 'v) list \<Rightarrow> ('k, 'v) btree" where
  "bt_collect kvs = fold (\<lambda>(k, v). bt_insert k v) kvs bt_empty"

lemma bt_get_Nil [simp]: "bt_get [] k = None"
  by (simp add: bt_get_def)

lemma bt_get_Cons [simp]: "bt_get (kv # m) k = (if fst kv = k then Some (snd kv) else bt_get m k)"
  by (cases kv) (auto simp: bt_get_def)

lemma fst_set_bt_insert [simp]: "fst ` set (bt_insert k v m) = insert k (fst ` set m)"
  by (induction m) auto

lemma bt_wf_Nil [simp]: "bt_wf []"
  by (simp add: bt_wf_def)

lemma bt_wf_Cons [simp]: "bt_wf (kv # m) \<longleftrightarrow> (\<forall>x\<in>set m. fst kv < fst x) \<and> bt_wf m"
  by (auto simp: bt_wf_def)

lemma bt_wf_insert [simp]: "bt_wf m \<Longrightarrow> bt_wf (bt_insert k v m)"
proof (induction m)
  case (Cons kv m)
  have "\<forall>x\<in>set (bt_insert k v m). fst kv < fst x" if "fst kv < k"
  proof
    fix x assume "x \<in> set (bt_insert k v m)"
    then have "fst x \<in> insert k (fst ` set m)"
      by (metis fst_set_bt_insert imageI)
    then show "fst kv < fst x" using that Cons.prems by auto
  qed
  with Cons show ?case by (auto intro: less_trans)
qed simp

lemma bt_wf_filter: "bt_wf m \<Longrightarrow> bt_wf (filter p m)"
  by (induction m) auto

lemma bt_wf_remove [simp]: "bt_wf m \<Longrightarrow> bt_wf (bt_remove k m)"
  by (simp add: bt_remove_def bt_wf_filter)

lemma bt_get_notin: "k \<notin> fst ` set m \<Longrightarrow> bt_get m k = None"
  by (induction m) auto

lemma bt_get_insert [simp]: "bt_get (bt_insert k v m) k' = (if k' = k then Some v else bt_get m k')"
  by (induction m) auto

lemma bt_get_remove [simp]: "bt_get (bt_remove k m) k' = (if k' = k then None else bt_get m k')"
  by (induction m) (auto simp: bt_remove_def)

lemma bt_wf_distinct: "bt_wf m \<Longrightarrow> distinct (map fst m)"
  unfolding bt_wf_def by (metis strict_sorted_iff)

lemma bt_ext:
  assumes "bt_wf m" "bt_wf m'" "bt_get m = bt_get m'"
  shows "m = m'"
proof -
  have d: "distinct (map fst m)" "distinct (map fst m')"
    using assms(1,2) by (auto intro: bt_wf_distinct)
  have eq: "map_of m = map_of m'" using assms(3) by (simp add: bt_get_def fun_eq_iff)
  have "set m = set m'" by (metis d eq map_of_eq_Some_iff subsetI subset_antisym surj_pair)
  moreover have "sorted (map fst m)" "sorted (map fst m')"
    using assms(1,2) by (auto simp: bt_wf_def strict_sorted_imp_sorted)
  ultimately show ?thesis
    using d by (intro map_sorted_distinct_set_unique [where f = fst]) (auto simp: distinct_map)
qed

text \<open>The association lists provide the interface.\<close>

interpretation bt: ordered_map "bt_empty :: ('k::linorder, 'v) btree" bt_get bt_insert bt_remove
  "\<lambda>m. m" bt_wf
proof unfold_locales
  fix m m' :: "('k, 'v) btree" and k :: 'k and v :: 'v
  show "bt_get (bt_empty :: ('k, 'v) btree) = Map.empty" by (simp add: fun_eq_iff)
  show "bt_wf m \<Longrightarrow> bt_get (bt_insert k v m) = (bt_get m)(k \<mapsto> v)" by (simp add: fun_eq_iff)
  show "bt_wf m \<Longrightarrow> bt_get (bt_remove k m) = (bt_get m)(k := None)" by (simp add: fun_eq_iff)
  show "bt_wf m \<Longrightarrow> bt_get m = map_of m" by (simp add: fun_eq_iff bt_get_def)
  show "bt_wf m \<Longrightarrow> distinct (map fst m)" by (rule bt_wf_distinct)
  show "bt_wf m \<Longrightarrow> bt_wf m' \<Longrightarrow> bt_get m = bt_get m' \<Longrightarrow> m = m'" by (rule bt_ext)
qed simp_all

lemma bt_wf_collect [simp]: "bt_wf (bt_collect kvs)"
  unfolding bt_collect_def by (rule bt.invar_extend) simp

lemma bt_get_collect: "bt_get (bt_collect kvs) = map_of (rev kvs)"
  unfolding bt_collect_def by (simp add: bt.get_extend bt.get_empty)

lemma set_bt_values: "bt_wf m \<Longrightarrow> set (bt_values m) = ran (bt_get m)"
  by (force simp: bt_values_def ran_def bt.mem_entries_iff [symmetric])

lemma bt_values_sorted_by:
  assumes "bt_wf m" and "\<And>k v. (k, v) \<in> set m \<Longrightarrow> f v = k"
  shows "map f (bt_values m) = map fst m"
  using assms(2) by (auto simp: bt_values_def)

end
