(* ===== verification/Json_Value.thy ===== *)
theory Json_Value
  imports Ordered_Map "HOL-Library.Word" Complex_Main
begin

text \<open>
  \<^verbatim>\<open>serde_json::Value\<close> with the accessors the sources call on it, the well-formedness that
  its \<^verbatim>\<open>Map\<close> type guarantees (object keys ascending, so no key twice), and
  \<^verbatim>\<open>SorxError\<close> (\<^verbatim>\<open>greentic-sorx-core/src/error.rs\<close>).

  A float is the rational number it denotes. Error messages keep their interpolated JSON
  values unrendered, because \<^verbatim>\<open>Debug\<close> for \<^verbatim>\<open>Value\<close> and the messages of foreign errors
  belong to other crates.
\<close>

type_synonym u64 = "64 word"
type_synonym u8 = "8 word"

section \<open>Values\<close>

datatype json_number = PosInt u64 | NegInt u64 | Float rat

datatype json =
    JNull
  | JBool bool
  | JNum json_number
  | JStr string
  | JArr "json list"
  | JObj "(string \<times> json) list"

type_synonym json_map = "(string, json) btree"

fun as_object :: "json \<Rightarrow> json_map option" where
  "as_object (JObj m) = Some m"
| "as_object _ = None"

fun as_array :: "json \<Rightarrow> json list option" where
  "as_array (JArr vs) = Some vs"
| "as_array _ = None"

fun as_str :: "json \<Rightarrow> string option" where
  "as_str (JStr s) = Some s"
| "as_str _ = None"

fun as_bool :: "json \<Rightarrow> bool option" where
  "as_bool (JBool b) = Some b"
| "as_bool _ = None"

text \<open>\<^verbatim>\<open>Number::as_u64\<close>, \<^verbatim>\<open>Number::as_i64\<close>: \<^verbatim>\<open>NegInt\<close> holds a negative \<^verbatim>\<open>i64\<close> by its bits.\<close>

fun as_u64 :: "json \<Rightarrow> u64 option" where
  "as_u64 (JNum (PosInt n)) = Some n"
| "as_u64 _ = None"

fun as_i64 :: "json \<Rightarrow> int option" where
  "as_i64 (JNum (PosInt n)) = (if uint n < 2 ^ 63 then Some (uint n) else None)"
| "as_i64 (JNum (NegInt n)) = Some (sint n)"
| "as_i64 _ = None"

text \<open>\<^verbatim>\<open>n as f64\<close> for a 64-bit integer: round to 53 significant bits, ties to even.\<close>

fun bit_length :: "nat \<Rightarrow> nat" where
  "bit_length n = (if n = 0 then 0 else Suc (bit_length (n div 2)))"

declare bit_length.simps [simp del]

definition round_nat_f64 :: "nat \<Rightarrow> nat" where
  "round_nat_f64 n =
     (let e = bit_length n - 53; q = n div 2 ^ e; r = n mod 2 ^ e
      in if e = 0 then n
         else if 2 * r > 2 ^ e \<or> (2 * r = 2 ^ e \<and> odd q) then (q + 1) * 2 ^ e
         else q * 2 ^ e)"

definition f64_of_int :: "int \<Rightarrow> rat" where
  "f64_of_int i = (if i < 0 then - of_nat (round_nat_f64 (nat (- i))) else of_nat (round_nat_f64 (nat i)))"

fun number_as_f64 :: "json_number \<Rightarrow> rat" where
  "number_as_f64 (PosInt n) = f64_of_int (uint n)"
| "number_as_f64 (NegInt n) = f64_of_int (sint n)"
| "number_as_f64 (Float x) = x"

text \<open>\<^verbatim>\<open>Value::get\<close> with a string key: \<^verbatim>\<open>None\<close> on anything but an object.\<close>

definition jget :: "json \<Rightarrow> string \<Rightarrow> json option" where
  "jget v k = (case v of JObj m \<Rightarrow> bt_get m k | _ \<Rightarrow> None)"

definition jget_str :: "json \<Rightarrow> string \<Rightarrow> string option" where
  "jget_str v k = Option.bind (jget v k) as_str"

definition jget_bool :: "json \<Rightarrow> string \<Rightarrow> bool option" where
  "jget_bool v k = Option.bind (jget v k) as_bool"

definition jget_array :: "json \<Rightarrow> string \<Rightarrow> json list option" where
  "jget_array v k = Option.bind (jget v k) as_array"

lemma jget_JObj [simp]: "jget (JObj m) k = bt_get m k"
  by (simp add: jget_def)

lemma jget_Some_obj: "jget v k = Some w \<Longrightarrow> \<exists>m. v = JObj m"
  by (cases v) (auto simp: jget_def)

fun wf_json :: "json \<Rightarrow> bool" where
  "wf_json (JArr vs) = list_all wf_json vs"
| "wf_json (JObj m) = (bt_wf m \<and> list_all (\<lambda>kv. wf_json (snd kv)) m)"
| "wf_json _ = True"

abbreviation wf_json_map :: "json_map \<Rightarrow> bool" where
  "wf_json_map m \<equiv> wf_json (JObj m)"

lemma wf_json_get:
  "list_all (\<lambda>kv. wf_json (snd kv)) m \<Longrightarrow> bt_get m k = Some v \<Longrightarrow> wf_json v"
  by (induction m) (auto split: if_splits)

lemma wf_json_jget: "wf_json v \<Longrightarrow> jget v k = Some w \<Longrightarrow> wf_json w"
  by (cases v) (auto simp: jget_def dest: wf_json_get)

lemma list_all_bt_insert:
  "list_all P m \<Longrightarrow> P (k, v) \<Longrightarrow> list_all P (bt_insert k v m)"
  by (induction m) auto

lemma wf_json_insert: "wf_json_map m \<Longrightarrow> wf_json v \<Longrightarrow> wf_json_map (bt_insert k v m)"
  by (auto intro: list_all_bt_insert)

section \<open>Errors\<close>

datatype message =
    Text string
  | UniqueMsg string "string list" "json list"
  | Around string message string

record sorx_error =
  err_code :: string
  err_message :: message
  err_path :: "string option"

type_synonym 'a sorx_result = "(sorx_error, 'a) result"

definition sorx_error_new :: "string \<Rightarrow> message \<Rightarrow> sorx_error" where
  "sorx_error_new c m = \<lparr>err_code = c, err_message = m, err_path = None\<rparr>"

definition sorx_error_at_path :: "string \<Rightarrow> message \<Rightarrow> string \<Rightarrow> sorx_error" where
  "sorx_error_at_path c m p = \<lparr>err_code = c, err_message = m, err_path = Some p\<rparr>"

text \<open>\<^verbatim>\<open>Display for SorxError\<close>: \<open>Around\<close> is a message between two pieces of text.\<close>

definition display_error :: "sorx_error \<Rightarrow> message" where
  "display_error e =
     (case err_path e of None \<Rightarrow> err_message e | Some p \<Rightarrow> Around [] (err_message e) ('' at '' @ p))"

lemma sorx_error_sel [simp]:
  "err_code (sorx_error_new c m) = c"
  "err_message (sorx_error_new c m) = m"
  "err_path (sorx_error_new c m) = None"
  "err_code (sorx_error_at_path c m p) = c"
  "err_message (sorx_error_at_path c m p) = m"
  "err_path (sorx_error_at_path c m p) = Some p"
  by (simp_all add: sorx_error_new_def sorx_error_at_path_def)

end
