(* ===== verification/Migration_Plan.thy ===== *)
theory Migration_Plan
  imports Json_Value
begin

text \<open>
  The migration IR of \<^verbatim>\<open>greentic-sorx-core/src/migration/plan.rs\<close>, its extraction from a
  pack's executable contract (\<^verbatim>\<open>migration/pack.rs\<close>) and the applied-migration set of
  \<^verbatim>\<open>migration/runner.rs\<close>. The serde-derived decoder of one migration is an argument
  (\<open>from_value\<close>) of the parser.
\<close>

section \<open>Migrations\<close>

datatype compatibility_mode = Additive | BackwardCompatible | Breaking

record migration_backfill =
  bf_record :: string
  bf_field :: string
  bf_default :: json

record compatibility_migration =
  mig_name :: string
  compatibility :: compatibility_mode
  from_version :: "string option"
  to_version :: "string option"
  projection_updates :: "string list"
  backfills :: "migration_backfill list"
  idempotence_key :: "string option"
  mig_notes :: "string option"

definition idempotence_id :: "compatibility_migration \<Rightarrow> string" where
  "idempotence_id m = unwrap_or (idempotence_key m) (mig_name m)"

definition is_breaking :: "compatibility_migration \<Rightarrow> bool" where
  "is_breaking m \<longleftrightarrow> compatibility m = Breaking"

definition auto_appliable :: "compatibility_migration \<Rightarrow> bool" where
  "auto_appliable m \<longleftrightarrow> compatibility m \<in> {Additive, BackwardCompatible}"

lemma auto_appliable_iff: "auto_appliable m \<longleftrightarrow> \<not> is_breaking m"
  by (cases "compatibility m") (auto simp: auto_appliable_def is_breaking_def)

section \<open>The applied-migration set\<close>

text \<open>\<^verbatim>\<open>BTreeSet<String>\<close> as its set of elements: the code only tests membership and inserts.\<close>

record applied_migrations =
  applied :: "string set"

definition applied_default :: applied_migrations where
  "applied_default = \<lparr>applied = {}\<rparr>"

definition applied_contains :: "applied_migrations \<Rightarrow> string \<Rightarrow> bool" where
  "applied_contains a i \<longleftrightarrow> i \<in> applied a"

definition applied_record :: "applied_migrations \<Rightarrow> string \<Rightarrow> bool \<times> applied_migrations" where
  "applied_record a i = (i \<notin> applied a, a\<lparr>applied := insert i (applied a)\<rparr>)"

lemma applied_contains_default [simp]: "\<not> applied_contains applied_default i"
  by (simp add: applied_contains_def applied_default_def)

lemma applied_contains_record [simp]:
  "applied_contains (snd (applied_record a i)) j \<longleftrightarrow> j = i \<or> applied_contains a j"
  by (auto simp: applied_contains_def applied_record_def)

lemma applied_record_again:
  "applied_contains a i \<Longrightarrow> applied_record a i = (False, a)"
  by (cases a) (auto simp: applied_contains_def applied_record_def)

section \<open>Reading the migrations of a pack\<close>

definition not_an_array :: sorx_error where
  "not_an_array = sorx_error_new ''migration_parse_failed''
     (Text ''executable-contract `migrations` field is not a JSON array'')"

definition bad_migration :: "nat \<Rightarrow> string \<Rightarrow> sorx_error" where
  "bad_migration index err = sorx_error_new ''migration_parse_failed''
     (Text (''executable-contract migrations['' @ show_nat index @
            ''] is not a valid CompatibilityMigration: '' @ err))"

fun parse_elements ::
  "(json \<Rightarrow> (string, compatibility_migration) result) \<Rightarrow> nat \<Rightarrow> json list \<Rightarrow>
   compatibility_migration list sorx_result" where
  "parse_elements from_value i [] = Ok []"
| "parse_elements from_value i (e # es) =
     (case from_value e of
        Err msg \<Rightarrow> Err (bad_migration i msg)
      | Ok m \<Rightarrow>
          (case parse_elements from_value (Suc i) es of Err x \<Rightarrow> Err x | Ok ms \<Rightarrow> Ok (m # ms)))"

definition parse_pack_migrations ::
  "(json \<Rightarrow> (string, compatibility_migration) result) \<Rightarrow> json \<Rightarrow>
   compatibility_migration list sorx_result" where
  "parse_pack_migrations from_value contract =
     (case jget contract ''migrations'' of
        None \<Rightarrow> Ok []
      | Some v \<Rightarrow>
          (if v = JNull then Ok []
           else case as_array v of
                  None \<Rightarrow> Err not_an_array
                | Some es \<Rightarrow> parse_elements from_value 0 es))"

lemma parse_elements_Ok:
  "parse_elements from_value i es = Ok ms \<longleftrightarrow> map from_value es = map Ok ms"
proof (induction es arbitrary: i ms)
  case (Cons e es)
  show ?case
  proof (cases "from_value e")
    case (Inr m)
    then have "parse_elements from_value i (e # es) = Ok ms \<longleftrightarrow>
        (\<exists>l. ms = m # l \<and> parse_elements from_value (Suc i) es = Ok l)"
      by (cases "parse_elements from_value (Suc i) es") auto
    then show ?thesis using Inr by (auto simp: Cons.IH Cons_eq_map_conv)
  qed (auto simp: Cons_eq_map_conv)
qed auto

lemma parse_elements_Err:
  "parse_elements from_value i es = Err x \<Longrightarrow> err_code x = ''migration_parse_failed''"
  by (induction es arbitrary: i) (auto simp: bad_migration_def split: sum.splits)

text \<open>No entry of the array is dropped: success means every element was decoded, in order.\<close>

lemma parse_pack_migrations_array:
  assumes "jget contract ''migrations'' = Some (JArr es)"
  shows "parse_pack_migrations from_value contract = Ok ms \<longleftrightarrow> map from_value es = map Ok ms"
  using assms by (simp add: parse_pack_migrations_def parse_elements_Ok)

end
