(* ===== verification/Deployment.thy ===== *)
theory Deployment
  imports Migration_Plan
begin

text \<open>
  The deployment registry of \<^verbatim>\<open>greentic-sorx-core/src/deployment.rs\<close>: deployments, aliases,
  webhook deliveries, validation reports and the promotion audit log, with every operation
  that changes them. An operation returns its result and the registry afterwards, also when
  the result is an error, because the code mutates in place.
\<close>

section \<open>Data\<close>

definition DEPLOYMENT_REGISTRY_SCHEMA :: string where
  "DEPLOYMENT_REGISTRY_SCHEMA = ''greentic.sorx.deployment-registry.v1''"

definition DEPLOYMENT_ROUTE_TABLE_SCHEMA :: string where
  "DEPLOYMENT_ROUTE_TABLE_SCHEMA = ''greentic.sorx.deployment-routes.v1''"

definition DEPLOYMENT_PROMOTION_STATUS_SCHEMA :: string where
  "DEPLOYMENT_PROMOTION_STATUS_SCHEMA = ''greentic.sorx.promotion-status.v1''"

record pack_artifact =
  art_source :: string
  art_name :: string
  art_version :: string
  art_digest :: string
  art_signature :: "string option"
  art_signature_ref :: "string option"

datatype deployment_status =
    Installed | Pending | Validating | Validated | ActivePrivate | ActivePublic
  | Failed | FailedPublicPromotion | Retired | RolledBack

definition is_routable :: "deployment_status \<Rightarrow> bool" where
  "is_routable s \<longleftrightarrow> s \<in> {Validated, ActivePrivate, ActivePublic}"

definition is_active :: "deployment_status \<Rightarrow> bool" where
  "is_active s \<longleftrightarrow> s \<in> {ActivePrivate, ActivePublic}"

datatype deployment_visibility = Private | Internal | Public

definition parse_visibility :: "string \<Rightarrow> deployment_visibility option" where
  "parse_visibility v =
     (if v = ''private'' then Some Private
      else if v = ''internal'' then Some Internal
      else if v = ''public'' then Some Public
      else None)"

fun show_visibility :: "deployment_visibility \<Rightarrow> string" where
  "show_visibility Private = ''private''"
| "show_visibility Internal = ''internal''"
| "show_visibility Public = ''public''"

datatype traffic_mode = TrafficAll | TrafficPercent | TrafficHeader

record traffic_header_match =
  hdr_name :: string
  hdr_value :: string

record traffic_split =
  mode :: traffic_mode
  percent :: "u8 option"
  header :: "traffic_header_match option"

definition traffic_split_default :: traffic_split where
  "traffic_split_default = \<lparr>mode = TrafficAll, percent = None, header = None\<rparr>"

datatype state_mode = Isolated | SharedCompatible | SharedRequiresMigration

definition parse_state_mode :: "string \<Rightarrow> state_mode option" where
  "parse_state_mode v =
     (if v = ''isolated'' then Some Isolated
      else if v = ''shared_compatible'' then Some SharedCompatible
      else if v = ''shared_requires_migration'' then Some SharedRequiresMigration
      else None)"

record sorx_deployment =
  deployment_id :: string
  tenant_id :: string
  sor_name :: string
  pack_name :: string
  pack_version :: string
  pack_digest :: string
  environment :: string
  api_version_label :: string
  view_version :: string
  canonical_version :: string
  base_path :: string
  state_namespace :: string
  visibility :: deployment_visibility
  status :: deployment_status
  dep_state_mode :: state_mode
  traffic :: "traffic_split option"
  artifact :: pack_artifact

record deployment_alias =
  al_tenant :: string
  al_sor :: string
  al_name :: string
  al_target :: string

record promotion_audit_event =
  pae_event :: string
  pae_deployment_id :: string
  pae_tenant_id :: "string option"
  pae_sor_name :: "string option"
  pae_alias :: "string option"
  pae_old_target :: "string option"
  pae_new_target :: "string option"
  pae_reason :: "string option"
  pae_actor :: string
  pae_automation_source :: "string option"

record deployment_registry =
  schema :: string
  deployments :: "sorx_deployment list"
  aliases :: "deployment_alias list"
  webhook_deliveries :: "string list"
  validation_reports :: "json list"
  promotion_audit_events :: "promotion_audit_event list"

definition registry_default :: deployment_registry where
  "registry_default =
     \<lparr>schema = DEPLOYMENT_REGISTRY_SCHEMA, deployments = [], aliases = [],
      webhook_deliveries = [], validation_reports = [], promotion_audit_events = []\<rparr>"

record create_deployment_request =
  req_artifact :: pack_artifact
  req_tenant_id :: string
  req_sor_name :: string
  req_environment :: string
  req_api_version_label :: string
  req_base_path :: string
  req_visibility :: deployment_visibility
  req_state_mode :: state_mode
  req_state_namespace :: "string option"
  req_deployment_id :: "string option"
  allow_api_version_conflict :: bool
  allow_shared_state_conflict :: bool

record promotion_gate_status =
  gate_id :: string
  gate_status :: string
  gate_reason :: "string option"

record promotion_status =
  ps_schema :: string
  ps_deployment_id :: string
  ps_pack_digest :: string
  ps_status :: deployment_status
  ps_visibility :: deployment_visibility
  ps_report_present :: bool
  ps_digest_matches :: bool
  ps_result :: "string option"
  ps_public_exposure_allowed :: bool
  promotable_private :: bool
  promotable_public :: bool
  ps_reason :: "string option"
  ps_gates :: "promotion_gate_status list"

record rollback_alias_request =
  rb_tenant_id :: string
  rb_sor_name :: string
  rb_alias :: string
  rb_to :: string
  rb_reason :: string
  rb_actor :: string
  rb_automation_source :: "string option"

record validation_gate =
  report_present :: bool
  digest_matches :: bool
  vg_result :: "string option"
  public_exposure_allowed :: bool
  private_ok :: bool
  vg_ok :: bool
  vg_reason :: "string option"
  vg_gates :: "promotion_gate_status list"

record deployment_registry_error =
  dre_code :: string
  dre_message :: string

type_synonym 'a dep_result = "(deployment_registry_error, 'a) result"

abbreviation dep_error :: "string \<Rightarrow> string \<Rightarrow> deployment_registry_error" where
  "dep_error c m \<equiv> \<lparr>dre_code = c, dre_message = m\<rparr>"

section \<open>Identifiers and paths\<close>

definition clean_segment :: "string \<Rightarrow> string" where
  "clean_segment value =
     (let cleaned = trim_matches (\<lambda>c. c = CHR ''-'')
            (map (\<lambda>c. if is_ascii_alphanumeric c then to_lower_char c else CHR ''-'') value)
      in if cleaned = [] then ''unnamed'' else cleaned)"

definition digest_suffix :: "string \<Rightarrow> string" where
  "digest_suffix digest =
     take 12 (filter is_ascii_alphanumeric (unwrap_or (strip_prefix ''sha256:'' digest) digest))"

definition make_deployment_id :: "string \<Rightarrow> string \<Rightarrow> string \<Rightarrow> string \<Rightarrow> string \<Rightarrow> string" where
  "make_deployment_id t s api v digest =
     clean_segment t @ ''-'' @ clean_segment s @ ''-'' @ clean_segment api @ ''-'' @
     clean_segment v @ ''-'' @ digest_suffix digest"

definition default_state_namespace :: "create_deployment_request \<Rightarrow> string" where
  "default_state_namespace req =
     (case req_state_mode req of
        Isolated \<Rightarrow>
          ''sorx/'' @ clean_segment (req_tenant_id req) @ ''/'' @ clean_segment (req_sor_name req) @
          ''/'' @ clean_segment (art_version (req_artifact req)) @ ''/'' @
          digest_suffix (art_digest (req_artifact req))
      | _ \<Rightarrow>
          ''sorx/'' @ clean_segment (req_tenant_id req) @ ''/'' @ clean_segment (req_sor_name req))"

definition is_production_environment :: "string \<Rightarrow> bool" where
  "is_production_environment e \<longleftrightarrow>
     to_ascii_lowercase (trim e) \<in> {''prod'', ''production''}"

definition normalize_base_path :: "string \<Rightarrow> string" where
  "normalize_base_path value =
     (let trimmed = trim value
      in if trimmed = [] \<or> trimmed = ''/'' then ''/''
         else CHR ''/'' # trim_matches (\<lambda>c. c = CHR ''/'') trimmed)"

section \<open>Lookup and in-place update\<close>

definition deployment :: "deployment_registry \<Rightarrow> string \<Rightarrow> sorx_deployment option" where
  "deployment r i = find (\<lambda>d. deployment_id d = i) (deployments r)"

definition deployment_missing :: "string \<Rightarrow> deployment_registry_error" where
  "deployment_missing i = dep_error ''deployment_missing'' (''deployment `'' @ i @ ''` does not exist'')"

definition deployment_required :: "deployment_registry \<Rightarrow> string \<Rightarrow> sorx_deployment dep_result" where
  "deployment_required r i = ok_or (deployment r i) (deployment_missing i)"

definition update_deployment ::
  "deployment_registry \<Rightarrow> string \<Rightarrow> (sorx_deployment \<Rightarrow> sorx_deployment) \<Rightarrow>
   sorx_deployment dep_result \<times> deployment_registry" where
  "update_deployment r i f =
     (case deployment r i of
        None \<Rightarrow> (Err (deployment_missing i), r)
      | Some d \<Rightarrow>
          (Ok (f d),
           r\<lparr>deployments := update_first (\<lambda>d. deployment_id d = i) f (deployments r)\<rparr>))"

definition update_status ::
  "deployment_registry \<Rightarrow> string \<Rightarrow> deployment_status \<Rightarrow>
   sorx_deployment dep_result \<times> deployment_registry" where
  "update_status r i s = update_deployment r i (\<lambda>d. d\<lparr>status := s\<rparr>)"

definition validate_deployment ::
  "deployment_registry \<Rightarrow> string \<Rightarrow> sorx_deployment dep_result \<times> deployment_registry" where
  "validate_deployment r i = update_status r i Validated"

definition activate_private ::
  "deployment_registry \<Rightarrow> string \<Rightarrow> sorx_deployment dep_result \<times> deployment_registry" where
  "activate_private r i = update_status r i ActivePrivate"

section \<open>Creating a deployment\<close>

definition check_base_path_conflict ::
  "deployment_registry \<Rightarrow> string \<Rightarrow> string \<Rightarrow> unit dep_result" where
  "check_base_path_conflict r i path =
     (let p = normalize_base_path path
      in case find (\<lambda>d. status d \<noteq> Retired \<and> deployment_id d \<noteq> i \<and> base_path d = p)
                (deployments r) of
           Some d \<Rightarrow> Err (dep_error ''base_path_conflict''
                       (''base path `'' @ p @ ''` conflicts with deployment `'' @ deployment_id d @ ''`''))
         | None \<Rightarrow> Ok ())"

definition check_api_version_conflict ::
  "deployment_registry \<Rightarrow> create_deployment_request \<Rightarrow> unit dep_result" where
  "check_api_version_conflict r req =
     (if allow_api_version_conflict req then Ok ()
      else case find (\<lambda>d. status d \<noteq> Retired \<and> tenant_id d = req_tenant_id req \<and>
                         sor_name d = req_sor_name req \<and>
                         api_version_label d = req_api_version_label req \<and>
                         pack_digest d \<noteq> art_digest (req_artifact req)) (deployments r) of
             Some d \<Rightarrow> Err (dep_error ''api_version_conflict''
                         (''API version `'' @ req_api_version_label req @
                          ''` already points to digest `'' @ pack_digest d @ ''`''))
           | None \<Rightarrow> Ok ())"

definition check_state_namespace_conflict ::
  "deployment_registry \<Rightarrow> string \<Rightarrow> string \<Rightarrow> state_mode \<Rightarrow> bool \<Rightarrow> unit dep_result" where
  "check_state_namespace_conflict r i ns sm allow =
     (if allow \<or> sm = SharedCompatible then Ok ()
      else case find (\<lambda>d. status d \<noteq> Retired \<and> deployment_id d \<noteq> i \<and>
                         state_namespace d = ns \<and> dep_state_mode d \<noteq> SharedCompatible)
                  (deployments r) of
             Some d \<Rightarrow> Err (dep_error ''state_namespace_conflict''
                         (''state namespace `'' @ ns @ ''` conflicts with deployment `'' @
                          deployment_id d @ ''`''))
           | None \<Rightarrow> Ok ())"

definition requested_id :: "create_deployment_request \<Rightarrow> string" where
  "requested_id req =
     unwrap_or (req_deployment_id req)
       (make_deployment_id (req_tenant_id req) (req_sor_name req) (req_api_version_label req)
          (art_version (req_artifact req)) (art_digest (req_artifact req)))"

definition requested_deployment :: "create_deployment_request \<Rightarrow> string \<Rightarrow> string \<Rightarrow> sorx_deployment" where
  "requested_deployment req i ns =
     \<lparr>deployment_id = i,
      tenant_id = req_tenant_id req,
      sor_name = req_sor_name req,
      pack_name = art_name (req_artifact req),
      pack_version = art_version (req_artifact req),
      pack_digest = art_digest (req_artifact req),
      environment = req_environment req,
      api_version_label = req_api_version_label req,
      view_version = req_api_version_label req,
      canonical_version = art_version (req_artifact req),
      base_path = normalize_base_path (req_base_path req),
      state_namespace = ns,
      visibility = req_visibility req,
      status = Pending,
      dep_state_mode = req_state_mode req,
      traffic = Some traffic_split_default,
      artifact = req_artifact req\<rparr>"

definition create_deployment ::
  "deployment_registry \<Rightarrow> create_deployment_request \<Rightarrow>
   sorx_deployment dep_result \<times> deployment_registry" where
  "create_deployment r req =
     (let i = requested_id req
      in if \<exists>d\<in>set (deployments r). deployment_id d = i \<and> status d \<noteq> Retired
         then (Err (dep_error ''deployment_exists'' (''deployment `'' @ i @ ''` already exists'')), r)
         else if req_state_mode req = Isolated \<and> is_production_environment (req_environment req)
         then (Err (dep_error ''isolated_state_not_production''
                      ''production deployments must use shared canonical state''), r)
         else
           let ns = unwrap_or (req_state_namespace req) (default_state_namespace req)
           in case check_api_version_conflict r req of
                Err e \<Rightarrow> (Err e, r)
              | Ok _ \<Rightarrow>
                  (case check_base_path_conflict r i (req_base_path req) of
                     Err e \<Rightarrow> (Err e, r)
                   | Ok _ \<Rightarrow>
                       (case check_state_namespace_conflict r i ns (req_state_mode req)
                               (allow_shared_state_conflict req) of
                          Err e \<Rightarrow> (Err e, r)
                        | Ok _ \<Rightarrow>
                            (let d = requested_deployment req i ns
                             in (Ok d,
                                 r\<lparr>deployments :=
                                     sort_by (\<lambda>a b. cmp (deployment_id a) (deployment_id b))
                                       (deployments r @ [d])\<rparr>)))))"

section \<open>Validation reports and promotion gates\<close>

definition record_validation_report ::
  "deployment_registry \<Rightarrow> json \<Rightarrow> unit dep_result \<times> deployment_registry" where
  "record_validation_report r report =
     (case jget_str report ''deployment_id'' of
        None \<Rightarrow> (Err (dep_error ''validation_report_invalid''
                        ''validation report must include deployment_id''), r)
      | Some i \<Rightarrow>
          (case deployment r i of
             None \<Rightarrow> (Err (deployment_missing i), r)
           | Some _ \<Rightarrow> (Ok (), r\<lparr>validation_reports := validation_reports r @ [report]\<rparr>)))"

definition latest_validation_report :: "deployment_registry \<Rightarrow> string \<Rightarrow> json option" where
  "latest_validation_report r i =
     find (\<lambda>report. jget_str report ''deployment_id'' = Some i) (rev (validation_reports r))"

definition ontology_gate_keys :: "(string \<times> string) list" where
  "ontology_gate_keys =
     [(''ontology-static'', ''static_validation''),
      (''provider-compatibility'', ''provider_compatibility''),
      (''retrieval-bindings'', ''retrieval_bindings''),
      (''ontology-policy'', ''policy_validation'')]"

definition ontology_promotion_gates :: "json \<Rightarrow> promotion_gate_status list" where
  "ontology_promotion_gates report =
     (case Option.bind (jget report ''ontology'') as_object of
        None \<Rightarrow> []
      | Some ontology \<Rightarrow>
          map (\<lambda>(i, key).
                 let passed = (case Option.bind (bt_get ontology key) as_str of
                                 None \<Rightarrow> False
                               | Some s \<Rightarrow> s = ''passed'' \<or> s = ''pass'')
                 in \<lparr>gate_id = i,
                     gate_status = (if passed then ''passed'' else ''failed''),
                     gate_reason = (if passed then None
                                    else Some (''ontology gate `'' @ key @ ''` did not pass''))\<rparr>)
            ontology_gate_keys)"

definition report_pack_digest :: "json \<Rightarrow> string option" where
  "report_pack_digest report =
     opt_or (jget_str report ''pack_digest'')
       (Option.bind (jget report ''pack'') (\<lambda>p. jget_str p ''digest''))"

definition no_report_gate :: validation_gate where
  "no_report_gate =
     (let why = ''validation report is required before promotion''
      in \<lparr>report_present = False, digest_matches = False, vg_result = None,
          public_exposure_allowed = False, private_ok = False, vg_ok = False,
          vg_reason = Some why,
          vg_gates = [\<lparr>gate_id = ''validation-report'', gate_status = ''missing'',
                       gate_reason = Some why\<rparr>]\<rparr>)"

definition registry_validation_gate :: "deployment_registry \<Rightarrow> sorx_deployment \<Rightarrow> validation_gate" where
  "registry_validation_gate r d =
     (case latest_validation_report r (deployment_id d) of
        None \<Rightarrow> no_report_gate
      | Some report \<Rightarrow>
          let dm = (report_pack_digest report = Some (pack_digest d));
              res = jget_str report ''result'';
              exposure = unwrap_or (jget_bool report ''public_exposure_allowed'') False;
              og = ontology_promotion_gates report;
              override_allowed = unwrap_or (jget_bool report ''local_operator_policy_override'') False;
              ontology_ok = ((\<forall>g\<in>set og. gate_status g = ''passed'') \<or> override_allowed);
              gates =
                [\<lparr>gate_id = ''validation-report'',
                  gate_status = (if res = Some ''pass'' \<and> dm then ''passed'' else ''failed''),
                  gate_reason = (if dm then None
                    else Some ''validation report pack digest does not match deployment'')\<rparr>,
                 \<lparr>gate_id = ''public-exposure'',
                  gate_status = (if exposure then ''passed'' else ''failed''),
                  gate_reason = (if exposure then None
                    else Some ''validation report does not allow public exposure'')\<rparr>] @ og @
                (if override_allowed
                 then [\<lparr>gate_id = ''local-operator-override'', gate_status = ''passed'',
                        gate_reason = Some ''local operator override allowed ontology public exposure''\<rparr>]
                 else []);
              priv = (dm \<and> res = Some ''pass'');
              k = (priv \<and> exposure \<and> ontology_ok)
          in \<lparr>report_present = True, digest_matches = dm, vg_result = res,
              public_exposure_allowed = exposure, private_ok = priv, vg_ok = k,
              vg_reason =
                (if k then None
                 else if \<not> dm then Some ''validation report pack digest does not match deployment''
                 else if res \<noteq> Some ''pass'' then Some ''validation report did not pass required gates''
                 else if \<not> ontology_ok then Some ''ontology public exposure gates did not pass''
                 else Some ''validation report does not allow public exposure''),
              vg_gates = gates\<rparr>)"

definition promotion_blocked :: "sorx_deployment \<Rightarrow> validation_gate \<Rightarrow> deployment_registry_error" where
  "promotion_blocked d g =
     dep_error ''promotion_blocked''
       (unwrap_or (vg_reason g)
          (''deployment `'' @ deployment_id d @ ''` does not have a passing validation report''))"

definition require_validation_gate :: "deployment_registry \<Rightarrow> sorx_deployment \<Rightarrow> unit dep_result" where
  "require_validation_gate r d =
     (let g = registry_validation_gate r d
      in if vg_ok g then Ok () else Err (promotion_blocked d g))"

definition require_private_validation_gate ::
  "deployment_registry \<Rightarrow> sorx_deployment \<Rightarrow> unit dep_result" where
  "require_private_validation_gate r d =
     (let g = registry_validation_gate r d
      in if private_ok g then Ok () else Err (promotion_blocked d g))"

definition promotion_status_of :: "deployment_registry \<Rightarrow> string \<Rightarrow> promotion_status dep_result" where
  "promotion_status_of r i =
     (case deployment_required r i of
        Err e \<Rightarrow> Err e
      | Ok d \<Rightarrow>
          let v = registry_validation_gate r d
          in Ok \<lparr>ps_schema = DEPLOYMENT_PROMOTION_STATUS_SCHEMA,
                 ps_deployment_id = deployment_id d,
                 ps_pack_digest = pack_digest d,
                 ps_status = status d,
                 ps_visibility = visibility d,
                 ps_report_present = report_present v,
                 ps_digest_matches = digest_matches v,
                 ps_result = vg_result v,
                 ps_public_exposure_allowed = public_exposure_allowed v,
                 promotable_private =
                   (private_ok v \<and> status d \<in> {Pending, Validating, Validated, ActivePrivate}),
                 promotable_public = (vg_ok v \<and> status d \<in> {Validated, ActivePrivate}),
                 ps_reason = vg_reason v,
                 ps_gates = vg_gates v\<rparr>)"

section \<open>Promotion, aliases, rollback and retirement\<close>

definition record_promotion_audit ::
  "deployment_registry \<Rightarrow> promotion_audit_event \<Rightarrow> deployment_registry" where
  "record_promotion_audit r e =
     r\<lparr>promotion_audit_events := promotion_audit_events r @ [e]\<rparr>"

definition promoted_event ::
  "string \<Rightarrow> string \<Rightarrow> sorx_deployment \<Rightarrow> string \<Rightarrow> string option \<Rightarrow> promotion_audit_event" where
  "promoted_event name i d actor automation =
     \<lparr>pae_event = name, pae_deployment_id = i, pae_tenant_id = Some (tenant_id d),
      pae_sor_name = Some (sor_name d), pae_alias = None, pae_old_target = None,
      pae_new_target = Some i, pae_reason = None, pae_actor = actor,
      pae_automation_source = automation\<rparr>"

definition promote_private ::
  "deployment_registry \<Rightarrow> string \<Rightarrow> string \<Rightarrow> string option \<Rightarrow>
   sorx_deployment dep_result \<times> deployment_registry" where
  "promote_private r i actor automation =
     (case deployment_required r i of
        Err e \<Rightarrow> (Err e, r)
      | Ok d \<Rightarrow>
          (case require_private_validation_gate r d of
             Err e \<Rightarrow> (Err e, r)
           | Ok _ \<Rightarrow>
               (case update_status r i ActivePrivate of
                  (Err e, r') \<Rightarrow> (Err e, r')
                | (Ok p, r') \<Rightarrow>
                    (Ok p, record_promotion_audit r'
                       (promoted_event ''sorx.deployment.promoted_private'' i p actor automation)))))"

definition promote_public ::
  "deployment_registry \<Rightarrow> string \<Rightarrow> string \<Rightarrow> string option \<Rightarrow>
   sorx_deployment dep_result \<times> deployment_registry" where
  "promote_public r i actor automation =
     (case deployment_required r i of
        Err e \<Rightarrow> (Err e, r)
      | Ok d \<Rightarrow>
          (case require_validation_gate r d of
             Err e \<Rightarrow> (Err e, r)
           | Ok _ \<Rightarrow>
               (case update_deployment r i (\<lambda>d. d\<lparr>status := ActivePublic, visibility := Public\<rparr>) of
                  (Err e, r') \<Rightarrow> (Err e, r')
                | (Ok p, r') \<Rightarrow>
                    (Ok p, record_promotion_audit r'
                       (promoted_event ''sorx.deployment.promoted_public'' i p actor automation)))))"

definition alias_key :: "deployment_alias \<Rightarrow> string \<times> string \<times> string" where
  "alias_key a = (al_tenant a, al_sor a, al_name a)"

definition find_alias :: "deployment_registry \<Rightarrow> string \<Rightarrow> string \<Rightarrow> string \<Rightarrow> deployment_alias option" where
  "find_alias r t s a =
     find (\<lambda>c. al_tenant c = t \<and> al_sor c = s \<and> al_name c = a) (aliases r)"

definition set_alias ::
  "deployment_registry \<Rightarrow> string \<Rightarrow> string \<Rightarrow> string \<Rightarrow> string \<Rightarrow>
   deployment_alias dep_result \<times> deployment_registry" where
  "set_alias r t s a target_id =
     (case deployment r target_id of
        None \<Rightarrow> (Err (deployment_missing target_id), r)
      | Some target \<Rightarrow>
          if tenant_id target \<noteq> t \<or> sor_name target \<noteq> s
          then (Err (dep_error ''alias_scope_mismatch''
                       ''alias target must have the same tenant and SOR name''), r)
          else if \<not> is_routable (status target)
          then (Err (dep_error ''alias_target_not_routable''
                       ''alias target must be validated or active''), r)
          else
            let n = \<lparr>al_tenant = t, al_sor = s, al_name = a, al_target = target_id\<rparr>;
                kept = filter (\<lambda>e. \<not> (al_tenant e = t \<and> al_sor e = s \<and> al_name e = a)) (aliases r)
            in (Ok n, r\<lparr>aliases := sort_by (\<lambda>x y. cmp (alias_key x) (alias_key y)) (kept @ [n])\<rparr>))"

definition promote_alias ::
  "deployment_registry \<Rightarrow> string \<Rightarrow> string \<Rightarrow> bool \<Rightarrow> string \<Rightarrow> string option \<Rightarrow>
   deployment_alias dep_result \<times> deployment_registry" where
  "promote_alias r i a public actor automation =
     (case (if public then promote_public r i actor automation
            else promote_private r i actor automation) of
        (Err e, r1) \<Rightarrow> (Err e, r1)
      | (Ok _, r1) \<Rightarrow>
          (case deployment_required r1 i of
             Err e \<Rightarrow> (Err e, r1)
           | Ok target \<Rightarrow>
               let old = map_option al_target (find_alias r1 (tenant_id target) (sor_name target) a)
               in (case set_alias r1 (tenant_id target) (sor_name target) a i of
                     (Err e, r2) \<Rightarrow> (Err e, r2)
                   | (Ok n, r2) \<Rightarrow>
                       (Ok n, record_promotion_audit r2
                          \<lparr>pae_event = ''sorx.deployment.alias_promoted'', pae_deployment_id = i,
                           pae_tenant_id = Some (tenant_id target),
                           pae_sor_name = Some (sor_name target), pae_alias = Some a,
                           pae_old_target = old, pae_new_target = Some i, pae_reason = None,
                           pae_actor = actor, pae_automation_source = automation\<rparr>))))"

definition rollback_alias ::
  "deployment_registry \<Rightarrow> rollback_alias_request \<Rightarrow>
   deployment_alias dep_result \<times> deployment_registry" where
  "rollback_alias r q =
     (case deployment_required r (rb_to q) of
        Err e \<Rightarrow> (Err e, r)
      | Ok target \<Rightarrow>
          if tenant_id target \<noteq> rb_tenant_id q \<or> sor_name target \<noteq> rb_sor_name q
          then (Err (dep_error ''alias_scope_mismatch''
                       ''rollback target must have the same tenant and SOR name''), r)
          else
            let old = map_option al_target (find_alias r (rb_tenant_id q) (rb_sor_name q) (rb_alias q))
            in (case (case old of
                        None \<Rightarrow> (Ok (), r)
                      | Some o_id \<Rightarrow>
                          if o_id \<noteq> rb_to q
                          then (case update_status r o_id RolledBack of
                                  (Err e, r') \<Rightarrow> (Err e, r')
                                | (Ok _, r') \<Rightarrow> (Ok (), r'))
                          else (Ok (), r)) of
                  (Err e, r1) \<Rightarrow> (Err e, r1)
                | (Ok _, r1) \<Rightarrow>
                    (case set_alias r1 (rb_tenant_id q) (rb_sor_name q) (rb_alias q) (rb_to q) of
                       (Err e, r2) \<Rightarrow> (Err e, r2)
                     | (Ok n, r2) \<Rightarrow>
                         (Ok n, record_promotion_audit r2
                            \<lparr>pae_event = ''sorx.deployment.alias_rolled_back'',
                             pae_deployment_id = rb_to q,
                             pae_tenant_id = Some (rb_tenant_id q),
                             pae_sor_name = Some (rb_sor_name q),
                             pae_alias = Some (rb_alias q), pae_old_target = old,
                             pae_new_target = Some (rb_to q), pae_reason = Some (rb_reason q),
                             pae_actor = rb_actor q,
                             pae_automation_source = rb_automation_source q\<rparr>))))"

definition retire ::
  "deployment_registry \<Rightarrow> string \<Rightarrow> sorx_deployment dep_result \<times> deployment_registry" where
  "retire r i =
     (case update_status r i Retired of
        (Err e, r') \<Rightarrow> (Err e, r')
      | (Ok d, r') \<Rightarrow> (Ok d, r'\<lparr>aliases := filter (\<lambda>a. al_target a \<noteq> i) (aliases r')\<rparr>))"

fun retire_each ::
  "deployment_registry \<Rightarrow> string list \<Rightarrow> sorx_deployment list dep_result \<times> deployment_registry" where
  "retire_each r [] = (Ok [], r)"
| "retire_each r (i # is) =
     (case retire r i of
        (Err e, r') \<Rightarrow> (Err e, r')
      | (Ok d, r') \<Rightarrow>
          (case retire_each r' is of
             (Err e, r'') \<Rightarrow> (Err e, r'')
           | (Ok ds, r'') \<Rightarrow> (Ok (d # ds), r'')))"

definition active_newest_first :: "deployment_registry \<Rightarrow> string \<Rightarrow> string \<Rightarrow> sorx_deployment list" where
  "active_newest_first r t s =
     sort_by (\<lambda>a b. cmp (deployment_id b) (deployment_id a))
       (filter (\<lambda>d. tenant_id d = t \<and> sor_name d = s \<and> is_active (status d)) (deployments r))"

definition retire_old ::
  "deployment_registry \<Rightarrow> string \<Rightarrow> string \<Rightarrow> nat \<Rightarrow>
   sorx_deployment list dep_result \<times> deployment_registry" where
  "retire_old r t s keep =
     retire_each r (map deployment_id (drop keep (active_newest_first r t s)))"

definition public_deployments :: "deployment_registry \<Rightarrow> sorx_deployment list" where
  "public_deployments r = filter (\<lambda>d. status d = ActivePublic) (deployments r)"

definition aliases_for ::
  "deployment_registry \<Rightarrow> string option \<Rightarrow> string option \<Rightarrow> deployment_alias list" where
  "aliases_for r t s =
     filter (\<lambda>a. case s of None \<Rightarrow> True | Some x \<Rightarrow> al_sor a = x)
       (filter (\<lambda>a. case t of None \<Rightarrow> True | Some x \<Rightarrow> al_tenant a = x) (aliases r))"

definition resolve_alias ::
  "deployment_registry \<Rightarrow> string \<Rightarrow> string \<Rightarrow> string \<Rightarrow> sorx_deployment option" where
  "resolve_alias r t s a = Option.bind (find_alias r t s a) (\<lambda>x. deployment r (al_target x))"

section \<open>Webhook deliveries\<close>

definition has_webhook_delivery :: "deployment_registry \<Rightarrow> string \<Rightarrow> bool" where
  "has_webhook_delivery r i \<longleftrightarrow> i \<in> set (webhook_deliveries r)"

definition record_webhook_delivery ::
  "deployment_registry \<Rightarrow> string \<Rightarrow> unit dep_result \<times> deployment_registry" where
  "record_webhook_delivery r i =
     (if has_webhook_delivery r i
      then (Err (dep_error ''webhook_replay''
                   (''webhook delivery `'' @ i @ ''` was already processed'')), r)
      else (Ok (), r\<lparr>webhook_deliveries := sort (webhook_deliveries r @ [i])\<rparr>))"

section \<open>Route tables, the registry file, and the migration gate\<close>

record deployment_route =
  dr_method :: string
  dr_path :: string
  dr_endpoint_id :: string
  dr_operation_id :: string

record deployment_route_table =
  rt_schema :: string
  rt_deployment_id :: string
  rt_base_path :: string
  rt_api_version_label :: string
  rt_view_version :: string
  rt_canonical_version :: string
  rt_state_namespace :: string
  rt_routes :: "deployment_route list"

definition route_table_new :: "sorx_deployment \<Rightarrow> deployment_route list \<Rightarrow> deployment_route_table" where
  "route_table_new d routes =
     \<lparr>rt_schema = DEPLOYMENT_ROUTE_TABLE_SCHEMA, rt_deployment_id = deployment_id d,
      rt_base_path = base_path d, rt_api_version_label = api_version_label d,
      rt_view_version = view_version d, rt_canonical_version = canonical_version d,
      rt_state_namespace = state_namespace d, rt_routes = routes\<rparr>"

text \<open>
  \<^verbatim>\<open>LocalDeploymentRegistryStore::load\<close>. The file is \<^term>\<open>None\<close> when the path does not
  exist, otherwise the outcome of reading it; \<open>decode\<close> stands for \<^verbatim>\<open>serde_json::from_slice\<close>.
\<close>

definition registry_load ::
  "('b \<Rightarrow> (string, deployment_registry) result) \<Rightarrow> string \<Rightarrow> (string, 'b) result option \<Rightarrow>
   deployment_registry dep_result" where
  "registry_load decode path file =
     (case file of
        None \<Rightarrow> Ok registry_default
      | Some (Inl err) \<Rightarrow>
          Err (dep_error ''registry_read_failed'' (''failed to read '' @ path @ '': '' @ err))
      | Some (Inr bytes) \<Rightarrow>
          (case decode bytes of
             Err err \<Rightarrow>
               Err (dep_error ''registry_decode_failed'' (''failed to decode '' @ path @ '': '' @ err))
           | Ok r \<Rightarrow>
               if schema r \<noteq> DEPLOYMENT_REGISTRY_SCHEMA
               then Err (dep_error ''registry_schema_unsupported''
                           (''unsupported registry schema `'' @ schema r @ ''`''))
               else Ok r))"

fun check_pending ::
  "compatibility_migration list \<Rightarrow> applied_migrations \<Rightarrow> bool \<Rightarrow> unit dep_result" where
  "check_pending [] done confirm = Ok ()"
| "check_pending (m # ms) done confirm =
     (if applied_contains done (idempotence_id m) then check_pending ms done confirm
      else if is_breaking m \<and> \<not> confirm
      then Err (dep_error ''migration_breaking_unconfirmed''
                  (''breaking migration `'' @ idempotence_id m @ ''` requires explicit confirmation''))
      else check_pending ms done confirm)"

definition evaluate_pending_migrations ::
  "state_mode \<Rightarrow> compatibility_migration list \<Rightarrow> applied_migrations \<Rightarrow> bool \<Rightarrow> unit dep_result" where
  "evaluate_pending_migrations sm pending done confirm =
     (if sm \<noteq> SharedRequiresMigration then Ok () else check_pending pending done confirm)"

end
