(* ===== verification/Registry_Lemmas.thy ===== *)
theory Registry_Lemmas
  imports Deployment "HOL-Library.Sublist"
begin

text \<open>
  How each operation of the deployment registry acts on lookups, the well-formedness
  invariant of the registry, and the state machine formed by its operations.
\<close>

section \<open>Finding in stably sorted slices\<close>

lemma find_filter: "find P xs = (case filter P xs of [] \<Rightarrow> None | x # _ \<Rightarrow> Some x)"
  by (induction xs) auto

lemma find_sort_key: "find (\<lambda>x. f x = k) (sort_key f xs) = find (\<lambda>x. f x = k) xs"
  by (simp only: find_filter [of "\<lambda>x. f x = k"] sort_key_stable)

lemma find_append: "find P (xs @ ys) = (case find P xs of None \<Rightarrow> find P ys | Some x \<Rightarrow> Some x)"
  by (induction xs) auto

lemma find_filter_disjoint:
  "(\<And>x. P x \<Longrightarrow> Q x) \<Longrightarrow> find P (filter Q xs) = find P xs"
  by (induction xs) auto

section \<open>Lookups after each operation\<close>

lemma deployment_Some: "deployment r i = Some d \<Longrightarrow> deployment_id d = i \<and> d \<in> set (deployments r)"
  unfolding deployment_def by (drule find_Some_mem) simp

lemma deployment_None: "deployment r i = None \<longleftrightarrow> (\<forall>d\<in>set (deployments r). deployment_id d \<noteq> i)"
  by (simp add: deployment_def find_None_all)

lemma deployment_cong [simp]:
  "deployment (r\<lparr>aliases := x\<rparr>) i = deployment r i"
  "deployment (r\<lparr>webhook_deliveries := y\<rparr>) i = deployment r i"
  "deployment (r\<lparr>validation_reports := z\<rparr>) i = deployment r i"
  "deployment (r\<lparr>promotion_audit_events := w\<rparr>) i = deployment r i"
  by (simp_all add: deployment_def)

lemma deployment_update_first:
  assumes "\<And>d. deployment_id (f d) = deployment_id d"
  shows "deployment (r\<lparr>deployments := update_first (\<lambda>d. deployment_id d = i) f (deployments r)\<rparr>) j
       = (if j = i then map_option f (deployment r i) else deployment r j)"
proof (cases "j = i")
  case True
  then show ?thesis by (simp add: deployment_def find_update_first assms)
next
  case False
  then show ?thesis by (auto simp: deployment_def assms intro!: find_update_first_other)
qed

lemma update_deployment_Some:
  assumes "deployment r i = Some d"
  shows "update_deployment r i f =
    (Ok (f d), r\<lparr>deployments := update_first (\<lambda>d. deployment_id d = i) f (deployments r)\<rparr>)"
  using assms by (simp add: update_deployment_def)

lemma update_deployment_None:
  "deployment r i = None \<Longrightarrow> update_deployment r i f = (Err (deployment_missing i), r)"
  by (simp add: update_deployment_def)

lemma deployment_update_deployment:
  assumes "\<And>d. deployment_id (f d) = deployment_id d"
  shows "deployment (snd (update_deployment r i f)) j
       = (if j = i then map_option f (deployment r i) else deployment r j)"
  using deployment_update_first [where r = r and i = i and j = j and f = f, OF assms]
  by (cases "deployment r i") (auto simp: update_deployment_def)

lemma update_deployment_frame [simp]:
  "aliases (snd (update_deployment r i f)) = aliases r"
  "schema (snd (update_deployment r i f)) = schema r"
  "webhook_deliveries (snd (update_deployment r i f)) = webhook_deliveries r"
  "validation_reports (snd (update_deployment r i f)) = validation_reports r"
  "promotion_audit_events (snd (update_deployment r i f)) = promotion_audit_events r"
  by (auto simp: update_deployment_def split: option.splits)

lemma ids_update_deployment:
  assumes "\<And>d. deployment_id (f d) = deployment_id d"
  shows "map deployment_id (deployments (snd (update_deployment r i f))) = map deployment_id (deployments r)"
  by (auto simp: update_deployment_def assms map_update_first split: option.splits)

text \<open>A created deployment is appended behind any deployment that already has its id.\<close>

lemma sorted_deployments_find:
  "find (\<lambda>d. deployment_id d = j) (sort_by (\<lambda>a b. cmp (deployment_id a) (deployment_id b)) ds)
   = find (\<lambda>d. deployment_id d = j) ds"
  by (simp add: sort_by_key find_sort_key)

lemma create_deployment_cases:
  obtains (rejected) e where "create_deployment r req = (Err e, r)"
  | (created) d where
      "d = requested_deployment req (requested_id req)
             (unwrap_or (req_state_namespace req) (default_state_namespace req))"
      "create_deployment r req =
         (Ok d, r\<lparr>deployments := sort_by (\<lambda>a b. cmp (deployment_id a) (deployment_id b))
                                  (deployments r @ [d])\<rparr>)"
proof -
  let ?d = "requested_deployment req (requested_id req)
              (unwrap_or (req_state_namespace req) (default_state_namespace req))"
  have "(\<exists>e. create_deployment r req = (Err e, r)) \<or>
      create_deployment r req =
         (Ok ?d, r\<lparr>deployments := sort_by (\<lambda>a b. cmp (deployment_id a) (deployment_id b))
                                  (deployments r @ [?d])\<rparr>)"
    by (simp add: create_deployment_def Let_def split: sum.splits)
  then show thesis using that by blast
qed

lemma requested_deployment_sel [simp]:
  "deployment_id (requested_deployment req i ns) = i"
  "tenant_id (requested_deployment req i ns) = req_tenant_id req"
  "sor_name (requested_deployment req i ns) = req_sor_name req"
  "base_path (requested_deployment req i ns) = normalize_base_path (req_base_path req)"
  "status (requested_deployment req i ns) = Pending"
  "visibility (requested_deployment req i ns) = req_visibility req"
  "state_namespace (requested_deployment req i ns) = ns"
  "dep_state_mode (requested_deployment req i ns) = req_state_mode req"
  "api_version_label (requested_deployment req i ns) = req_api_version_label req"
  "pack_digest (requested_deployment req i ns) = art_digest (req_artifact req)"
  "environment (requested_deployment req i ns) = req_environment req"
  by (simp_all add: requested_deployment_def)

lemma deployment_create:
  assumes "create_deployment r req = (Ok d, r')"
  shows "deployment r' j =
    (case deployment r j of Some x \<Rightarrow> Some x | None \<Rightarrow> if deployment_id d = j then Some d else None)"
proof (cases rule: create_deployment_cases [of r req])
  case (created d')
  with assms have "r' = r\<lparr>deployments := sort_by (\<lambda>a b. cmp (deployment_id a) (deployment_id b))
      (deployments r @ [d])\<rparr>" by auto
  then show ?thesis
    by (simp add: deployment_def sorted_deployments_find find_append split: option.splits)
qed (use assms in auto)

section \<open>Aliases\<close>

lemma find_alias_key: "find_alias r t s a = find (\<lambda>c. alias_key c = (t, s, a)) (aliases r)"
  by (simp add: find_alias_def alias_key_def)

lemma find_alias_cong [simp]:
  "find_alias (r\<lparr>deployments := x\<rparr>) t s a = find_alias r t s a"
  "find_alias (r\<lparr>promotion_audit_events := w\<rparr>) t s a = find_alias r t s a"
  by (simp_all add: find_alias_def)

lemma set_alias_cases:
  obtains (rejected) e where "set_alias r t s a i = (Err e, r)"
  | (set) d n where "deployment r i = Some d" "tenant_id d = t" "sor_name d = s"
      "is_routable (status d)" "n = \<lparr>al_tenant = t, al_sor = s, al_name = a, al_target = i\<rparr>"
      "set_alias r t s a i = (Ok n, r\<lparr>aliases := sort_key alias_key
         (filter (\<lambda>e. alias_key e \<noteq> (t, s, a)) (aliases r) @ [n])\<rparr>)"
proof (cases "deployment r i")
  case None
  then show ?thesis using that(1) by (simp add: set_alias_def)
next
  case (Some d)
  have keys: "(\<lambda>e. \<not> (al_tenant e = t \<and> al_sor e = s \<and> al_name e = a)) = (\<lambda>e. alias_key e \<noteq> (t, s, a))"
    by (auto simp: alias_key_def)
  show ?thesis
  proof (cases "tenant_id d = t \<and> sor_name d = s \<and> is_routable (status d)")
    case True
    let ?n = "\<lparr>al_tenant = t, al_sor = s, al_name = a, al_target = i\<rparr>"
    have "set_alias r t s a i = (Ok ?n, r\<lparr>aliases := sort_by (\<lambda>x y. cmp (alias_key x) (alias_key y))
        (filter (\<lambda>e. \<not> (al_tenant e = t \<and> al_sor e = s \<and> al_name e = a)) (aliases r) @ [?n])\<rparr>)"
      using True Some by (simp add: set_alias_def Let_def)
    then show ?thesis
      unfolding keys sort_by_key using True by (intro that(2) [OF Some]) simp_all
  next
    case False
    then have "\<exists>e. set_alias r t s a i = (Err e, r)" using Some by (auto simp: set_alias_def)
    then show ?thesis using that(1) by blast
  qed
qed

lemma find_alias_set_alias:
  assumes "set_alias r t s a i = (Ok n, r')"
  shows "find_alias r' t' s' a' = (if (t', s', a') = (t, s, a) then Some n else find_alias r t' s' a')"
proof (cases rule: set_alias_cases [of r t s a i])
  case (set d m)
  then have n: "n = \<lparr>al_tenant = t, al_sor = s, al_name = a, al_target = i\<rparr>"
    and r': "r' = r\<lparr>aliases := sort_key alias_key (filter (\<lambda>e. alias_key e \<noteq> (t, s, a)) (aliases r) @ [n])\<rparr>"
    using assms by auto
  have key: "alias_key n = (t, s, a)" by (simp add: n alias_key_def)
  have "find_alias r' t' s' a' =
      find (\<lambda>c. alias_key c = (t', s', a')) (filter (\<lambda>e. alias_key e \<noteq> (t, s, a)) (aliases r) @ [n])"
    by (simp add: find_alias_key r' find_sort_key)
  also have "\<dots> = (if (t', s', a') = (t, s, a) then Some n else find_alias r t' s' a')"
  proof (cases "(t', s', a') = (t, s, a)")
    case True
    then have "find (\<lambda>c. alias_key c = (t', s', a')) (filter (\<lambda>e. alias_key e \<noteq> (t, s, a)) (aliases r)) = None"
      by (auto simp: find_None_all)
    with True key show ?thesis by (simp add: find_append)
  next
    case False
    then have "find (\<lambda>c. alias_key c = (t', s', a')) (filter (\<lambda>e. alias_key e \<noteq> (t, s, a)) (aliases r))
        = find_alias r t' s' a'"
      by (simp only: find_alias_key) (rule find_filter_disjoint, auto)
    moreover have "alias_key n \<noteq> (t', s', a')" using key False by metis
    ultimately show ?thesis
      unfolding if_not_P [OF False] find_append by (simp split: option.splits)
  qed
  finally show ?thesis .
qed (use assms in auto)

end
