(* ===== verification/Registry_Machine.thy ===== *)
theory Registry_Machine
  imports Registry_Lemmas
begin

text \<open>
  The registry as a state machine: one rule per public operation, run in any order and with
  any arguments. A predicate that the seven elementary writes keep is kept by every operation
  (locale \<open>write_closed\<close>) and, when it holds of the empty registry, holds of every reachable
  registry (locale \<open>registry_invariant\<close>). Two instances: the well-formedness of the registry,
  and the relation to an earlier registry.
\<close>

section \<open>Steps\<close>

inductive registry_step :: "deployment_registry \<Rightarrow> deployment_registry \<Rightarrow> bool" where
  step_create: "registry_step r (snd (create_deployment r req))"
| step_validate: "registry_step r (snd (validate_deployment r i))"
| step_activate: "registry_step r (snd (activate_private r i))"
| step_report: "registry_step r (snd (record_validation_report r v))"
| step_promote_private: "registry_step r (snd (promote_private r i actor src))"
| step_promote_public: "registry_step r (snd (promote_public r i actor src))"
| step_promote_alias: "registry_step r (snd (promote_alias r i a public actor src))"
| step_rollback: "registry_step r (snd (rollback_alias r q))"
| step_set_alias: "registry_step r (snd (set_alias r t s a i))"
| step_retire: "registry_step r (snd (retire r i))"
| step_retire_old: "registry_step r (snd (retire_old r t s keep))"
| step_webhook: "registry_step r (snd (record_webhook_delivery r w))"

inductive registry_reachable :: "deployment_registry \<Rightarrow> bool" where
  start: "registry_reachable registry_default"
| step: "registry_reachable r \<Longrightarrow> registry_step r r' \<Longrightarrow> registry_reachable r'"

section \<open>Predicates kept by the elementary writes\<close>

definition lifecycle_only :: "(sorx_deployment \<Rightarrow> sorx_deployment) \<Rightarrow> bool" where
  "lifecycle_only f \<longleftrightarrow> (\<forall>d. \<exists>s v. f d = d\<lparr>status := s, visibility := v\<rparr>)"

lemma lifecycle_only_status [simp]: "lifecycle_only (\<lambda>d. d\<lparr>status := s\<rparr>)"
proof -
  have "d\<lparr>status := s\<rparr> = d\<lparr>status := s, visibility := visibility d\<rparr>" for d :: sorx_deployment
    by simp
  then show ?thesis unfolding lifecycle_only_def by metis
qed

lemma lifecycle_only_public [simp]:
  "lifecycle_only (\<lambda>d. d\<lparr>status := s, visibility := v\<rparr>)"
  unfolding lifecycle_only_def by blast

lemma lifecycle_only_sel:
  assumes "lifecycle_only f"
  shows "deployment_id (f d) = deployment_id d" "tenant_id (f d) = tenant_id d"
    "sor_name (f d) = sor_name d" "base_path (f d) = base_path d" "artifact (f d) = artifact d"
    "pack_digest (f d) = pack_digest d" "pack_version (f d) = pack_version d"
    "pack_name (f d) = pack_name d" "view_version (f d) = view_version d"
    "api_version_label (f d) = api_version_label d" "canonical_version (f d) = canonical_version d"
proof -
  obtain s v where "f d = d\<lparr>status := s, visibility := v\<rparr>"
    using assms unfolding lifecycle_only_def by blast
  then show "deployment_id (f d) = deployment_id d" "tenant_id (f d) = tenant_id d"
    "sor_name (f d) = sor_name d" "base_path (f d) = base_path d" "artifact (f d) = artifact d"
    "pack_digest (f d) = pack_digest d" "pack_version (f d) = pack_version d"
    "pack_name (f d) = pack_name d" "view_version (f d) = view_version d"
    "api_version_label (f d) = api_version_label d" "canonical_version (f d) = canonical_version d"
    by simp_all
qed

locale write_closed =
  fixes P :: "deployment_registry \<Rightarrow> bool"
  assumes closed_create: "P r \<Longrightarrow> P (snd (create_deployment r req))"
    and closed_update: "P r \<Longrightarrow> lifecycle_only f \<Longrightarrow> P (snd (update_deployment r i f))"
    and closed_set_alias: "P r \<Longrightarrow> P (snd (set_alias r t s a i))"
    and closed_drop_aliases: "P r \<Longrightarrow> P (r\<lparr>aliases := filter q (aliases r)\<rparr>)"
    and closed_audit: "P r \<Longrightarrow> P (record_promotion_audit r e)"
    and closed_report: "P r \<Longrightarrow> P (snd (record_validation_report r v))"
    and closed_webhook: "P r \<Longrightarrow> P (snd (record_webhook_delivery r w))"
begin

lemma closed_status: "P r \<Longrightarrow> P (snd (update_status r i s))"
  by (simp add: update_status_def closed_update)

lemma closed_promote_private: "P r \<Longrightarrow> P (snd (promote_private r i actor src))"
  using closed_status [of r i ActivePrivate]
  by (auto simp: promote_private_def closed_audit split: sum.splits prod.splits)

lemma closed_promote_public: "P r \<Longrightarrow> P (snd (promote_public r i actor src))"
  using closed_update [of r "\<lambda>d. d\<lparr>status := ActivePublic, visibility := Public\<rparr>" i]
  by (auto simp: promote_public_def closed_audit split: sum.splits prod.splits)

lemma closed_promote_alias: "P r \<Longrightarrow> P (snd (promote_alias r i a public actor src))"
proof -
  assume P: "P r"
  let ?p = "if public then promote_public r i actor src else promote_private r i actor src"
  have 1: "P (snd ?p)"
    using closed_promote_private [OF P] closed_promote_public [OF P] by simp
  obtain res r1 where p: "?p = (res, r1)" by (cases ?p)
  have 2: "P (snd (set_alias r1 t s a i))" for t s
    using 1 p by (auto intro: closed_set_alias)
  have 3: "P r2" if "set_alias r1 t s a i = (x, r2)" for t s x r2
    using 2 [of t s] that by simp
  show ?thesis
    using 1 3 unfolding promote_alias_def p
    by (auto simp: Let_def closed_audit split: sum.splits prod.splits)
qed

lemma closed_rollback: "P r \<Longrightarrow> P (snd (rollback_alias r q))"
proof -
  assume P: "P r"
  have up: "P r1" if "update_status r o_id RolledBack = (x, r1)" for o_id x r1
    using closed_status [OF P, of o_id RolledBack] that by simp
  have set1: "P r2" if "set_alias r1 t s a i = (x, r2)" "P r1" for r1 t s a i x r2
    using closed_set_alias [of r1 t s a i] that by simp
  show ?thesis
    unfolding rollback_alias_def Let_def
    by (auto simp: P closed_audit intro: up dest!: set1
        split: sum.splits prod.splits option.splits if_splits)
qed

lemma closed_retire: "P r \<Longrightarrow> P (snd (retire r i))"
  using closed_status [of r i Retired]
  by (auto simp: retire_def closed_drop_aliases split: sum.splits prod.splits)

lemma closed_retire_each: "P r \<Longrightarrow> P (snd (retire_each r is))"
proof (induction "is" arbitrary: r)
  case (Cons i "is")
  then have 1: "P (snd (retire r i))" by (simp add: closed_retire)
  have 2: "P r2" if "P r1" "retire_each r1 is = (x, r2)" for r1 x r2
    using Cons.IH [OF that(1)] that(2) by simp
  show ?case using 1 by (auto intro: 2 split: sum.splits prod.splits)
qed simp

lemma step_closed: "registry_step r r' \<Longrightarrow> P r \<Longrightarrow> P r'"
  by (induction rule: registry_step.induct)
    (simp_all add: closed_create validate_deployment_def activate_private_def closed_status
      closed_report closed_promote_private closed_promote_public closed_promote_alias
      closed_rollback closed_set_alias closed_retire retire_old_def closed_retire_each closed_webhook)

lemma steps_closed: "registry_step\<^sup>*\<^sup>* r r' \<Longrightarrow> P r \<Longrightarrow> P r'"
  by (induction rule: rtranclp_induct) (auto intro: step_closed)

end

locale registry_invariant = write_closed +
  assumes initially: "P registry_default"
begin

lemma reachable: "registry_reachable r \<Longrightarrow> P r"
  by (induction rule: registry_reachable.induct) (auto intro: initially step_closed)

end

section \<open>Well-formed registries\<close>

definition deployment_wf :: "sorx_deployment \<Rightarrow> bool" where
  "deployment_wf d \<longleftrightarrow>
     (\<exists>p. base_path d = CHR ''/'' # p) \<and>
     pack_name d = art_name (artifact d) \<and>
     pack_version d = art_version (artifact d) \<and>
     pack_digest d = art_digest (artifact d) \<and>
     view_version d = api_version_label d \<and>
     canonical_version d = pack_version d"

definition alias_target_ok :: "deployment_registry \<Rightarrow> deployment_alias \<Rightarrow> bool" where
  "alias_target_ok r a \<longleftrightarrow>
     (case deployment r (al_target a) of
        None \<Rightarrow> False
      | Some d \<Rightarrow> tenant_id d = al_tenant a \<and> sor_name d = al_sor a)"

definition report_target_ok :: "deployment_registry \<Rightarrow> json \<Rightarrow> bool" where
  "report_target_ok r v \<longleftrightarrow>
     (case jget_str v ''deployment_id'' of None \<Rightarrow> False | Some i \<Rightarrow> deployment r i \<noteq> None)"

definition registry_wf :: "deployment_registry \<Rightarrow> bool" where
  "registry_wf r \<longleftrightarrow>
     schema r = DEPLOYMENT_REGISTRY_SCHEMA \<and>
     sorted (map deployment_id (deployments r)) \<and>
     list_all deployment_wf (deployments r) \<and>
     sorted_wrt (<) (map alias_key (aliases r)) \<and>
     list_all (alias_target_ok r) (aliases r) \<and>
     list_all (report_target_ok r) (validation_reports r) \<and>
     sorted_wrt (<) (webhook_deliveries r)"

lemma target_ok_cong [simp]:
  "alias_target_ok (r\<lparr>aliases := x\<rparr>) = alias_target_ok r"
  "alias_target_ok (r\<lparr>webhook_deliveries := y\<rparr>) = alias_target_ok r"
  "alias_target_ok (r\<lparr>validation_reports := z\<rparr>) = alias_target_ok r"
  "alias_target_ok (r\<lparr>promotion_audit_events := w\<rparr>) = alias_target_ok r"
  "report_target_ok (r\<lparr>aliases := x\<rparr>) = report_target_ok r"
  "report_target_ok (r\<lparr>webhook_deliveries := y\<rparr>) = report_target_ok r"
  "report_target_ok (r\<lparr>validation_reports := z\<rparr>) = report_target_ok r"
  "report_target_ok (r\<lparr>promotion_audit_events := w\<rparr>) = report_target_ok r"
  unfolding alias_target_ok_def report_target_ok_def fun_eq_iff deployment_cong by simp_all

text \<open>Lookups only grow and keep their tenant and SOR: what aliases and reports rely on.\<close>

definition scope_kept :: "deployment_registry \<Rightarrow> deployment_registry \<Rightarrow> bool" where
  "scope_kept r r' \<longleftrightarrow>
     (\<forall>i d. deployment r i = Some d \<longrightarrow>
        (\<exists>d'. deployment r' i = Some d' \<and> tenant_id d' = tenant_id d \<and> sor_name d' = sor_name d))"

lemma alias_target_scope: "scope_kept r r' \<Longrightarrow> alias_target_ok r a \<Longrightarrow> alias_target_ok r' a"
  unfolding scope_kept_def alias_target_ok_def by (auto split: option.splits) force+

lemma report_target_scope: "scope_kept r r' \<Longrightarrow> report_target_ok r v \<Longrightarrow> report_target_ok r' v"
  unfolding scope_kept_def report_target_ok_def by (auto split: option.splits)

lemma scope_kept_deployments:
  assumes "scope_kept r r'" and "aliases r' = aliases r"
    and "validation_reports r' = validation_reports r"
    and "list_all (alias_target_ok r) (aliases r)" and "list_all (report_target_ok r) (validation_reports r)"
  shows "list_all (alias_target_ok r') (aliases r')" "list_all (report_target_ok r') (validation_reports r')"
  using assms by (auto simp: list_all_iff intro: alias_target_scope report_target_scope)

lemma scope_kept_update:
  assumes "lifecycle_only f"
  shows "scope_kept r (snd (update_deployment r i f))"
  unfolding scope_kept_def
  by (auto simp: deployment_update_deployment lifecycle_only_sel [OF assms])

lemma scope_kept_create: "scope_kept r (snd (create_deployment r req))"
proof (cases "create_deployment r req")
  case (Pair res r')
  show ?thesis
  proof (cases res)
    case (Inl e)
    then show ?thesis
      using Pair by (cases rule: create_deployment_cases [of r req]) (auto simp: scope_kept_def)
  next
    case (Inr d)
    with Pair show ?thesis by (auto simp: scope_kept_def deployment_create)
  qed
qed

lemma sorted_wrt_filter_keys: "sorted_wrt (<) (map f xs) \<Longrightarrow> sorted_wrt (<) (map f (filter q xs))"
  by (induction xs) auto

lemma insort_key_strict:
  assumes "sorted_wrt (<) (map f xs)" and "f x \<notin> f ` set xs"
  shows "sorted_wrt (<) (map f (sort_key f (xs @ [x])))"
proof -
  have d: "distinct (map f (xs @ [x]))"
    using assms strict_sorted_iff [of "map f xs"] by simp
  have "sorted (map f (sort_key f (xs @ [x])))" by simp
  moreover have "distinct (map f (sort_key f (xs @ [x])))"
    using d by (auto simp: distinct_map)
  ultimately show ?thesis by (simp add: strict_sorted_iff)
qed

lemma registry_wf_default: "registry_wf registry_default"
  by (simp add: registry_wf_def registry_default_def)

lemma registry_wf_create:
  assumes "registry_wf r"
  shows "registry_wf (snd (create_deployment r req))"
proof (cases rule: create_deployment_cases [of r req])
  case (created d)
  let ?r' = "snd (create_deployment r req)"
  have "aliases ?r' = aliases r" "validation_reports ?r' = validation_reports r"
    using created by simp_all
  then have "list_all (alias_target_ok ?r') (aliases ?r')"
    "list_all (report_target_ok ?r') (validation_reports ?r')"
    using scope_kept_deployments [OF scope_kept_create] assms by (auto simp: registry_wf_def)
  moreover have "deployment_wf d"
    unfolding created(1) by (simp add: deployment_wf_def requested_deployment_def normalize_base_path_def Let_def)
  ultimately show ?thesis
    using assms created by (auto simp: registry_wf_def sort_by_key list_all_iff)
qed (use assms in simp)

lemma registry_wf_update:
  assumes "registry_wf r" and f: "lifecycle_only f"
  shows "registry_wf (snd (update_deployment r i f))"
proof -
  let ?r' = "snd (update_deployment r i f)"
  have "list_all (alias_target_ok ?r') (aliases ?r')"
    "list_all (report_target_ok ?r') (validation_reports ?r')"
    using scope_kept_deployments [OF scope_kept_update [OF f]] assms(1) by (auto simp: registry_wf_def)
  moreover have "map deployment_id (deployments ?r') = map deployment_id (deployments r)"
    by (rule ids_update_deployment) (simp add: lifecycle_only_sel [OF f])
  moreover have "list_all deployment_wf (deployments ?r')"
    using assms(1) by (auto simp: registry_wf_def list_all_iff update_deployment_def deployment_wf_def
        lifecycle_only_sel [OF f] split: option.splits dest!: set_update_first(2))
  ultimately show ?thesis using assms(1) by (simp add: registry_wf_def)
qed

lemma registry_wf_set_alias:
  assumes "registry_wf r"
  shows "registry_wf (snd (set_alias r t s a i))"
proof (cases rule: set_alias_cases [of r t s a i])
  case (set d n)
  let ?kept = "filter (\<lambda>e. alias_key e \<noteq> (t, s, a)) (aliases r)"
  have "alias_key n = (t, s, a)" using set by (simp add: alias_key_def)
  then have "sorted_wrt (<) (map alias_key (sort_key alias_key (?kept @ [n])))"
    using assms by (intro insort_key_strict) (auto simp: registry_wf_def intro: sorted_wrt_filter_keys)
  moreover have "alias_target_ok r n" using set by (simp add: alias_target_ok_def)
  ultimately show ?thesis
    using assms set by (auto simp: registry_wf_def list_all_iff)
qed (use assms in simp)

interpretation wf: registry_invariant registry_wf
proof unfold_locales
  fix r :: deployment_registry and q e v w
  assume wf: "registry_wf r"
  show "registry_wf (r\<lparr>aliases := filter q (aliases r)\<rparr>)"
    using wf by (auto simp: registry_wf_def list_all_iff intro: sorted_wrt_filter_keys)
  show "registry_wf (record_promotion_audit r e)"
    using wf by (simp add: registry_wf_def record_promotion_audit_def)
  show "registry_wf (snd (record_validation_report r v))"
    using wf by (auto simp: registry_wf_def record_validation_report_def report_target_ok_def
        split: option.splits)
  show "registry_wf (snd (record_webhook_delivery r w))"
    using wf by (auto simp: registry_wf_def record_webhook_delivery_def has_webhook_delivery_def
        strict_sorted_iff)
qed (auto intro: registry_wf_create registry_wf_update registry_wf_set_alias registry_wf_default)

section \<open>What later registries keep of earlier ones\<close>

definition evolves :: "deployment_registry \<Rightarrow> deployment_registry \<Rightarrow> bool" where
  "evolves r0 r \<longleftrightarrow>
     (\<forall>i d. deployment r0 i = Some d \<longrightarrow>
        (\<exists>s v. deployment r i = Some (d\<lparr>status := s, visibility := v\<rparr>))) \<and>
     prefix (promotion_audit_events r0) (promotion_audit_events r) \<and>
     prefix (validation_reports r0) (validation_reports r) \<and>
     set (webhook_deliveries r0) \<subseteq> set (webhook_deliveries r)"

lemma evolves_refl: "evolves r r"
proof -
  have "d\<lparr>status := status d, visibility := visibility d\<rparr> = d" for d :: sorx_deployment by simp
  then show ?thesis unfolding evolves_def by (metis prefix_order.order_refl subset_refl)
qed

lemma evolves_create: "evolves r0 r \<Longrightarrow> evolves r0 (snd (create_deployment r req))"
proof (cases rule: create_deployment_cases [of r req])
  case (created d)
  then have dep: "deployment (snd (create_deployment r req)) i = Some x" if "deployment r i = Some x" for i x
    using that deployment_create [OF created(2), of i] by simp
  assume "evolves r0 r"
  then show ?thesis using created dep unfolding evolves_def by fastforce
qed simp

lemma evolves_update:
  assumes "evolves r0 r" and f: "lifecycle_only f"
  shows "evolves r0 (snd (update_deployment r i f))"
proof -
  have "\<exists>s v. deployment (snd (update_deployment r i f)) j = Some (d\<lparr>status := s, visibility := v\<rparr>)"
    if d: "deployment r0 j = Some d" for j d
  proof -
    obtain s v where sv: "deployment r j = Some (d\<lparr>status := s, visibility := v\<rparr>)"
      using assms(1) d unfolding evolves_def by blast
    obtain s' v' where "f (d\<lparr>status := s, visibility := v\<rparr>)
        = (d\<lparr>status := s, visibility := v\<rparr>)\<lparr>status := s', visibility := v'\<rparr>"
      using f unfolding lifecycle_only_def by blast
    then have "f (d\<lparr>status := s, visibility := v\<rparr>) = d\<lparr>status := s', visibility := v'\<rparr>"
      by simp
    with sv show ?thesis
      using deployment_update_deployment [of f r i j] lifecycle_only_sel(1) [OF f] by auto
  qed
  then show ?thesis using assms(1) by (simp add: evolves_def)
qed

interpretation ev: write_closed "evolves r0" for r0
proof unfold_locales
  fix r q e v w t s a i
  assume ev: "evolves r0 r"
  show "evolves r0 (r\<lparr>aliases := filter q (aliases r)\<rparr>)"
    using ev by (simp add: evolves_def)
  show "evolves r0 (record_promotion_audit r e)"
    using ev by (auto simp: evolves_def record_promotion_audit_def)
  show "evolves r0 (snd (record_validation_report r v))"
    using ev by (auto simp: evolves_def record_validation_report_def split: option.splits)
  show "evolves r0 (snd (record_webhook_delivery r w))"
    using ev by (auto simp: evolves_def record_webhook_delivery_def deployment_def)
  show "evolves r0 (snd (set_alias r t s a i))"
    using ev by (cases rule: set_alias_cases [of r t s a i]) (simp_all add: evolves_def)
qed (auto intro: evolves_create evolves_update)

end
