(* ===== verification/Registry_Props.thy ===== *)
theory Registry_Props
  imports Registry_Machine
begin

text \<open>
  The properties of the deployment registry: what each operation does on every branch, what
  holds in every reachable registry, and where the code does not keep what its own status
  report or its error results suggest.
\<close>

section \<open>A concrete registry\<close>

definition demo_artifact :: pack_artifact where
  "demo_artifact = \<lparr>art_source = ''local'', art_name = ''crm'', art_version = ''1.0'',
     art_digest = ''sha256:ab12'', art_signature = None, art_signature_ref = None\<rparr>"

definition demo_request :: "string \<Rightarrow> string \<Rightarrow> create_deployment_request" where
  "demo_request i path = \<lparr>req_artifact = demo_artifact, req_tenant_id = ''acme'',
     req_sor_name = ''crm'', req_environment = ''dev'', req_api_version_label = ''v1'',
     req_base_path = path, req_visibility = Private, req_state_mode = SharedCompatible,
     req_state_namespace = None, req_deployment_id = Some i,
     allow_api_version_conflict = False, allow_shared_state_conflict = False\<rparr>"

definition demo_deployment :: "string \<Rightarrow> string \<Rightarrow> sorx_deployment" where
  "demo_deployment i path = requested_deployment (demo_request i path) i ''sorx/acme/crm''"

definition demo_report :: json where
  "demo_report = JObj [(''deployment_id'', JStr ''d1''), (''pack_digest'', JStr ''sha256:ab12''),
     (''public_exposure_allowed'', JBool True), (''result'', JStr ''pass'')]"

definition demo_registry :: "deployment_status \<Rightarrow> deployment_status \<Rightarrow> deployment_registry" where
  "demo_registry s1 s2 = registry_default\<lparr>
     deployments := [(demo_deployment ''d1'' ''/a'')\<lparr>status := s1\<rparr>,
                     (demo_deployment ''d2'' ''/b'')\<lparr>status := s2\<rparr>],
     aliases := [\<lparr>al_tenant = ''acme'', al_sor = ''crm'', al_name = ''latest'', al_target = ''d2''\<rparr>],
     validation_reports := [demo_report]\<rparr>"

lemmas demo_defs = demo_artifact_def demo_request_def demo_deployment_def demo_report_def
  demo_registry_def registry_default_def requested_deployment_def

section \<open>Every reachable registry\<close>

text \<open>Property C3. In every registry the operations can reach from the empty one, the
  deployments are ordered by id and carry the identity of their artifact, no alias key occurs
  twice, every alias points to an existing deployment of its own tenant and SOR, every
  validation report names an existing deployment, and no webhook delivery is recorded twice.\<close>

theorem reachable_registry_wf: "registry_reachable r \<Longrightarrow> registry_wf r"
  by (rule wf.reachable)

theorem reachable_registry_wf_witness:
  "registry_wf (snd (create_deployment registry_default (demo_request ''d1'' ''/a'')))"
  by (rule reachable_registry_wf)
    (rule registry_reachable.step [OF registry_reachable.start step_create])

text \<open>Property C21. Across any sequence of registry operations a deployment found under an id
  keeps everything but its status and visibility, and the promotion audit log, the validation
  reports and the processed webhook deliveries only grow.\<close>

theorem registry_history_kept: "registry_step\<^sup>*\<^sup>* r r' \<Longrightarrow> evolves r r'"
  by (rule ev.steps_closed [OF _ evolves_refl])

theorem registry_history_kept_witness:
  "evolves (demo_registry ActivePrivate ActivePublic)
     (snd (retire (demo_registry ActivePrivate ActivePublic) ''d1''))"
  by (rule registry_history_kept) (rule r_into_rtranclp, rule step_retire)

section \<open>Creation\<close>

lemma find_Some_ex: "(\<exists>x. find P xs = Some x) \<longleftrightarrow> list_ex P xs"
  by (induction xs) auto

lemma check_base_path_conflict_Ok:
  "check_base_path_conflict r i path = Ok u \<longleftrightarrow>
     \<not> list_ex (\<lambda>d. status d \<noteq> Retired \<and> deployment_id d \<noteq> i \<and> base_path d = normalize_base_path path)
         (deployments r)"
  by (auto simp: check_base_path_conflict_def Let_def find_Some_ex [symmetric] split: option.splits)

lemma check_api_version_conflict_Ok:
  "check_api_version_conflict r req = Ok u \<longleftrightarrow>
     \<not> (\<not> allow_api_version_conflict req \<and>
        list_ex (\<lambda>d. status d \<noteq> Retired \<and> tenant_id d = req_tenant_id req \<and>
                     sor_name d = req_sor_name req \<and>
                     api_version_label d = req_api_version_label req \<and>
                     pack_digest d \<noteq> art_digest (req_artifact req)) (deployments r))"
  by (auto simp: check_api_version_conflict_def find_Some_ex [symmetric] split: option.splits)

lemma check_state_namespace_conflict_Ok:
  "check_state_namespace_conflict r i ns sm allow = Ok u \<longleftrightarrow>
     \<not> (\<not> allow \<and> sm \<noteq> SharedCompatible \<and>
        list_ex (\<lambda>d. status d \<noteq> Retired \<and> deployment_id d \<noteq> i \<and> state_namespace d = ns \<and>
                     dep_state_mode d \<noteq> SharedCompatible) (deployments r))"
  by (auto simp: check_state_namespace_conflict_def find_Some_ex [symmetric] split: option.splits)

lemma create_deployment_checks:
  "fst (create_deployment r req) = Ok d \<longleftrightarrow>
     (let i = requested_id req;
          ns = unwrap_or (req_state_namespace req) (default_state_namespace req)
      in \<not> (\<exists>x\<in>set (deployments r). deployment_id x = i \<and> status x \<noteq> Retired) \<and>
         \<not> (req_state_mode req = Isolated \<and> is_production_environment (req_environment req)) \<and>
         check_api_version_conflict r req = Ok () \<and>
         check_base_path_conflict r i (req_base_path req) = Ok () \<and>
         check_state_namespace_conflict r i ns (req_state_mode req) (allow_shared_state_conflict req) = Ok () \<and>
         d = requested_deployment req i ns)"
  by (auto simp: create_deployment_def Let_def split: sum.split)

text \<open>Property C5. \<^verbatim>\<open>create_deployment\<close> succeeds exactly when no live deployment has the
  requested id, isolated state is not asked for in production, no live deployment serves
  another digest under the same tenant, SOR and API version (unless that is allowed), no other
  live deployment has the normalized base path, and no other live unshared deployment has the
  state namespace (unless that is allowed); it then returns the requested deployment.\<close>

theorem create_deployment_Ok_iff:
  "fst (create_deployment r req) = Ok d \<longleftrightarrow>
     (let i = requested_id req;
          ns = unwrap_or (req_state_namespace req) (default_state_namespace req);
          live = filter (\<lambda>x. status x \<noteq> Retired) (deployments r)
      in \<not> list_ex (\<lambda>x. deployment_id x = i) live \<and>
         \<not> (req_state_mode req = Isolated \<and> is_production_environment (req_environment req)) \<and>
         \<not> (\<not> allow_api_version_conflict req \<and>
            list_ex (\<lambda>x. tenant_id x = req_tenant_id req \<and> sor_name x = req_sor_name req \<and>
                         api_version_label x = req_api_version_label req \<and>
                         pack_digest x \<noteq> art_digest (req_artifact req)) live) \<and>
         \<not> list_ex (\<lambda>x. deployment_id x \<noteq> i \<and> base_path x = normalize_base_path (req_base_path req)) live \<and>
         \<not> (\<not> allow_shared_state_conflict req \<and> req_state_mode req \<noteq> SharedCompatible \<and>
            list_ex (\<lambda>x. deployment_id x \<noteq> i \<and> state_namespace x = ns \<and>
                         dep_state_mode x \<noteq> SharedCompatible) live) \<and>
         d = requested_deployment req i ns)"
proof -
  have lf: "list_ex P (filter Q xs) \<longleftrightarrow> list_ex (\<lambda>x. Q x \<and> P x) xs" for P Q :: "'x \<Rightarrow> bool" and xs
    by (induction xs) auto
  have ex: "(\<exists>d\<in>set (deployments r). deployment_id d = i \<and> status d \<noteq> Retired) \<longleftrightarrow>
      list_ex (\<lambda>x. status x \<noteq> Retired \<and> deployment_id x = i) (deployments r)" for i
    by (auto simp: list_ex_iff)
  show ?thesis
    unfolding create_deployment_checks Let_def lf ex check_base_path_conflict_Ok
      check_api_version_conflict_Ok check_state_namespace_conflict_Ok by blast
qed

section \<open>Base paths\<close>

definition live_paths_exclusive :: "deployment_registry \<Rightarrow> bool" where
  "live_paths_exclusive r \<longleftrightarrow>
     (\<forall>x\<in>set (deployments r). \<forall>y\<in>set (deployments r).
        status x \<noteq> Retired \<longrightarrow> status y \<noteq> Retired \<longrightarrow> base_path x = base_path y \<longrightarrow>
        deployment_id x = deployment_id y)"

text \<open>Property C23. Creating a deployment never gives two live deployments with different ids
  the same base path.\<close>

theorem create_keeps_paths_exclusive:
  assumes "live_paths_exclusive r"
  shows "live_paths_exclusive (snd (create_deployment r req))"
proof (cases rule: create_deployment_cases [of r req])
  case (created d)
  then have "fst (create_deployment r req) = Ok d" by simp
  then have ok: "check_base_path_conflict r (requested_id req) (req_base_path req) = Ok ()"
    by (simp add: create_deployment_checks Let_def)
  have free: "base_path x \<noteq> base_path d"
    if "x \<in> set (deployments r)" "status x \<noteq> Retired" "deployment_id x \<noteq> deployment_id d" for x
    using ok that by (auto simp: check_base_path_conflict_Ok list_ex_iff created(1))
  have "set (deployments (snd (create_deployment r req))) = insert d (set (deployments r))"
    using created by simp
  then show ?thesis
    using assms free unfolding live_paths_exclusive_def by (metis insert_iff)
qed (use assms in simp)

theorem create_keeps_paths_exclusive_witness:
  "live_paths_exclusive (snd (create_deployment (demo_registry ActivePrivate Pending) (demo_request ''d3'' ''/b'')))"
  by (rule create_keeps_paths_exclusive)
    (simp add: live_paths_exclusive_def demo_defs normalize_base_path_def trim_def trim_matches_def
      is_whitespace_def Let_def)

section \<open>Promotion\<close>

lemma gate_ok_iff:
  "vg_ok (registry_validation_gate r d) \<longleftrightarrow>
     (\<exists>v. latest_validation_report r (deployment_id d) = Some v \<and>
          report_pack_digest v = Some (pack_digest d) \<and>
          jget_str v ''result'' = Some ''pass'' \<and>
          jget_bool v ''public_exposure_allowed'' = Some True \<and>
          (list_all (\<lambda>g. gate_status g = ''passed'') (ontology_promotion_gates v) \<or>
           jget_bool v ''local_operator_policy_override'' = Some True))"
  by (auto simp: registry_validation_gate_def no_report_gate_def Let_def unwrap_or_def list_all_iff
      split: option.splits)

lemma gate_private_ok_iff:
  "private_ok (registry_validation_gate r d) \<longleftrightarrow>
     (\<exists>v. latest_validation_report r (deployment_id d) = Some v \<and>
          report_pack_digest v = Some (pack_digest d) \<and>
          jget_str v ''result'' = Some ''pass'')"
  by (auto simp: registry_validation_gate_def no_report_gate_def Let_def split: option.splits)

abbreviation make_public :: "sorx_deployment \<Rightarrow> sorx_deployment" where
  "make_public d \<equiv> d\<lparr>status := ActivePublic, visibility := Public\<rparr>"

lemma promote_public_eq:
  "promote_public r i actor src =
     (case deployment r i of
        None \<Rightarrow> (Err (deployment_missing i), r)
      | Some d \<Rightarrow>
          if vg_ok (registry_validation_gate r d)
          then (Ok (make_public d),
                record_promotion_audit (snd (update_deployment r i make_public))
                  (promoted_event ''sorx.deployment.promoted_public'' i (make_public d) actor src))
          else (Err (promotion_blocked d (registry_validation_gate r d)), r))"
  by (cases "deployment r i")
    (simp_all add: promote_public_def deployment_required_def require_validation_gate_def Let_def
      update_deployment_Some)

lemma promote_private_eq:
  "promote_private r i actor src =
     (case deployment r i of
        None \<Rightarrow> (Err (deployment_missing i), r)
      | Some d \<Rightarrow>
          if private_ok (registry_validation_gate r d)
          then (Ok (d\<lparr>status := ActivePrivate\<rparr>),
                record_promotion_audit (snd (update_deployment r i (\<lambda>d. d\<lparr>status := ActivePrivate\<rparr>)))
                  (promoted_event ''sorx.deployment.promoted_private'' i (d\<lparr>status := ActivePrivate\<rparr>) actor src))
          else (Err (promotion_blocked d (registry_validation_gate r d)), r))"
  by (cases "deployment r i")
    (simp_all add: promote_private_def deployment_required_def require_private_validation_gate_def
      Let_def update_status_def update_deployment_Some)


text \<open>Property C22. \<^verbatim>\<open>promote_alias\<close> is all or nothing: on an error the registry is unchanged;
  on success the alias resolves to the promoted deployment, now active, and exactly two audit
  events were appended, the second naming the alias with its previous and its new target.\<close>

theorem promote_alias_all_or_nothing:
  "case promote_alias r i a public actor src of
     (Err e, r') \<Rightarrow> r' = r
   | (Ok n, r') \<Rightarrow>
       (\<exists>d. deployment r i = Some d \<and>
          resolve_alias r' (tenant_id d) (sor_name d) a =
            Some (if public then d\<lparr>status := ActivePublic, visibility := Public\<rparr>
                  else d\<lparr>status := ActivePrivate\<rparr>) \<and>
          (\<exists>e1 e2. promotion_audit_events r' = promotion_audit_events r @ [e1, e2] \<and>
             pae_alias e2 = Some a \<and> pae_new_target e2 = Some i \<and>
             pae_old_target e2 = map_option al_target (find_alias r (tenant_id d) (sor_name d) a)))"
proof (cases "deployment r i")
  case None
  then show ?thesis by (simp add: promote_alias_def promote_public_eq promote_private_eq)
next
  case (Some d)
  define f :: "sorx_deployment \<Rightarrow> sorx_deployment" where
    "f = (if public then make_public else (\<lambda>d. d\<lparr>status := ActivePrivate\<rparr>))"
  define e1 where "e1 = promoted_event (if public then ''sorx.deployment.promoted_public''
      else ''sorx.deployment.promoted_private'') i (f d) actor src"
  define r1 where "r1 = record_promotion_audit (snd (update_deployment r i f)) e1"
  define gate where "gate = (if public then vg_ok (registry_validation_gate r d)
      else private_ok (registry_validation_gate r d))"
  have f_sel: "deployment_id (f x) = deployment_id x" "tenant_id (f x) = tenant_id x"
    "sor_name (f x) = sor_name x" "is_routable (status (f x))" for x
    by (simp_all add: f_def is_routable_def)
  have promo: "(if public then promote_public r i actor src else promote_private r i actor src) =
      (if gate then (Ok (f d), r1) else (Err (promotion_blocked d (registry_validation_gate r d)), r))"
    using Some by (simp add: promote_public_eq promote_private_eq gate_def f_def e1_def r1_def)
  have dep1: "deployment r1 i = Some (f d)"
    using Some f_sel(1) by (simp add: r1_def record_promotion_audit_def deployment_update_deployment)
  have alias1: "find_alias r1 t s b = find_alias r t s b" for t s b
    by (simp add: r1_def record_promotion_audit_def find_alias_def)
  show ?thesis
  proof (cases gate)
    case False
    then show ?thesis by (simp add: promote_alias_def promo)
  next
    case True
    obtain n r2 where set2: "set_alias r1 (tenant_id d) (sor_name d) a i = (Ok n, r2)"
      and n: "al_target n = i"
      and r2: "deployment r2 i = Some (f d)" "promotion_audit_events r2 = promotion_audit_events r1"
      using dep1 f_sel by (cases rule: set_alias_cases [of r1 "tenant_id d" "sor_name d" a i])
        (auto simp: set_alias_def Let_def deployment_def)
    obtain e2 where whole: "promote_alias r i a public actor src = (Ok n, record_promotion_audit r2 e2)"
      and e2: "pae_alias e2 = Some a" "pae_new_target e2 = Some i"
        "pae_old_target e2 = map_option al_target (find_alias r (tenant_id d) (sor_name d) a)"
      using True by (simp add: promote_alias_def promo set2 Let_def f_sel alias1 deployment_required_def dep1)
    have "resolve_alias (record_promotion_audit r2 e2) (tenant_id d) (sor_name d) a = Some (f d)"
      using find_alias_set_alias [OF set2] r2(1) n
      by (simp add: resolve_alias_def record_promotion_audit_def find_alias_def deployment_def)
    moreover have "promotion_audit_events (record_promotion_audit r2 e2) =
        promotion_audit_events r @ [e1, e2]"
      using r2(2) by (simp add: record_promotion_audit_def r1_def)
    ultimately show ?thesis
      using Some e2 unfolding whole by (simp add: f_def)
  qed
qed

section \<open>Retirement\<close>

abbreviation retired :: "sorx_deployment \<Rightarrow> sorx_deployment" where
  "retired d \<equiv> d\<lparr>status := Retired\<rparr>"

lemma update_first_distinct:
  assumes "distinct (map g xs)" and "x \<in> set xs"
  shows "update_first (\<lambda>y. g y = g x) f xs = map (\<lambda>y. if y = x then f y else y) xs"
  using assms
proof (induction xs)
  case (Cons a xs)
  then show ?case
  proof (cases "a = x")
    case True
    then have "map (\<lambda>y. if y = x then f y else y) xs = xs"
      using Cons.prems by (intro map_idI) auto
    with True show ?thesis by simp
  next
    case False
    with Cons show ?thesis by (auto simp: image_iff)
  qed
qed simp

lemma find_distinct:
  "distinct (map g xs) \<Longrightarrow> x \<in> set xs \<Longrightarrow> find (\<lambda>y. g y = g x) xs = Some x"
  by (induction xs) (auto simp: image_iff)

lemma retire_distinct:
  assumes "distinct (map deployment_id (deployments r))" and "d \<in> set (deployments r)"
  shows "retire r (deployment_id d) =
    (Ok (retired d), r\<lparr>deployments := map (\<lambda>x. if x = d then retired x else x) (deployments r),
                       aliases := filter (\<lambda>a. al_target a \<noteq> deployment_id d) (aliases r)\<rparr>)"
proof -
  have "deployment r (deployment_id d) = Some d"
    using find_distinct [OF assms] by (simp add: deployment_def)
  then show ?thesis
    using update_first_distinct [OF assms]
    by (simp add: retire_def update_status_def update_deployment_Some)
qed

lemma retire_each_distinct:
  assumes "distinct (map deployment_id (deployments r))"
    and "set ds \<subseteq> set (deployments r)" and "distinct ds"
  shows "retire_each r (map deployment_id ds) =
    (Ok (map retired ds),
     r\<lparr>deployments := map (\<lambda>x. if x \<in> set ds then retired x else x) (deployments r),
       aliases := filter (\<lambda>a. al_target a \<notin> deployment_id ` set ds) (aliases r)\<rparr>)"
  using assms
proof (induction ds arbitrary: r)
  case (Cons d ds)
  let ?m = "\<lambda>x. if x = d then retired x else x"
  let ?r1 = "r\<lparr>deployments := map ?m (deployments r),
               aliases := filter (\<lambda>a. al_target a \<noteq> deployment_id d) (aliases r)\<rparr>"
  have ids: "map deployment_id (deployments ?r1) = map deployment_id (deployments r)" by simp
  have sub: "set ds \<subseteq> set (deployments ?r1)" using Cons.prems by force
  have inj: "inj_on deployment_id (set (deployments r))"
    using Cons.prems(1) by (simp add: distinct_map)
  have notin: "?m d \<notin> set ds"
  proof
    assume "?m d \<in> set ds"
    then have "retired d = d"
      using Cons.prems inj by (auto dest!: inj_onD [of _ _ "retired d" d])
    with \<open>?m d \<in> set ds\<close> Cons.prems(3) show False by auto
  qed
  have "retire_each ?r1 (map deployment_id ds) =
    (Ok (map retired ds),
     ?r1\<lparr>deployments := map (\<lambda>x. if x \<in> set ds then retired x else x) (deployments ?r1),
         aliases := filter (\<lambda>a. al_target a \<notin> deployment_id ` set ds) (aliases ?r1)\<rparr>)"
    using Cons.prems(3) by (intro Cons.IH [OF _ sub]) (simp_all only: ids Cons.prems(1) distinct.simps)
  moreover have "map (\<lambda>x. if x \<in> set ds then retired x else x) (map ?m (deployments r))
      = map (\<lambda>x. if x \<in> set (d # ds) then retired x else x) (deployments r)"
    using notin Cons.prems(3) by auto
  moreover have "filter (\<lambda>a. al_target a \<notin> deployment_id ` set ds)
        (filter (\<lambda>a. al_target a \<noteq> deployment_id d) (aliases r))
      = filter (\<lambda>a. al_target a \<notin> deployment_id ` set (d # ds)) (aliases r)"
    by (simp add: conj_commute)
  ultimately show ?case
    using Cons.prems by (simp add: retire_distinct)
qed simp

text \<open>Property C24. When no id occurs twice, \<^verbatim>\<open>retire_old\<close> always succeeds: it retires exactly the
  active deployments of the tenant and SOR behind the first \<open>keep\<close> in descending id order,
  returns them, drops exactly the aliases that point to them, and touches nothing else.\<close>

theorem retire_old_spec:
  assumes "distinct (map deployment_id (deployments r))"
  shows "retire_old r t s keep =
    (let old = drop keep (rev (sort_key deployment_id
                 (filter (\<lambda>d. tenant_id d = t \<and> sor_name d = s \<and> is_active (status d)) (deployments r))))
     in (Ok (map (\<lambda>d. d\<lparr>status := Retired\<rparr>) old),
         r\<lparr>deployments := map (\<lambda>d. if d \<in> set old then d\<lparr>status := Retired\<rparr> else d) (deployments r),
           aliases := filter (\<lambda>a. al_target a \<notin> deployment_id ` set old) (aliases r)\<rparr>))"
proof -
  let ?act = "filter (\<lambda>d. tenant_id d = t \<and> sor_name d = s \<and> is_active (status d)) (deployments r)"
  have d: "distinct (map deployment_id ?act)"
    using assms by (rule distinct_map_filter)
  have newest: "active_newest_first r t s = rev (sort_key deployment_id ?act)"
    unfolding active_newest_first_def by (rule sort_by_flip [OF d])
  let ?old = "drop keep (rev (sort_key deployment_id ?act))"
  have "set ?old \<subseteq> set (deployments r)" using set_drop_subset by fastforce
  moreover have "distinct ?old"
    using d by (intro distinct_drop) (simp add: distinct_map)
  ultimately show ?thesis
    using retire_each_distinct [OF assms] by (simp add: retire_old_def newest Let_def)
qed

theorem retire_old_spec_witness:
  "let r = demo_registry ActivePublic ActivePublic
   in fst (retire_old r ''acme'' ''crm'' 1) = Ok [(demo_deployment ''d1'' ''/a'')\<lparr>status := Retired\<rparr>] \<and>
      aliases (snd (retire_old r ''acme'' ''crm'' 1)) = aliases r"
proof -
  have "distinct (map deployment_id (deployments (demo_registry ActivePublic ActivePublic)))"
    by (simp add: demo_defs)
  from retire_old_spec [OF this, of "''acme''" "''crm''" 1] show ?thesis
    by (simp add: Let_def demo_defs is_active_def)
qed

section \<open>Webhook deliveries\<close>

text \<open>Property C26. A webhook delivery is accepted exactly when it was not processed before, in
  which case it is remembered together with everything processed earlier; a replay is reported
  and changes nothing, so no delivery id is accepted twice.\<close>

theorem webhook_exactly_once:
  "case record_webhook_delivery r w of
     (Ok _, r') \<Rightarrow> \<not> has_webhook_delivery r w \<and>
        (\<forall>x. has_webhook_delivery r' x \<longleftrightarrow> x = w \<or> has_webhook_delivery r x) \<and>
        fst (record_webhook_delivery r' w) =
          Err (dep_error ''webhook_replay'' (''webhook delivery `'' @ w @ ''` was already processed''))
   | (Err e, r') \<Rightarrow> has_webhook_delivery r w \<and> r' = r \<and> dre_code e = ''webhook_replay''"
  by (auto simp: record_webhook_delivery_def has_webhook_delivery_def)

section \<open>The migration gate\<close>

lemma check_pending_Ok:
  "check_pending ms ap confirm = Ok u \<longleftrightarrow>
     list_all (\<lambda>m. applied_contains ap (idempotence_id m) \<or> confirm \<or> \<not> is_breaking m) ms"
  by (induction ms ap confirm rule: check_pending.induct) auto

text \<open>Property C25. The migration gate of a deployment stops exactly when its state mode requires
  migrations, the operator did not confirm, and some breaking migration of the pack has not been
  applied yet.\<close>

theorem migration_gate_iff:
  "evaluate_pending_migrations sm pending ap confirm = Ok () \<longleftrightarrow>
     \<not> (sm = SharedRequiresMigration \<and> \<not> confirm \<and>
        list_ex (\<lambda>m. is_breaking m \<and> \<not> applied_contains ap (idempotence_id m)) pending)"
  by (auto simp: evaluate_pending_migrations_def check_pending_Ok list_all_iff list_ex_iff)

section \<open>Where lifecycle and registry disagree\<close>


text \<open>Property C34. Rolling an alias back to a deployment of its tenant and SOR that is not
  routable fails, yet the deployment the alias points to has already been marked as rolled
  back: the failed rollback is not undone.\<close>

theorem failed_rollback_not_undone:
  assumes "deployment r (rb_to q) = Some target" and "tenant_id target = rb_tenant_id q"
    and "sor_name target = rb_sor_name q" and "\<not> is_routable (status target)"
    and "find_alias r (rb_tenant_id q) (rb_sor_name q) (rb_alias q) = Some a"
    and "al_target a \<noteq> rb_to q" and "deployment r (al_target a) = Some cur"
  shows "\<exists>e. fst (rollback_alias r q) = Err e \<and>
     deployment (snd (rollback_alias r q)) (al_target a) = Some (cur\<lparr>status := RolledBack\<rparr>)"
proof -
  let ?f = "\<lambda>d. d\<lparr>status := RolledBack\<rparr>"
  obtain r1 where upd: "update_deployment r (al_target a) ?f = (Ok (?f cur), r1)"
    using assms(7) by (simp add: update_deployment_Some)
  have look: "deployment r1 (al_target a) = Some (?f cur)" "deployment r1 (rb_to q) = Some target"
    using assms deployment_update_deployment [of ?f r "al_target a" "al_target a"]
      deployment_update_deployment [of ?f r "al_target a" "rb_to q"] by (simp_all add: upd)
  then obtain e where "set_alias r1 (rb_tenant_id q) (rb_sor_name q) (rb_alias q) (rb_to q) = (Err e, r1)"
    using assms(2-4) by (auto simp: set_alias_def)
  then have "rollback_alias r q = (Err e, r1)"
    using assms(1-3,5,6) by (simp add: rollback_alias_def deployment_required_def update_status_def upd)
  then show ?thesis using look(1) by simp
qed

theorem failed_rollback_not_undone_witness:
  "\<exists>e. fst (rollback_alias (demo_registry Pending ActivePublic)
        \<lparr>rb_tenant_id = ''acme'', rb_sor_name = ''crm'', rb_alias = ''latest'', rb_to = ''d1'',
         rb_reason = ''bad'', rb_actor = ''op'', rb_automation_source = None\<rparr>) = Err e \<and>
     deployment (snd (rollback_alias (demo_registry Pending ActivePublic)
        \<lparr>rb_tenant_id = ''acme'', rb_sor_name = ''crm'', rb_alias = ''latest'', rb_to = ''d1'',
         rb_reason = ''bad'', rb_actor = ''op'', rb_automation_source = None\<rparr>)) ''d2''
       = Some ((demo_deployment ''d2'' ''/b'')\<lparr>status := RolledBack\<rparr>)"
  using failed_rollback_not_undone [where r = "demo_registry Pending ActivePublic"
      and q = "\<lparr>rb_tenant_id = ''acme'', rb_sor_name = ''crm'', rb_alias = ''latest'', rb_to = ''d1'',
         rb_reason = ''bad'', rb_actor = ''op'', rb_automation_source = None\<rparr>"
      and target = "demo_deployment ''d1'' ''/a''\<lparr>status := Pending\<rparr>"
      and cur = "demo_deployment ''d2'' ''/b''\<lparr>status := ActivePublic\<rparr>"
      and a = "\<lparr>al_tenant = ''acme'', al_sor = ''crm'', al_name = ''latest'', al_target = ''d2''\<rparr>"]
  by (simp add: deployment_def find_alias_def demo_defs is_routable_def)

end
