(* ===== verification/Sorx_Model.thy ===== *)
theory Sorx_Model
  imports Json_Value
begin

text \<open>
  The data model of \<^verbatim>\<open>greentic-sorx-core/src/model.rs\<close>: endpoints, commands, invocations and
  their results, with the parsers of the enumerations.
\<close>

section \<open>Enumerations\<close>

definition to_upper_char :: "char \<Rightarrow> char" where
  "to_upper_char c = (if is_ascii_lower c then char_of (code c - 32) else c)"

definition to_ascii_uppercase :: "string \<Rightarrow> string" where
  "to_ascii_uppercase s = map to_upper_char s"

datatype endpoint_method = MGet | MPost | MPut | MPatch | MDelete

definition parse_method :: "string \<Rightarrow> endpoint_method option" where
  "parse_method value =
     (let v = to_ascii_uppercase value
      in if v = ''GET'' then Some MGet
         else if v = ''POST'' then Some MPost
         else if v = ''PUT'' then Some MPut
         else if v = ''PATCH'' then Some MPatch
         else if v = ''DELETE'' then Some MDelete
         else None)"

datatype risk_level = Low | Medium | High | Critical

text \<open>The derived \<^verbatim>\<open>Ord\<close> of \<^verbatim>\<open>RiskLevel\<close>: declaration order.\<close>

fun risk_rank :: "risk_level \<Rightarrow> nat" where
  "risk_rank Low = 0"
| "risk_rank Medium = 1"
| "risk_rank High = 2"
| "risk_rank Critical = 3"

lemma risk_rank_inject [simp]: "risk_rank a = risk_rank b \<longleftrightarrow> a = b"
  by (cases a; cases b) simp_all

instantiation risk_level :: linorder
begin

definition less_eq_risk_level :: "risk_level \<Rightarrow> risk_level \<Rightarrow> bool" where
  "a \<le> b \<longleftrightarrow> risk_rank a \<le> risk_rank b"

definition less_risk_level :: "risk_level \<Rightarrow> risk_level \<Rightarrow> bool" where
  "a < b \<longleftrightarrow> risk_rank a < risk_rank b"

instance
  by standard (auto simp: less_eq_risk_level_def less_risk_level_def)

end

definition parse_risk :: "string \<Rightarrow> risk_level option" where
  "parse_risk value =
     (let v = to_ascii_lowercase value
      in if v = ''low'' then Some Low
         else if v = ''medium'' then Some Medium
         else if v = ''high'' then Some High
         else if v = ''critical'' then Some Critical
         else None)"

section \<open>Commands\<close>

record command_idempotency_constraint =
  cic_index :: "string option"
  cic_fields :: "string list"
  cic_mode :: "string option"

record command_unique_constraint =
  cuc_index :: "string option"
  cuc_record :: "string option"
  cuc_kind :: "string option"
  cuc_fields :: "string list"

record command_constraints =
  cc_idempotency :: "command_idempotency_constraint option"
  cc_unique :: "command_unique_constraint list"

datatype command_order_direction = CmdAsc | CmdDesc

record command_order_by =
  cob_field :: string
  cob_direction :: command_order_direction

text \<open>
  \<^verbatim>\<open>CommandStep\<close>: every variant begins with its \<open>as\<close> name and its \<open>when\<close> condition; the
  variants on records go on with entity and collection.
\<close>

datatype command_step =
    CreateStep "string option" "json option" "string option" "string option" "json option"
  | DeleteWhere "string option" "json option" "string option" "string option" json
  | UpdateWhere "string option" "json option" "string option" "string option" json json
  | IncrementWhere "string option" "json option" "string option" "string option" json json
  | QueryStep "string option" "json option" "string option" "string option" json "command_order_by list"
  | FindOne "string option" "json option" "string option" "string option" json bool
  | EmitEvent "string option" "json option" string json "string option"
  | Foreach "string option" "json option" json "command_step list"

record command_spec =
  cs_kind :: "string option"
  cs_action :: "string option"
  cs_target :: "string option"
  cs_idempotency :: "string option"
  cs_constraints :: command_constraints
  cs_steps :: "command_step list"
  cs_return :: "json option"

definition command_spec_default :: command_spec where
  "command_spec_default =
     \<lparr>cs_kind = None, cs_action = None, cs_target = None, cs_idempotency = None,
      cs_constraints = \<lparr>cc_idempotency = None, cc_unique = []\<rparr>, cs_steps = [], cs_return = None\<rparr>"

datatype operation_kind = OpCreate | OpGet | OpUpdate | OpQuery | OpDelete | OpCommand command_spec

definition parse_operation :: "string \<Rightarrow> operation_kind option" where
  "parse_operation value =
     (let v = to_ascii_lowercase value
      in if v = ''create'' then Some OpCreate
         else if v \<in> {''get'', ''read''} then Some OpGet
         else if v \<in> {''update'', ''patch''} then Some OpUpdate
         else if v \<in> {''query'', ''list'', ''search''} then Some OpQuery
         else if v \<in> {''delete'', ''remove''} then Some OpDelete
         else if v = ''command'' then Some (OpCommand command_spec_default)
         else None)"

fun is_mutating :: "operation_kind \<Rightarrow> bool" where
  "is_mutating OpCreate = True"
| "is_mutating OpUpdate = True"
| "is_mutating OpDelete = True"
| "is_mutating (OpCommand _) = True"
| "is_mutating OpGet = False"
| "is_mutating OpQuery = False"

section \<open>Endpoints\<close>

record authorization_roles =
  any_of :: "string list"
  all_of :: "string list"

record authorization_requirement =
  auth_roles :: authorization_roles
  auth_policies :: "string list"
  auth_conditions :: "json option"

record record_access_policy =
  ra_read :: "authorization_requirement option"
  ra_create :: "authorization_requirement option"
  ra_update :: "authorization_requirement option"
  ra_delete :: "authorization_requirement option"

record view_transform =
  read_only :: bool
  input_field_map :: "(string, string) btree"
  output_field_map :: "(string, string) btree"

record index_requirement =
  ir_name :: string
  ir_capability :: string

record traversal_requirement =
  tr_name :: string
  tr_capability :: string
  tr_max_depth :: u8
  tr_relationships :: "string list"

record query_plan =
  qp_index :: "index_requirement option"
  qp_traversal :: "traversal_requirement option"

record approval_requirement =
  apr_required :: bool
  apr_roles :: "string list"
  apr_reason_required :: bool

record endpoint_definition =
  ep_endpoint_id :: string
  ep_operation_id :: string
  ep_operation :: operation_kind
  ep_method :: endpoint_method
  ep_path :: string
  ep_entity :: "string option"
  ep_collection :: string
  ep_provider_binding :: string
  ep_risk :: risk_level
  ep_approval :: "approval_requirement option"
  ep_authorization :: "authorization_requirement option"
  ep_input_schema :: "json option"
  ep_output_schema :: "json option"
  ep_view :: view_transform
  ep_query_plan :: query_plan
  ep_record_selector :: bool

section \<open>Invocations\<close>

record caller_context =
  caller_subject :: string
  caller_roles :: "string list"

datatype invocation_source = Direct | Http | Mcp

record endpoint_invocation =
  inv_tenant_id :: string
  inv_endpoint_id :: string
  inv_operation_id :: string
  inv_input :: json
  inv_caller :: caller_context
  inv_idempotency_key :: "string option"
  inv_source :: invocation_source

datatype endpoint_status =
  StCreated | StOk | StNotFound | StDeleted | StApprovalRequired | StDenied

record sorx_event =
  se_schema :: string
  se_event_type :: string
  se_tenant_id :: string
  se_endpoint_id :: string
  se_operation_id :: string
  se_provider_binding :: string

record endpoint_result =
  er_status :: endpoint_status
  er_output :: json
  er_events :: "sorx_event list"

record runtime_operational_index =
  roi_id :: string
  roi_record :: string
  roi_collection :: "string option"
  roi_kind :: string
  roi_fields :: "string list"
  roi_unique :: bool

record runtime_pack =
  rp_name :: string
  rp_version :: string
  rp_digest :: "string option"
  rp_operational_indexes :: "runtime_operational_index list"
  rp_record_access :: "(string, record_access_policy) btree"

end
