(* ===== verification/Provider.thy ===== *)
theory Provider
  imports Sorx_Model
begin

text \<open>
  \<^verbatim>\<open>greentic-sorx-core/src/provider.rs\<close>: provider kinds, namespaces and their key prefixes,
  entity bindings, the operation and result records of a store, and the trait
  \<^verbatim>\<open>SorStoreProvider\<close> as a record of functions over the state of the store. The locale
  \<open>sor_store\<close> is the contract that callers of a store rely on.
\<close>

section \<open>Provider kinds and bindings\<close>

datatype store_provider_kind = MemoryKind | FoundationDbKind | PostgresKind | ExternalKind string

definition parse_provider_kind :: "string \<Rightarrow> store_provider_kind" where
  "parse_provider_kind value =
     (let v = to_ascii_lowercase value
      in if v = ''memory'' then MemoryKind
         else if v \<in> {''foundationdb'', ''foundation_db'', ''foundation-db''} then FoundationDbKind
         else if v \<in> {''postgres'', ''postgresql''} then PostgresKind
         else ExternalKind v)"

fun provider_kind_str :: "store_provider_kind \<Rightarrow> string" where
  "provider_kind_str MemoryKind = ''memory''"
| "provider_kind_str FoundationDbKind = ''foundationdb''"
| "provider_kind_str PostgresKind = ''postgres''"
| "provider_kind_str (ExternalKind v) = v"

record provider_binding =
  pb_entity :: string
  pb_provider_id :: string
  pb_collection :: string

record provider_namespace =
  ns_tenant_id :: string
  ns_sor_name :: string

definition provider_clean_segment :: "string \<Rightarrow> string" where
  "provider_clean_segment value =
     filter (\<lambda>c. \<not> is_control c)
       (replace_chars [CHR ''/'', char_of (92 :: nat)] (CHR ''_'') (trim_matches (\<lambda>c. c = CHR ''/'') value))"

definition key_prefix :: "provider_namespace \<Rightarrow> string" where
  "key_prefix ns =
     ''sorx/'' @ provider_clean_segment (ns_tenant_id ns) @ ''/'' @ provider_clean_segment (ns_sor_name ns)"

text \<open>\<^verbatim>\<open>default_collection_name\<close>: snake case with a plural s.\<close>

fun snake_chars :: "bool \<Rightarrow> string \<Rightarrow> string" where
  "snake_chars at_start [] = []"
| "snake_chars at_start (c # cs) =
     (if is_ascii_upper c
      then (if at_start then [to_lower_char c] else [CHR ''_'', to_lower_char c])
      else [c]) @ snake_chars False cs"

definition default_collection_name :: "string \<Rightarrow> string" where
  "default_collection_name entity = snake_chars True entity @ ''s''"

record binding_resolver =
  entity_bindings :: "(string, provider_binding) btree"
  br_default_provider_id :: string

definition binding_resolver_new :: "(string, provider_binding) btree \<Rightarrow> binding_resolver" where
  "binding_resolver_new bs = \<lparr>entity_bindings = bs, br_default_provider_id = ''store''\<rparr>"

definition with_default_provider_id :: "binding_resolver \<Rightarrow> string \<Rightarrow> binding_resolver" where
  "with_default_provider_id r p = r\<lparr>br_default_provider_id := p\<rparr>"

definition resolve_binding :: "binding_resolver \<Rightarrow> endpoint_definition \<Rightarrow> provider_binding sorx_result" where
  "resolve_binding r ep =
     (let entity = unwrap_or (ep_entity ep) (ep_collection ep)
      in case bt_get (entity_bindings r) entity of
           Some b \<Rightarrow> Ok b
         | None \<Rightarrow>
             if entity_bindings r = []
             then Ok \<lparr>pb_entity = entity, pb_provider_id = ep_provider_binding ep,
                      pb_collection = ep_collection ep\<rparr>
             else Err (sorx_error_new ''provider_binding_missing''
                         (Text (''missing provider binding for entity `'' @ entity @ ''`''))))"

definition string_field :: "json_map \<Rightarrow> string \<Rightarrow> string option" where
  "string_field obj key = Option.bind (bt_get obj key) as_str"

definition binding_of :: "string \<Rightarrow> string \<Rightarrow> json_map \<Rightarrow> provider_binding" where
  "binding_of default_provider_id entity obj =
     \<lparr>pb_entity = entity,
      pb_provider_id = unwrap_or (string_field obj ''provider'') default_provider_id,
      pb_collection = unwrap_or (string_field obj ''collection'') (default_collection_name entity)\<rparr>"

fun collect_bindings ::
  "string \<Rightarrow> json_map \<Rightarrow> (string, provider_binding) btree \<Rightarrow>
   (string, provider_binding) btree sorx_result" where
  "collect_bindings p [] acc = Ok acc"
| "collect_bindings p ((entity, value) # rest) acc =
     (case as_object value of
        None \<Rightarrow> Err (sorx_error_at_path ''provider_binding_invalid''
                       (Text ''entity binding must be an object'') (''bindings.entities.'' @ entity))
      | Some obj \<Rightarrow> collect_bindings p rest (bt_insert entity (binding_of p entity obj) acc))"

definition binding_resolver_from_config :: "json_map \<Rightarrow> string \<Rightarrow> binding_resolver sorx_result" where
  "binding_resolver_from_config bindings p =
     (let entities = unwrap_or (Option.bind (bt_get bindings ''entities'') as_object) []
      in case collect_bindings p entities [] of
           Err e \<Rightarrow> Err e
         | Ok bs \<Rightarrow> Ok (with_default_provider_id (binding_resolver_new bs) p))"

section \<open>Operations of a store\<close>

record entity_record =
  rec_entity :: string
  rec_collection :: string
  rec_id :: string
  rec_data :: json
  rec_version :: u64

record unique_index =
  ui_id :: string
  ui_record :: string
  ui_collection :: string
  ui_fields :: "string list"

datatype unique_conflict_behavior = Reject | ReturnExisting string "string list"

datatype query_order_direction = Asc | Desc

record query_order =
  qo_field :: string
  qo_direction :: query_order_direction

record create_op =
  cr_namespace :: provider_namespace
  cr_entity :: string
  cr_collection :: string
  cr_input :: json
  cr_idempotency_key :: "string option"
  cr_unique_indexes :: "unique_index list"
  cr_unique_behavior :: unique_conflict_behavior

record get_op =
  g_namespace :: provider_namespace
  g_entity :: string
  g_collection :: string
  g_id :: string

record update_op =
  up_namespace :: provider_namespace
  up_entity :: string
  up_collection :: string
  up_id :: string
  up_patch :: json
  up_unique_indexes :: "unique_index list"

record query_op =
  q_namespace :: provider_namespace
  q_entity :: string
  q_collection :: string
  q_filter :: json
  q_order_by :: "query_order list"

record delete_op =
  del_namespace :: provider_namespace
  del_entity :: string
  del_collection :: string
  del_id :: string

text \<open>\<^verbatim>\<open>chrono::DateTime<Utc>\<close> as its distance from the epoch.\<close>

type_synonym timestamp = int

record append_event_op =
  ae_namespace :: provider_namespace
  ae_stream :: string
  ae_event_type :: string
  ae_capability :: "string option"
  ae_producer :: "string option"
  ae_subject_entity :: string
  ae_subject_id :: string
  ae_data :: json
  ae_occurred_at :: timestamp

record event_record =
  ev_event_id :: string
  ev_stream :: string
  ev_event_type :: string
  ev_subject_entity :: string
  ev_subject_id :: string
  ev_data :: json
  ev_envelope :: json
  ev_sequence :: u64
  ev_occurred_at :: timestamp

record index_query_op =
  iq_namespace :: provider_namespace
  iq_entity :: string
  iq_collection :: string
  iq_index :: string
  iq_filter :: json

record traverse_op =
  tv_namespace :: provider_namespace
  tv_root_entity :: string
  tv_root_collection :: string
  tv_root_id :: string
  tv_max_depth :: u8
  tv_relationships :: "string list"

record external_ref =
  xr_entity :: string
  xr_id :: string
  xr_system :: string
  xr_external_id :: string

record external_refs_op =
  xo_namespace :: provider_namespace
  xo_entity :: string
  xo_collection :: string
  xo_id :: string

record store_evidence_op =
  sv_namespace :: provider_namespace
  sv_entity :: string
  sv_collection :: string
  sv_id :: string
  sv_evidence :: json

text \<open>
  \<^verbatim>\<open>dyn SorStoreProvider\<close> and \<^verbatim>\<open>dyn SorxCanonicalStore\<close>: the methods of a store over its
  state \<open>'s\<close>. A method returns its result and the state it leaves, also when it fails.
\<close>

record 's store_provider =
  sp_create :: "'s \<Rightarrow> create_op \<Rightarrow> entity_record sorx_result \<times> 's"
  sp_get :: "'s \<Rightarrow> get_op \<Rightarrow> entity_record option sorx_result"
  sp_update :: "'s \<Rightarrow> update_op \<Rightarrow> entity_record sorx_result \<times> 's"
  sp_query :: "'s \<Rightarrow> query_op \<Rightarrow> entity_record list sorx_result"
  sp_delete :: "'s \<Rightarrow> delete_op \<Rightarrow> bool sorx_result \<times> 's"

record 's canonical_store = "'s store_provider" +
  cst_append_event :: "'s \<Rightarrow> append_event_op \<Rightarrow> event_record sorx_result \<times> 's"
  cst_query_index :: "'s \<Rightarrow> index_query_op \<Rightarrow> entity_record list sorx_result"
  cst_traverse :: "'s \<Rightarrow> traverse_op \<Rightarrow> entity_record list sorx_result"
  cst_get_external_refs :: "'s \<Rightarrow> external_refs_op \<Rightarrow> external_ref list sorx_result"
  cst_store_evidence :: "'s \<Rightarrow> store_evidence_op \<Rightarrow> unit sorx_result \<times> 's"
  cst_get_evidence :: "'s \<Rightarrow> external_refs_op \<Rightarrow> json list sorx_result"

section \<open>The provider registry\<close>

record 'p provider_registry =
  stores :: "(string, 'p) btree"
  canonical_stores :: "(string, 'p) btree"

definition provider_registry_new :: "'p provider_registry" where
  "provider_registry_new = \<lparr>stores = [], canonical_stores = []\<rparr>"

definition register_store :: "'p provider_registry \<Rightarrow> string \<Rightarrow> 'p \<Rightarrow> 'p provider_registry" where
  "register_store r b p = r\<lparr>stores := bt_insert b p (stores r)\<rparr>"

definition register_canonical_store :: "'p provider_registry \<Rightarrow> string \<Rightarrow> 'p \<Rightarrow> 'p provider_registry" where
  "register_canonical_store r b p =
     r\<lparr>stores := bt_insert b p (stores r), canonical_stores := bt_insert b p (canonical_stores r)\<rparr>"

definition registered_store :: "'p provider_registry \<Rightarrow> string \<Rightarrow> 'p sorx_result" where
  "registered_store r b = ok_or (bt_get (stores r) b)
     (sorx_error_new ''provider_missing'' (Text (''missing store provider binding `'' @ b @ ''`'')))"

definition registered_canonical_store :: "'p provider_registry \<Rightarrow> string \<Rightarrow> 'p sorx_result" where
  "registered_canonical_store r b = ok_or (bt_get (canonical_stores r) b)
     (sorx_error_new ''provider_capability_missing''
        (Text (''store provider binding `'' @ b @ ''` does not support canonical operations'')))"

definition contains_store :: "'p provider_registry \<Rightarrow> string \<Rightarrow> bool" where
  "contains_store r b \<longleftrightarrow> bt_get (stores r) b \<noteq> None"

section \<open>Merging data\<close>

definition object_clone :: "json \<Rightarrow> json_map" where
  "object_clone v = unwrap_or (as_object v) []"

text \<open>What an update leaves of a record: the patch over the data, the id, the next version.\<close>

definition merged_data :: "json \<Rightarrow> json \<Rightarrow> string \<Rightarrow> json_map" where
  "merged_data data patch i =
     bt_insert ''id'' (JStr i)
       (fold (\<lambda>(k, v). bt_insert k v) (object_clone patch) (object_clone data))"

lemma bt_get_fold_insert:
  "bt_get (fold (\<lambda>(k, v). bt_insert k v) kvs m) k =
     (case map_of (rev kvs) k of Some v \<Rightarrow> Some v | None \<Rightarrow> bt_get m k)"
  by (induction kvs arbitrary: m) (auto simp: map_add_def split: option.splits prod.splits)

lemma bt_get_object_clone: "bt_get (object_clone v) k = jget v k"
  by (cases v) (simp_all add: object_clone_def jget_def)

lemma map_of_rev_wf: "bt_wf m \<Longrightarrow> map_of (rev m) = bt_get m"
  using map_of_eq_Some_iff [of m] map_of_eq_Some_iff [of "rev m"] bt_wf_distinct [of m]
  by (intro ext option.expand) (auto simp: bt_get_def rev_map [symmetric] map_of_eq_None_iff)

lemma merged_data_get:
  assumes "wf_json patch"
  shows "bt_get (merged_data data patch i) k =
    (if k = ''id'' then Some (JStr i) else opt_or (jget patch k) (jget data k))"
proof -
  have "bt_wf (object_clone patch)"
    using assms by (cases patch) (simp_all add: object_clone_def)
  then show ?thesis
    by (simp add: merged_data_def bt_get_fold_insert map_of_rev_wf bt_get_object_clone opt_or_def
        split: option.split)
qed

definition patched_record :: "entity_record \<Rightarrow> json \<Rightarrow> string \<Rightarrow> entity_record" where
  "patched_record r patch i =
     r\<lparr>rec_data := JObj (merged_data (rec_data r) patch i), rec_version := rec_version r + 1\<rparr>"

definition matches_filter :: "json \<Rightarrow> json_map \<Rightarrow> bool" where
  "matches_filter data flt \<longleftrightarrow> list_all (\<lambda>(k, expected). jget data k = Some expected) flt"

definition value_id :: "json \<Rightarrow> string option" where
  "value_id v = Option.bind (jget v ''id'') as_str"

section \<open>The contract of a store\<close>

text \<open>
  A store shows its records as a finite map per collection address; namespaces enter only
  through the address. The laws say what each operation of the trait reads and writes.
\<close>

locale sor_store =
  fixes ops :: "('s, 'z) store_provider_scheme"
    and addr :: "provider_namespace \<Rightarrow> string \<Rightarrow> 'a"
    and view :: "'s \<Rightarrow> 'a \<Rightarrow> string \<Rightarrow> entity_record option"
    and inv :: "'s \<Rightarrow> bool"
  assumes get_law: "inv s \<Longrightarrow> sp_get ops s g = Ok (view s (addr (g_namespace g) (g_collection g)) (g_id g))"
    and update_law: "inv s \<Longrightarrow> sp_update ops s u = (res, s') \<Longrightarrow>
        (case res of
           Err e \<Rightarrow> s' = s
         | Ok r \<Rightarrow> (\<exists>old. view s (addr (up_namespace u) (up_collection u)) (up_id u) = Some old \<and>
                      r = patched_record old (up_patch u) (up_id u) \<and>
                      view s' = (view s)(addr (up_namespace u) (up_collection u) :=
                        (view s (addr (up_namespace u) (up_collection u)))(up_id u \<mapsto> r))))"
    and update_total: "inv s \<Longrightarrow> up_unique_indexes u = [] \<Longrightarrow>
        view s (addr (up_namespace u) (up_collection u)) (up_id u) \<noteq> None \<Longrightarrow>
        (\<exists>r s'. sp_update ops s u = (Ok r, s'))"
    and query_law: "inv s \<Longrightarrow>
        (\<exists>rs. sp_query ops s q = Ok rs \<and> distinct rs \<and>
           set rs = {r \<in> ran (view s (addr (q_namespace q) (q_collection q))).
                       matches_filter (rec_data r) (object_clone (q_filter q))})"
    and create_law: "inv s \<Longrightarrow> sp_create ops s c = (res, s') \<Longrightarrow>
        (case res of
           Err e \<Rightarrow> s' = s
         | Ok r \<Rightarrow> s' = s \<or>
             rec_data r = JObj (bt_insert ''id'' (JStr (rec_id r)) (object_clone (cr_input c))) \<and>
             view s' = (view s)(addr (cr_namespace c) (cr_collection c) :=
               (view s (addr (cr_namespace c) (cr_collection c)))(rec_id r \<mapsto> r)))"
    and delete_law: "inv s \<Longrightarrow> sp_delete ops s d =
        (del, s') \<Longrightarrow>
        del = Ok (view s (addr (del_namespace d) (del_collection d)) (del_id d) \<noteq> None) \<and>
        view s' = (view s)(addr (del_namespace d) (del_collection d) :=
          (view s (addr (del_namespace d) (del_collection d)))(del_id d := None))"
    and ids_law: "inv s \<Longrightarrow> view s a i = Some r \<Longrightarrow> rec_id r = i"
    and create_inv: "inv s \<Longrightarrow> inv (snd (sp_create ops s c))"
    and update_inv: "inv s \<Longrightarrow> inv (snd (sp_update ops s u))"
    and delete_inv: "inv s \<Longrightarrow> inv (snd (sp_delete ops s d))"
begin

text \<open>An operation on one collection address does not change what another shows.\<close>

lemma create_frame:
  assumes "inv s" and "a \<noteq> addr (cr_namespace c) (cr_collection c)"
  shows "view (snd (sp_create ops s c)) a = view s a"
proof -
  obtain res s' where e: "sp_create ops s c = (res, s')" by (cases "sp_create ops s c")
  show ?thesis using create_law [OF assms(1) e] assms(2) e by (auto split: sum.splits)
qed

lemma update_frame:
  assumes "inv s" and "a \<noteq> addr (up_namespace u) (up_collection u)"
  shows "view (snd (sp_update ops s u)) a = view s a"
proof -
  obtain res s' where e: "sp_update ops s u = (res, s')" by (cases "sp_update ops s u")
  show ?thesis using update_law [OF assms(1) e] assms(2) e by (auto split: sum.splits)
qed

lemma delete_frame:
  assumes "inv s" and "a \<noteq> addr (del_namespace d) (del_collection d)"
  shows "view (snd (sp_delete ops s d)) a = view s a"
proof -
  obtain res s' where e: "sp_delete ops s d = (res, s')" by (cases "sp_delete ops s d")
  show ?thesis using delete_law [OF assms(1) e] assms(2) e by auto
qed

end

section \<open>Namespaces\<close>

lemma provider_clean_segment_no_slash: "CHR ''/'' \<notin> set (provider_clean_segment s)"
  by (auto simp: provider_clean_segment_def replace_chars_def)

lemma append_slash_inj:
  assumes "CHR ''/'' \<notin> set a" "CHR ''/'' \<notin> set b" "a @ CHR ''/'' # x = b @ CHR ''/'' # y"
  shows "a = b \<and> x = y"
  using assms
proof (induction a arbitrary: b)
  case Nil
  then show ?case by (cases b) auto
next
  case (Cons c a)
  then show ?case by (cases b) auto
qed

text \<open>The key prefix separates namespaces up to the cleaning of their segments.\<close>

lemma key_prefix_slash_inj:
  assumes "key_prefix m @ CHR ''/'' # x = key_prefix n @ CHR ''/'' # y"
  shows "provider_clean_segment (ns_tenant_id m) = provider_clean_segment (ns_tenant_id n)"
    and "provider_clean_segment (ns_sor_name m) = provider_clean_segment (ns_sor_name n)"
    and "x = y"
proof -
  let ?t = "\<lambda>ns. provider_clean_segment (ns_tenant_id ns)"
  let ?s = "\<lambda>ns. provider_clean_segment (ns_sor_name ns)"
  have "?t m @ CHR ''/'' # (?s m @ CHR ''/'' # x) = ?t n @ CHR ''/'' # (?s n @ CHR ''/'' # y)"
    using assms by (simp add: key_prefix_def)
  note outer = append_slash_inj [OF provider_clean_segment_no_slash provider_clean_segment_no_slash this]
  show "?t m = ?t n" using outer by (rule conjunct1)
  note inner = append_slash_inj [OF provider_clean_segment_no_slash provider_clean_segment_no_slash
      outer [THEN conjunct2]]
  show "?s m = ?s n" using inner by (rule conjunct1)
  show "x = y" using inner by (rule conjunct2)
qed

lemma key_prefix_eq_iff:
  "key_prefix m = key_prefix n \<longleftrightarrow>
     provider_clean_segment (ns_tenant_id m) = provider_clean_segment (ns_tenant_id n) \<and>
     provider_clean_segment (ns_sor_name m) = provider_clean_segment (ns_sor_name n)"
proof
  assume "key_prefix m = key_prefix n"
  then have "key_prefix m @ CHR ''/'' # [] = key_prefix n @ CHR ''/'' # []" by (rule arg_cong)
  note parts = key_prefix_slash_inj [OF this]
  show "provider_clean_segment (ns_tenant_id m) = provider_clean_segment (ns_tenant_id n) \<and>
     provider_clean_segment (ns_sor_name m) = provider_clean_segment (ns_sor_name n)"
    using parts(1,2) by (rule conjI)
qed (simp add: key_prefix_def)

text \<open>A segment the cleaning leaves alone.\<close>

definition plain_segment :: "string \<Rightarrow> bool" where
  "plain_segment s \<longleftrightarrow> list_all (\<lambda>c. c \<notin> set [CHR ''/'', char_of (92 :: nat)] \<and> \<not> is_control c) s"

lemma replace_chars_none: "list_all (\<lambda>c. c \<notin> set cs) s \<Longrightarrow> replace_chars cs d s = s"
  by (induction s) (simp_all add: replace_chars_def)

lemma provider_clean_segment_plain:
  assumes "plain_segment s"
  shows "provider_clean_segment s = s"
proof -
  let ?bad = "[CHR ''/'', char_of (92 :: nat)]"
  have mem: "c \<notin> set ?bad" "\<not> is_control c" if "c \<in> set s" for c
    using assms that unfolding plain_segment_def list_all_iff by (metis, metis)
  have "trim_matches (\<lambda>c. c = CHR ''/'') s = s"
    using mem(1) by (intro trim_matches_none ballI) (metis list.set_intros(1))
  moreover have "replace_chars ?bad (CHR ''_'') s = s"
    using mem(1) by (intro replace_chars_none) (simp only: list_all_iff Ball_def, metis)
  moreover have "filter (\<lambda>c. \<not> is_control c) s = s"
    using mem(2) by (intro filter_True ballI)
  ultimately show ?thesis by (simp only: provider_clean_segment_def)
qed

end
