(* ===== verification/Memory_Store.thy ===== *)
theory Memory_Store
  imports Provider
begin

text \<open>
  \<^verbatim>\<open>greentic-sorx-core/src/providers/memory.rs\<close>: the in-memory store, its unique indexes,
  ordering of query results, events and evidence, and the versioned file it persists to.

  Every operation runs under the store's mutex, so it is one function on the state. It takes
  \<open>persist\<close>, the outcome of writing the state out: the state is changed before the write is
  attempted, so a failed write leaves the change in memory. \<open>to_string\<close> stands for
  \<^verbatim>\<open>serde_json::to_string\<close>.
\<close>

section \<open>State\<close>

type_synonym u32 = "32 word"

record memory_state =
  collections :: "(string, (string, entity_record) btree) btree"
  idempotency :: "(string, entity_record) btree"
  events :: "(string, event_record list) btree"
  external_refs :: "(string, external_ref list) btree"
  evidence :: "(string, json list) btree"

definition memory_state_default :: memory_state where
  "memory_state_default =
     \<lparr>collections = [], idempotency = [], events = [], external_refs = [], evidence = []\<rparr>"

record persisted_store =
  ps_schema_version :: u32
  ps_state :: memory_state

definition CURRENT_SCHEMA_VERSION :: u32 where
  "CURRENT_SCHEMA_VERSION = 1"

text \<open>The outside world as the store meets it: the file system and the serializers.\<close>

record store_env =
  fs_parent :: "string \<Rightarrow> string option"
  fs_create_dir_all :: "string \<Rightarrow> (string, unit) result"
  fs_encode :: "persisted_store \<Rightarrow> (string, string) result"
  fs_write :: "string \<Rightarrow> string \<Rightarrow> (string, unit) result"

definition memory_persist :: "store_env \<Rightarrow> string option \<Rightarrow> memory_state \<Rightarrow> unit sorx_result" where
  "memory_persist env persistence_path st =
     (case persistence_path of
        None \<Rightarrow> Ok ()
      | Some path \<Rightarrow>
          (case (case fs_parent env path of
                   None \<Rightarrow> Ok ()
                 | Some parent \<Rightarrow>
                     (case fs_create_dir_all env parent of
                        Err e \<Rightarrow> Err (sorx_error_new ''provider_write_failed''
                            (Text (''failed to create persistent store dir '' @ parent @ '': '' @ e)))
                      | Ok _ \<Rightarrow> Ok ())) of
             Err e \<Rightarrow> Err e
           | Ok _ \<Rightarrow>
               (case fs_encode env \<lparr>ps_schema_version = CURRENT_SCHEMA_VERSION, ps_state = st\<rparr> of
                  Err e \<Rightarrow> Err (sorx_error_new ''provider_encode_failed'' (Text e))
                | Ok encoded \<Rightarrow>
                    (case fs_write env path (encoded @ [char_of (10 :: nat)]) of
                       Err e \<Rightarrow> Err (sorx_error_new ''provider_write_failed''
                           (Text (''failed to write persistent store '' @ path @ '': '' @ e)))
                     | Ok _ \<Rightarrow> Ok ()))))"

section \<open>Keys and indexes\<close>

definition clean_key :: "string \<Rightarrow> string" where
  "clean_key value =
     filter (\<lambda>c. \<not> is_control c)
       (replace_chars [CHR ''/'', char_of (92 :: nat)] (CHR ''_'') (trim_matches (\<lambda>c. c = CHR ''/'') value))"

definition collection_key :: "provider_namespace \<Rightarrow> string \<Rightarrow> string" where
  "collection_key ns collection = key_prefix ns @ ''/'' @ collection"

definition subject_key :: "provider_namespace \<Rightarrow> string \<Rightarrow> string \<Rightarrow> string \<Rightarrow> string" where
  "subject_key ns collection entity i =
     key_prefix ns @ ''/'' @ clean_key collection @ ''/'' @ clean_key entity @ ''/'' @ clean_key i"

fun get_parts :: "json \<Rightarrow> string list \<Rightarrow> json option" where
  "get_parts v [] = Some v"
| "get_parts v (p # ps) = (case jget v p of None \<Rightarrow> None | Some w \<Rightarrow> get_parts w ps)"

definition lookup_path :: "json \<Rightarrow> string \<Rightarrow> json option" where
  "lookup_path v path = get_parts v (split_on (CHR ''.'') path)"

definition index_values :: "json \<Rightarrow> string list \<Rightarrow> json list option" where
  "index_values data fs = those (map (lookup_path data) fs)"

record unique_conflict =
  uc_index :: unique_index
  uc_values :: "json list"
  uc_record :: entity_record

text \<open>The \<^verbatim>\<open>?\<close> on \<^verbatim>\<open>index_values\<close> leaves the whole function when a field is missing.\<close>

fun scan_indexes ::
  "(string, entity_record) btree \<Rightarrow> unique_index list \<Rightarrow> json \<Rightarrow> string option \<Rightarrow> unique_conflict option" where
  "scan_indexes collection [] data current_id = None"
| "scan_indexes collection (index # indexes) data current_id =
     (case index_values data (ui_fields index) of
        None \<Rightarrow> None
      | Some values \<Rightarrow>
          (case find (\<lambda>r. current_id \<noteq> Some (rec_id r) \<and>
                          index_values (rec_data r) (ui_fields index) = Some values)
                  (bt_values collection) of
             Some r \<Rightarrow> Some \<lparr>uc_index = index, uc_values = values, uc_record = r\<rparr>
           | None \<Rightarrow> scan_indexes collection indexes data current_id))"

definition find_unique_conflict ::
  "(string, entity_record) btree option \<Rightarrow> unique_index list \<Rightarrow> json \<Rightarrow> string option \<Rightarrow>
   unique_conflict option" where
  "find_unique_conflict collection indexes data current_id =
     (case collection of None \<Rightarrow> None | Some c \<Rightarrow> scan_indexes c indexes data current_id)"

definition unique_conflict_error :: "unique_index \<Rightarrow> json list \<Rightarrow> sorx_error" where
  "unique_conflict_error index values =
     sorx_error_new ''unique_constraint_violation'' (UniqueMsg (ui_id index) (ui_fields index) values)"

section \<open>Ordering\<close>

definition compare_values :: "(json \<Rightarrow> string) \<Rightarrow> json option \<Rightarrow> json option \<Rightarrow> ordering" where
  "compare_values to_string l r =
     (case (l, r) of
        (Some (JNum x), Some (JNum y)) \<Rightarrow> cmp (number_as_f64 x) (number_as_f64 y)
      | (Some (JStr x), Some (JStr y)) \<Rightarrow> cmp x y
      | (Some (JBool x), Some (JBool y)) \<Rightarrow> cmp x y
      | (Some x, Some y) \<Rightarrow> cmp (to_string x) (to_string y)
      | (None, Some _) \<Rightarrow> Greater
      | (Some _, None) \<Rightarrow> Less
      | (None, None) \<Rightarrow> Equal)"

fun compare_records ::
  "(json \<Rightarrow> string) \<Rightarrow> query_order list \<Rightarrow> entity_record \<Rightarrow> entity_record \<Rightarrow> ordering" where
  "compare_records to_string [] l r = cmp (rec_id l) (rec_id r)"
| "compare_records to_string (order # orders) l r =
     (let c = compare_values to_string (lookup_path (rec_data l) (qo_field order))
                (lookup_path (rec_data r) (qo_field order));
          c' = (case qo_direction order of Asc \<Rightarrow> c | Desc \<Rightarrow> reverse_ord c)
      in if c' \<noteq> Equal then c' else compare_records to_string orders l r)"

section \<open>Record operations\<close>

abbreviation mem_collection :: "memory_state \<Rightarrow> provider_namespace \<Rightarrow> string \<Rightarrow> (string, entity_record) btree option" where
  "mem_collection st ns c \<equiv> bt_get (collections st) (collection_key ns c)"

definition idempotency_slot :: "create_op \<Rightarrow> string option" where
  "idempotency_slot op =
     map_option (\<lambda>k. collection_key (cr_namespace op) (cr_collection op) @ '':'' @ k) (cr_idempotency_key op)"

definition create_id :: "memory_state \<Rightarrow> create_op \<Rightarrow> string" where
  "create_id st op =
     unwrap_or (value_id (cr_input op))
       (cr_collection op @ ''-'' @
        show_nat (unwrap_or (map_option length (mem_collection st (cr_namespace op) (cr_collection op))) 0 + 1))"

definition create_data :: "memory_state \<Rightarrow> create_op \<Rightarrow> json" where
  "create_data st op = JObj (bt_insert ''id'' (JStr (create_id st op)) (object_clone (cr_input op)))"

definition created_record :: "memory_state \<Rightarrow> create_op \<Rightarrow> entity_record" where
  "created_record st op =
     \<lparr>rec_entity = cr_entity op, rec_collection = cr_collection op, rec_id = create_id st op,
      rec_data = create_data st op, rec_version = 1\<rparr>"

definition insert_record :: "memory_state \<Rightarrow> string \<Rightarrow> entity_record \<Rightarrow> memory_state" where
  "insert_record st key r =
     st\<lparr>collections := bt_insert key
          (bt_insert (rec_id r) r (unwrap_or (bt_get (collections st) key) [])) (collections st)\<rparr>"

definition created_state :: "memory_state \<Rightarrow> create_op \<Rightarrow> memory_state" where
  "created_state st op =
     (let r = created_record st op;
          st1 = insert_record st (collection_key (cr_namespace op) (cr_collection op)) r
      in case idempotency_slot op of
           None \<Rightarrow> st1
         | Some k \<Rightarrow> st1\<lparr>idempotency := bt_insert k r (idempotency st1)\<rparr>)"

definition memory_create ::
  "(memory_state \<Rightarrow> unit sorx_result) \<Rightarrow> memory_state \<Rightarrow> create_op \<Rightarrow>
   entity_record sorx_result \<times> memory_state" where
  "memory_create persist st op =
     (let key = collection_key (cr_namespace op) (cr_collection op)
      in case Option.bind (idempotency_slot op) (bt_get (idempotency st)) of
           Some r \<Rightarrow> (Ok r, st)
         | None \<Rightarrow>
             (case find_unique_conflict (bt_get (collections st) key) (cr_unique_indexes op)
                     (create_data st op) None of
                Some conflict \<Rightarrow>
                  (if cr_unique_behavior op = ReturnExisting (ui_id (uc_index conflict)) (ui_fields (uc_index conflict))
                   then (Ok (uc_record conflict), st)
                   else (Err (unique_conflict_error (uc_index conflict) (uc_values conflict)), st))
              | None \<Rightarrow>
                  (case persist (created_state st op) of
                     Err e \<Rightarrow> (Err e, created_state st op)
                   | Ok _ \<Rightarrow> (Ok (created_record st op), created_state st op))))"

definition memory_get :: "memory_state \<Rightarrow> get_op \<Rightarrow> entity_record option sorx_result" where
  "memory_get st op =
     Ok (Option.bind (mem_collection st (g_namespace op) (g_collection op)) (\<lambda>c. bt_get c (g_id op)))"

definition record_not_found :: "string \<Rightarrow> string \<Rightarrow> sorx_error" where
  "record_not_found i collection =
     sorx_error_new ''record_not_found''
       (Text (''record `'' @ i @ ''` was not found in `'' @ collection @ ''`''))"

definition memory_update ::
  "(memory_state \<Rightarrow> unit sorx_result) \<Rightarrow> memory_state \<Rightarrow> update_op \<Rightarrow>
   entity_record sorx_result \<times> memory_state" where
  "memory_update persist st op =
     (let key = collection_key (up_namespace op) (up_collection op)
      in case bt_get (collections st) key of
           None \<Rightarrow> (Err (record_not_found (up_id op) (up_collection op)), st)
         | Some collection \<Rightarrow>
             (case bt_get collection (up_id op) of
                None \<Rightarrow> (Err (record_not_found (up_id op) (up_collection op)), st)
              | Some existing \<Rightarrow>
                  let data = merged_data (rec_data existing) (up_patch op) (up_id op)
                  in (case find_unique_conflict (Some collection) (up_unique_indexes op) (JObj data)
                             (Some (up_id op)) of
                        Some conflict \<Rightarrow>
                          (Err (unique_conflict_error (uc_index conflict) (uc_values conflict)), st)
                      | None \<Rightarrow>
                          let r = existing\<lparr>rec_data := JObj data, rec_version := rec_version existing + 1\<rparr>;
                              st' = st\<lparr>collections := bt_insert key (bt_insert (up_id op) r collection)
                                                         (collections st)\<rparr>
                          in (case persist st' of Err e \<Rightarrow> (Err e, st') | Ok _ \<Rightarrow> (Ok r, st')))))"

definition memory_query ::
  "(json \<Rightarrow> string) \<Rightarrow> memory_state \<Rightarrow> query_op \<Rightarrow> entity_record list sorx_result" where
  "memory_query to_string st op =
     (let flt = object_clone (q_filter op);
          records = (case mem_collection st (q_namespace op) (q_collection op) of
                       None \<Rightarrow> []
                     | Some c \<Rightarrow> filter (\<lambda>r. matches_filter (rec_data r) flt) (bt_values c))
      in Ok (if q_order_by op = [] then sort_by (\<lambda>l r. cmp (rec_id l) (rec_id r)) records
             else sort_by (compare_records to_string (q_order_by op)) records))"

definition memory_delete ::
  "(memory_state \<Rightarrow> unit sorx_result) \<Rightarrow> memory_state \<Rightarrow> delete_op \<Rightarrow>
   bool sorx_result \<times> memory_state" where
  "memory_delete persist st op =
     (let key = collection_key (del_namespace op) (del_collection op);
          (deleted, st') =
            (case bt_get (collections st) key of
               None \<Rightarrow> (False, st)
             | Some c \<Rightarrow> (bt_get c (del_id op) \<noteq> None,
                          st\<lparr>collections := bt_insert key (bt_remove (del_id op) c) (collections st)\<rparr>))
      in case persist st' of Err e \<Rightarrow> (Err e, st') | Ok _ \<Rightarrow> (Ok deleted, st'))"

section \<open>Canonical operations\<close>

fun json_opt_str :: "string option \<Rightarrow> json" where
  "json_opt_str None = JNull"
| "json_opt_str (Some s) = JStr s"

definition event_envelope :: "append_event_op \<Rightarrow> string \<Rightarrow> json" where
  "event_envelope op event_id =
     JObj (bt_collect
       [(''event_id'', JStr event_id),
        (''event_type'', JStr (ae_event_type op)),
        (''capability'', json_opt_str (ae_capability op)),
        (''producer'', json_opt_str (ae_producer op)),
        (''tenant'', JStr (ns_tenant_id (ae_namespace op))),
        (''subject'', JObj (bt_collect [(''type'', JStr (ae_subject_entity op)),
                                        (''id'', JStr (ae_subject_id op))])),
        (''payload'', ae_data op)])"

definition event_stream_key :: "provider_namespace \<Rightarrow> string \<Rightarrow> string" where
  "event_stream_key ns stream = key_prefix ns @ ''/events/'' @ clean_key stream"

definition appended_event :: "event_record list \<Rightarrow> append_event_op \<Rightarrow> event_record" where
  "appended_event stream op =
     (let sequence = (of_nat (length stream) + 1 :: u64);
          event_id = clean_key (ae_stream op) @ ''-'' @ show_nat (unat sequence)
      in \<lparr>ev_event_id = event_id, ev_stream = ae_stream op, ev_event_type = ae_event_type op,
          ev_subject_entity = ae_subject_entity op, ev_subject_id = ae_subject_id op,
          ev_data = ae_data op, ev_envelope = event_envelope op event_id,
          ev_sequence = sequence, ev_occurred_at = ae_occurred_at op\<rparr>)"

definition memory_append_event ::
  "(memory_state \<Rightarrow> unit sorx_result) \<Rightarrow> memory_state \<Rightarrow> append_event_op \<Rightarrow>
   event_record sorx_result \<times> memory_state" where
  "memory_append_event persist st op =
     (let key = event_stream_key (ae_namespace op) (ae_stream op);
          stream = unwrap_or (bt_get (events st) key) [];
          r = appended_event stream op;
          st' = st\<lparr>events := bt_insert key (stream @ [r]) (events st)\<rparr>
      in case persist st' of Err e \<Rightarrow> (Err e, st') | Ok _ \<Rightarrow> (Ok r, st'))"

definition memory_query_index ::
  "(json \<Rightarrow> string) \<Rightarrow> memory_state \<Rightarrow> index_query_op \<Rightarrow> entity_record list sorx_result" where
  "memory_query_index to_string st op =
     memory_query to_string st
       \<lparr>q_namespace = iq_namespace op, q_entity = iq_entity op, q_collection = iq_collection op,
        q_filter = iq_filter op, q_order_by = []\<rparr>"

definition memory_traverse :: "memory_state \<Rightarrow> traverse_op \<Rightarrow> entity_record list sorx_result" where
  "memory_traverse st op =
     (case memory_get st \<lparr>g_namespace = tv_namespace op, g_entity = tv_root_entity op,
                          g_collection = tv_root_collection op, g_id = tv_root_id op\<rparr> of
        Err e \<Rightarrow> Err e
      | Ok None \<Rightarrow> Ok []
      | Ok (Some r) \<Rightarrow> Ok [r])"

definition memory_get_external_refs :: "memory_state \<Rightarrow> external_refs_op \<Rightarrow> external_ref list sorx_result" where
  "memory_get_external_refs st op =
     Ok (unwrap_or (bt_get (external_refs st)
           (subject_key (xo_namespace op) (xo_collection op) (xo_entity op) (xo_id op))) [])"

definition memory_store_evidence ::
  "(memory_state \<Rightarrow> unit sorx_result) \<Rightarrow> memory_state \<Rightarrow> store_evidence_op \<Rightarrow>
   unit sorx_result \<times> memory_state" where
  "memory_store_evidence persist st op =
     (let key = subject_key (sv_namespace op) (sv_collection op) (sv_entity op) (sv_id op);
          st' = st\<lparr>evidence := bt_insert key
                    (unwrap_or (bt_get (evidence st) key) [] @ [sv_evidence op]) (evidence st)\<rparr>
      in case persist st' of Err e \<Rightarrow> (Err e, st') | Ok _ \<Rightarrow> (Ok (), st'))"

definition memory_get_evidence :: "memory_state \<Rightarrow> external_refs_op \<Rightarrow> json list sorx_result" where
  "memory_get_evidence st op =
     Ok (unwrap_or (bt_get (evidence st)
           (subject_key (xo_namespace op) (xo_collection op) (xo_entity op) (xo_id op))) [])"

definition memory_store ::
  "(json \<Rightarrow> string) \<Rightarrow> (memory_state \<Rightarrow> unit sorx_result) \<Rightarrow> memory_state canonical_store" where
  "memory_store to_string persist =
     \<lparr>sp_create = memory_create persist, sp_get = memory_get, sp_update = memory_update persist,
      sp_query = memory_query to_string, sp_delete = memory_delete persist,
      cst_append_event = memory_append_event persist, cst_query_index = memory_query_index to_string,
      cst_traverse = memory_traverse, cst_get_external_refs = memory_get_external_refs,
      cst_store_evidence = memory_store_evidence persist, cst_get_evidence = memory_get_evidence\<rparr>"

section \<open>Opening a persistent store\<close>

record loaded_state =
  ls_state :: memory_state
  ls_migrated :: bool

text \<open>The message's em dash, outside the modelled code points, is written as two hyphens.\<close>

definition schema_too_new :: "nat \<Rightarrow> sorx_error" where
  "schema_too_new v = sorx_error_new ''provider_schema_too_new''
     (Text (''store schema v'' @ show_nat v @ '' is newer than supported v'' @
            show_nat (unat CURRENT_SCHEMA_VERSION) @ '' -- upgrade the runtime''))"

definition migrate_v0_to_v1 :: "json \<Rightarrow> json sorx_result" where
  "migrate_v0_to_v1 state_value = Ok state_value"

definition migration_missing :: "u32 \<Rightarrow> sorx_error" where
  "migration_missing v = sorx_error_new ''provider_migration_missing''
     (Text (''no migration from schema v'' @ show_nat (unat v)))"

function migrate_steps :: "u32 \<Rightarrow> json \<Rightarrow> json sorx_result" where
  "migrate_steps version state_value =
     (if version < CURRENT_SCHEMA_VERSION
      then (case (if version = 0 then migrate_v0_to_v1 state_value else Err (migration_missing version)) of
              Err e \<Rightarrow> Err e
            | Ok v \<Rightarrow> migrate_steps (version + 1) v)
      else Ok state_value)"
  by auto
termination
  by (relation "measure (\<lambda>(v, x). unat (CURRENT_SCHEMA_VERSION - v))")
    (auto simp: CURRENT_SCHEMA_VERSION_def word_less_nat_alt split: if_splits)

declare migrate_steps.simps [simp del]

definition memory_migrate ::
  "(json \<Rightarrow> (string, memory_state) result) \<Rightarrow> u32 \<Rightarrow> json \<Rightarrow> memory_state sorx_result" where
  "memory_migrate from_value from v =
     (case migrate_steps from v of
        Err e \<Rightarrow> Err e
      | Ok w \<Rightarrow> (case from_value w of
                    Err e \<Rightarrow> Err (sorx_error_new ''provider_decode_failed'' (Text e))
                  | Ok st \<Rightarrow> Ok st))"

definition load_state ::
  "(string \<Rightarrow> (string, json) result) \<Rightarrow> (json \<Rightarrow> (string, memory_state) result) \<Rightarrow> string \<Rightarrow>
   loaded_state sorx_result" where
  "load_state from_str from_value raw =
     (case from_str raw of
        Err e \<Rightarrow> Err (sorx_error_new ''provider_decode_failed'' (Text e))
      | Ok v \<Rightarrow>
          (case (case Option.bind (Option.bind (as_object v) (\<lambda>m. bt_get m ''schema_version'')) as_u64 of
                   Some version \<Rightarrow>
                     (if unat version < 2 ^ 32
                      then Ok (of_nat (unat version) :: u32, unwrap_or (jget v ''state'') (JObj []))
                      else Err (schema_too_new (unat version)))
                 | None \<Rightarrow> Ok (0, v)) of
             Err e \<Rightarrow> Err e
           | Ok (from_version, state_value) \<Rightarrow>
               if from_version > CURRENT_SCHEMA_VERSION then Err (schema_too_new (unat from_version))
               else (case memory_migrate from_value from_version state_value of
                       Err e \<Rightarrow> Err e
                     | Ok st \<Rightarrow> Ok \<lparr>ls_state = st, ls_migrated = (from_version < CURRENT_SCHEMA_VERSION)\<rparr>)))"

text \<open>
  \<^verbatim>\<open>MemoryStoreProvider::persistent\<close>: \<open>file\<close> is \<^term>\<open>None\<close> when the path does not exist and
  otherwise the outcome of reading it. A load error keeps its code and gets the path appended to
  its message.
\<close>

definition open_persistent ::
  "store_env \<Rightarrow> (string \<Rightarrow> (string, json) result) \<Rightarrow> (json \<Rightarrow> (string, memory_state) result) \<Rightarrow>
   string \<Rightarrow> (string, string) result option \<Rightarrow> memory_state sorx_result" where
  "open_persistent env from_str from_value path file =
     (case file of
        None \<Rightarrow> Ok memory_state_default
      | Some (Inl e) \<Rightarrow> Err (sorx_error_new ''provider_read_failed''
          (Text (''failed to read persistent store '' @ path @ '': '' @ e)))
      | Some (Inr raw) \<Rightarrow>
          (case load_state from_str from_value raw of
             Err e \<Rightarrow> Err (sorx_error_new (err_code e)
                        (Around [] (err_message e) ('' (store '' @ path @ '')'')))
           | Ok loaded \<Rightarrow>
               if ls_migrated loaded
               then (case memory_persist env (Some path) (ls_state loaded) of
                       Err e \<Rightarrow> Err e
                     | Ok _ \<Rightarrow> Ok (ls_state loaded))
               else Ok (ls_state loaded)))"

end
