(* ===== verification/Memory_Laws.thy ===== *)
theory Memory_Laws
  imports Memory_Store
begin

text \<open>
  The in-memory store keeps the contract of a store: its invariant, what it shows to callers,
  and the interpretation of \<open>sor_store\<close> on it.
\<close>

section \<open>Invariant and view\<close>

definition mem_view :: "memory_state \<Rightarrow> string \<Rightarrow> string \<Rightarrow> entity_record option" where
  "mem_view st key i = Option.bind (bt_get (collections st) key) (\<lambda>c. bt_get c i)"

definition collection_wf :: "(string, entity_record) btree \<Rightarrow> bool" where
  "collection_wf c \<longleftrightarrow> bt_wf c \<and> list_all (\<lambda>(i, r). rec_id r = i) c"

definition mem_wf :: "memory_state \<Rightarrow> bool" where
  "mem_wf st \<longleftrightarrow> bt_wf (collections st) \<and> list_all (\<lambda>(k, c). collection_wf c) (collections st)"

lemma bt_get_list_all: "list_all (\<lambda>(k, v). P k v) m \<Longrightarrow> bt_get m k = Some v \<Longrightarrow> P k v"
  by (induction m) (auto split: if_splits)

lemma list_all_bt_remove: "list_all P m \<Longrightarrow> list_all P (bt_remove k m)"
  by (induction m) (auto simp: bt_remove_def)

lemma collection_wf_Nil [simp]: "collection_wf []"
  by (simp add: collection_wf_def)

lemma collection_wf_insert: "collection_wf c \<Longrightarrow> rec_id r = i \<Longrightarrow> collection_wf (bt_insert i r c)"
  by (simp add: collection_wf_def list_all_bt_insert)

lemma collection_wf_remove: "collection_wf c \<Longrightarrow> collection_wf (bt_remove i c)"
  by (simp add: collection_wf_def list_all_bt_remove)

lemma mem_wf_get: "mem_wf st \<Longrightarrow> bt_get (collections st) key = Some c \<Longrightarrow> collection_wf c"
  unfolding mem_wf_def by (metis bt_get_list_all)

lemma mem_wf_put: "mem_wf st \<Longrightarrow> collection_wf c \<Longrightarrow> mem_wf (st\<lparr>collections := bt_insert key c (collections st)\<rparr>)"
  by (simp add: mem_wf_def list_all_bt_insert)

lemma mem_wf_default [simp]: "mem_wf memory_state_default"
  by (simp add: mem_wf_def memory_state_default_def)

lemma mem_wf_idempotency [simp]: "mem_wf (st\<lparr>idempotency := x\<rparr>) = mem_wf st"
  by (simp add: mem_wf_def)

lemma mem_wf_insert_record: "mem_wf st \<Longrightarrow> mem_wf (insert_record st key r)"
  unfolding insert_record_def
  by (cases "bt_get (collections st) key")
    (simp_all add: mem_wf_put collection_wf_insert [OF mem_wf_get] collection_wf_insert [OF collection_wf_Nil, simplified])

lemma mem_view_idempotency [simp]: "mem_view (st\<lparr>idempotency := x\<rparr>) = mem_view st"
  by (simp add: mem_view_def fun_eq_iff)

lemma mem_view_put:
  "mem_view (st\<lparr>collections := bt_insert key c (collections st)\<rparr>) = (mem_view st)(key := bt_get c)"
  by (auto simp: mem_view_def fun_eq_iff)

lemma mem_view_collection: "bt_get (collections st) key = Some c \<Longrightarrow> mem_view st key = bt_get c"
  by (simp add: mem_view_def fun_eq_iff)

lemma mem_view_no_collection: "bt_get (collections st) key = None \<Longrightarrow> mem_view st key = Map.empty"
  by (simp add: mem_view_def fun_eq_iff)

lemma bt_get_insert_fun: "bt_get (bt_insert k v m) = (bt_get m)(k \<mapsto> v)"
  by (simp add: fun_eq_iff)

lemma bt_get_remove_fun: "bt_get (bt_remove k m) = (bt_get m)(k := None)"
  by (simp add: fun_eq_iff)

lemma mem_view_insert_record:
  "mem_view (insert_record st key r) = (mem_view st)(key := (mem_view st key)(rec_id r \<mapsto> r))"
  by (cases "bt_get (collections st) key")
    (simp_all add: insert_record_def mem_view_put bt_get_insert_fun mem_view_collection
      mem_view_no_collection fun_eq_iff)

section \<open>The operations case by case\<close>

lemma memory_create_cases:
  obtains (replayed) r where "Option.bind (idempotency_slot op) (bt_get (idempotency st)) = Some r"
      "memory_create persist st op = (Ok r, st)"
  | (returned) c where "Option.bind (idempotency_slot op) (bt_get (idempotency st)) = None"
      "find_unique_conflict (mem_collection st (cr_namespace op) (cr_collection op))
         (cr_unique_indexes op) (create_data st op) None = Some c"
      "memory_create persist st op = (Ok (uc_record c), st)"
  | (rejected) c :: unique_conflict where "memory_create persist st op =
      (Err (unique_conflict_error (uc_index c) (uc_values c)), st)"
  | (created) "Option.bind (idempotency_slot op) (bt_get (idempotency st)) = None"
      "find_unique_conflict (mem_collection st (cr_namespace op) (cr_collection op))
         (cr_unique_indexes op) (create_data st op) None = None"
      "memory_create persist st op =
         (case persist (created_state st op) of
            Err e \<Rightarrow> (Err e, created_state st op)
          | Ok _ \<Rightarrow> (Ok (created_record st op), created_state st op))"
proof (cases "Option.bind (idempotency_slot op) (bt_get (idempotency st))")
  case (Some r)
  then show ?thesis using that(1) by (simp add: memory_create_def Let_def)
next
  case None
  note slot = this
  show ?thesis
  proof (cases "find_unique_conflict (mem_collection st (cr_namespace op) (cr_collection op))
      (cr_unique_indexes op) (create_data st op) None")
    case conflict: (Some c)
    show ?thesis
    proof (cases "cr_unique_behavior op = ReturnExisting (ui_id (uc_index c)) (ui_fields (uc_index c))")
      case True
      then show ?thesis using that(2) slot conflict by (simp add: memory_create_def Let_def)
    next
      case False
      then show ?thesis using slot conflict by (intro that(3) [of c]) (simp add: memory_create_def Let_def)
    qed
  next
    case noconflict: None
    show ?thesis
      by (rule that(4) [OF slot noconflict]) (simp add: memory_create_def slot noconflict Let_def)
  qed
qed

lemma created_record_sel [simp]:
  "rec_id (created_record st op) = create_id st op"
  "rec_data (created_record st op) = create_data st op"
  "rec_version (created_record st op) = 1"
  "rec_entity (created_record st op) = cr_entity op"
  "rec_collection (created_record st op) = cr_collection op"
  by (simp_all add: created_record_def)

lemma created_state_view:
  "mem_view (created_state st op) =
     (mem_view st)(collection_key (cr_namespace op) (cr_collection op) :=
       (mem_view st (collection_key (cr_namespace op) (cr_collection op)))
         (create_id st op \<mapsto> created_record st op))"
  "mem_wf st \<Longrightarrow> mem_wf (created_state st op)"
  by (simp_all add: created_state_def Let_def mem_view_insert_record mem_wf_insert_record
      split: option.splits)

lemma memory_update_cases:
  obtains (missing) "mem_view st (collection_key (up_namespace op) (up_collection op)) (up_id op) = None"
      "memory_update persist st op = (Err (record_not_found (up_id op) (up_collection op)), st)"
  | (rejected) c where "find_unique_conflict
        (mem_collection st (up_namespace op) (up_collection op)) (up_unique_indexes op)
        (JObj (merged_data (rec_data (the (mem_view st (collection_key (up_namespace op) (up_collection op)) (up_id op))))
           (up_patch op) (up_id op))) (Some (up_id op)) = Some c"
      "memory_update persist st op = (Err (unique_conflict_error (uc_index c) (uc_values c)), st)"
  | (updated) collection old st' where
      "mem_collection st (up_namespace op) (up_collection op) = Some collection"
      "bt_get collection (up_id op) = Some old"
      "find_unique_conflict (Some collection) (up_unique_indexes op)
         (rec_data (patched_record old (up_patch op) (up_id op))) (Some (up_id op)) = None"
      "st' = st\<lparr>collections := bt_insert (collection_key (up_namespace op) (up_collection op))
         (bt_insert (up_id op) (patched_record old (up_patch op) (up_id op)) collection) (collections st)\<rparr>"
      "memory_update persist st op =
         (case persist st' of Err e \<Rightarrow> (Err e, st')
          | Ok _ \<Rightarrow> (Ok (patched_record old (up_patch op) (up_id op)), st'))"
proof (cases "mem_collection st (up_namespace op) (up_collection op)")
  case None
  then show ?thesis using that(1) by (simp add: memory_update_def mem_view_def)
next
  case (Some collection)
  note coll = this
  show ?thesis
  proof (cases "bt_get collection (up_id op)")
    case None
    then show ?thesis using that(1) coll by (simp add: memory_update_def mem_view_def)
  next
    case (Some old)
    show ?thesis
    proof (cases "find_unique_conflict (Some collection) (up_unique_indexes op)
        (JObj (merged_data (rec_data old) (up_patch op) (up_id op))) (Some (up_id op))")
      case None
      show ?thesis
        by (rule that(3) [OF coll Some _ refl])
          (simp_all add: None coll Some memory_update_def patched_record_def Let_def split: sum.split)
    next
      case (Some c)
      then show ?thesis
        using coll \<open>bt_get collection (up_id op) = Some old\<close>
        by (intro that(2) [of c]) (simp_all add: memory_update_def mem_view_def Let_def)
    qed
  qed
qed

lemma updated_view:
  assumes "mem_collection st ns c = Some collection"
    and "st' = st\<lparr>collections := bt_insert (collection_key ns c) (bt_insert i r collection) (collections st)\<rparr>"
  shows "mem_view st' = (mem_view st)(collection_key ns c := (mem_view st (collection_key ns c))(i \<mapsto> r))"
    and "mem_wf st \<Longrightarrow> rec_id r = i \<Longrightarrow> mem_wf st'"
  using assms by (simp_all add: mem_view_put bt_get_insert_fun mem_view_collection
      mem_wf_put collection_wf_insert [OF mem_wf_get])

lemma patched_record_id [simp]: "rec_id (patched_record r p i) = rec_id r"
  by (simp add: patched_record_def)

lemma memory_delete_view:
  assumes "memory_delete persist st op = (res, st')"
  shows "mem_view st' = (mem_view st)(collection_key (del_namespace op) (del_collection op) :=
      (mem_view st (collection_key (del_namespace op) (del_collection op)))(del_id op := None))"
    and "mem_wf st \<Longrightarrow> mem_wf st'"
    and "persist = (\<lambda>_. Ok ()) \<Longrightarrow>
      res = Ok (mem_view st (collection_key (del_namespace op) (del_collection op)) (del_id op) \<noteq> None)"
proof -
  let ?key = "collection_key (del_namespace op) (del_collection op)"
  have "mem_view st' = (mem_view st)(?key := (mem_view st ?key)(del_id op := None)) \<and>
      (mem_wf st \<longrightarrow> mem_wf st') \<and>
      (persist = (\<lambda>_. Ok ()) \<longrightarrow> res = Ok (mem_view st ?key (del_id op) \<noteq> None))"
  proof (cases "bt_get (collections st) ?key")
    case None
    with assms have "st' = st" "persist = (\<lambda>_. Ok ()) \<longrightarrow> res = Ok False"
      by (auto simp: memory_delete_def Let_def split: sum.splits)
    then show ?thesis by (simp add: mem_view_no_collection [OF None] fun_eq_iff)
  next
    case (Some c)
    with assms have "st' = st\<lparr>collections := bt_insert ?key (bt_remove (del_id op) c) (collections st)\<rparr>"
      "persist = (\<lambda>_. Ok ()) \<longrightarrow> res = Ok (bt_get c (del_id op) \<noteq> None)"
      by (auto simp: memory_delete_def Let_def split: sum.splits)
    then show ?thesis
      using Some by (simp add: mem_view_put bt_get_remove_fun mem_view_collection
          mem_wf_put collection_wf_remove [OF mem_wf_get])
  qed
  then show "mem_view st' = (mem_view st)(?key := (mem_view st ?key)(del_id op := None))"
    "mem_wf st \<Longrightarrow> mem_wf st'"
    "persist = (\<lambda>_. Ok ()) \<Longrightarrow> res = Ok (mem_view st ?key (del_id op) \<noteq> None)" by blast+
qed

lemma collection_values:
  assumes "collection_wf c"
  shows "set (bt_values c) = ran (bt_get c)" and "map rec_id (bt_values c) = map fst c"
    and "distinct (bt_values c)"
proof -
  show "set (bt_values c) = ran (bt_get c)"
    using assms by (intro set_bt_values) (simp add: collection_wf_def)
  show ids: "map rec_id (bt_values c) = map fst c"
    using assms by (auto simp: bt_values_def collection_wf_def list_all_iff)
  have "distinct (map rec_id (bt_values c))"
    unfolding ids using assms by (simp add: collection_wf_def bt_wf_distinct)
  then show "distinct (bt_values c)" by (simp add: distinct_map)
qed

lemma memory_query_records:
  assumes "mem_wf st"
  obtains rs where "memory_query to_string st q = Ok rs" "distinct rs"
    "set rs = {r \<in> ran (mem_view st (collection_key (q_namespace q) (q_collection q))).
                 matches_filter (rec_data r) (object_clone (q_filter q))}"
proof (cases "mem_collection st (q_namespace q) (q_collection q)")
  case None
  then show ?thesis using that [of "[]"] by (simp add: memory_query_def mem_view_no_collection)
next
  case (Some c)
  have wf: "collection_wf c" using assms Some by (rule mem_wf_get)
  let ?f = "filter (\<lambda>r. matches_filter (rec_data r) (object_clone (q_filter q))) (bt_values c)"
  let ?rs = "if q_order_by q = [] then sort_by (\<lambda>l r. cmp (rec_id l) (rec_id r)) ?f
             else sort_by (compare_records to_string (q_order_by q)) ?f"
  show ?thesis
  proof (rule that)
    show "memory_query to_string st q = Ok ?rs" using Some by (simp add: memory_query_def Let_def)
    show "distinct ?rs" using collection_values(3) [OF wf] by simp
    show "set ?rs = {r \<in> ran (mem_view st (collection_key (q_namespace q) (q_collection q))).
        matches_filter (rec_data r) (object_clone (q_filter q))}"
      using collection_values(1) [OF wf] by (auto simp: mem_view_collection [OF Some])
  qed
qed

section \<open>The contract\<close>

abbreviation no_persist :: "memory_state \<Rightarrow> unit sorx_result" where
  "no_persist \<equiv> (\<lambda>_. Ok ())"

lemma memory_store_sel [simp]:
  "sp_create (memory_store t p) = memory_create p" "sp_get (memory_store t p) = memory_get"
  "sp_update (memory_store t p) = memory_update p" "sp_query (memory_store t p) = memory_query t"
  "sp_delete (memory_store t p) = memory_delete p"
  "cst_append_event (memory_store t p) = memory_append_event p"
  by (simp_all add: memory_store_def)

lemma memory_create_law:
  assumes "memory_create no_persist st c = (res, st')"
  shows "case res of
           Err e \<Rightarrow> st' = st
         | Ok r \<Rightarrow> st' = st \<or>
             rec_data r = JObj (bt_insert ''id'' (JStr (rec_id r)) (object_clone (cr_input c))) \<and>
             mem_view st' = (mem_view st)(collection_key (cr_namespace c) (cr_collection c) :=
               (mem_view st (collection_key (cr_namespace c) (cr_collection c)))(rec_id r \<mapsto> r))"
    and "mem_wf st \<Longrightarrow> mem_wf st'"
proof -
  have "(case res of
           Err e \<Rightarrow> st' = st
         | Ok r \<Rightarrow> st' = st \<or>
             rec_data r = JObj (bt_insert ''id'' (JStr (rec_id r)) (object_clone (cr_input c))) \<and>
             mem_view st' = (mem_view st)(collection_key (cr_namespace c) (cr_collection c) :=
               (mem_view st (collection_key (cr_namespace c) (cr_collection c)))(rec_id r \<mapsto> r))) \<and>
      (mem_wf st \<longrightarrow> mem_wf st')"
  proof (cases rule: memory_create_cases [of c st no_persist])
    case created
    then show ?thesis using assms by (auto simp: created_state_view create_data_def)
  qed (use assms in auto)
  then show "case res of
           Err e \<Rightarrow> st' = st
         | Ok r \<Rightarrow> st' = st \<or>
             rec_data r = JObj (bt_insert ''id'' (JStr (rec_id r)) (object_clone (cr_input c))) \<and>
             mem_view st' = (mem_view st)(collection_key (cr_namespace c) (cr_collection c) :=
               (mem_view st (collection_key (cr_namespace c) (cr_collection c)))(rec_id r \<mapsto> r))"
    "mem_wf st \<Longrightarrow> mem_wf st'" by blast+
qed

lemma mem_view_id: "mem_wf st \<Longrightarrow> mem_view st key i = Some r \<Longrightarrow> rec_id r = i"
  by (auto simp: mem_view_def collection_wf_def bind_eq_Some_conv dest!: mem_wf_get
      dest: bt_get_list_all [where P = "\<lambda>i r. rec_id r = i"])

lemma memory_update_law:
  assumes "memory_update no_persist st u = (res, st')" and "mem_wf st"
  shows "(case res of
           Err e \<Rightarrow> st' = st
         | Ok r \<Rightarrow> (\<exists>old. mem_view st (collection_key (up_namespace u) (up_collection u)) (up_id u) = Some old \<and>
                      r = patched_record old (up_patch u) (up_id u) \<and>
                      mem_view st' = (mem_view st)(collection_key (up_namespace u) (up_collection u) :=
                        (mem_view st (collection_key (up_namespace u) (up_collection u)))(up_id u \<mapsto> r)))) \<and>
      mem_wf st'"
proof (cases rule: memory_update_cases [of st u no_persist])
  case (updated collection old st'')
  have old: "mem_view st (collection_key (up_namespace u) (up_collection u)) (up_id u) = Some old"
    using updated(1,2) by (simp add: mem_view_def)
  have "rec_id old = up_id u" using mem_view_id [OF assms(2) old] .
  then show ?thesis
    using assms updated(5) old updated_view [OF updated(1,4)] by auto
qed (use assms in auto)

interpretation mem: sor_store "memory_store to_string no_persist" collection_key mem_view mem_wf for to_string
proof unfold_locales
  fix s s' :: memory_state and g q c d u res del a i r
  assume wf: "mem_wf s"
  show "sp_get (memory_store to_string no_persist) s g =
      Ok (mem_view s (collection_key (g_namespace g) (g_collection g)) (g_id g))"
    by (simp add: memory_get_def mem_view_def)
  show "\<exists>rs. sp_query (memory_store to_string no_persist) s q = Ok rs \<and> distinct rs \<and>
      set rs = {r \<in> ran (mem_view s (collection_key (q_namespace q) (q_collection q))).
                  matches_filter (rec_data r) (object_clone (q_filter q))}"
    using memory_query_records [OF wf, of to_string q] by (metis memory_store_sel(4))
  show "mem_wf (snd (sp_create (memory_store to_string no_persist) s c))"
    using memory_create_law(2) [OF prod.collapse [symmetric] wf] by simp
  show "mem_wf (snd (sp_update (memory_store to_string no_persist) s u))"
    using memory_update_law [OF prod.collapse [symmetric] wf] by simp
  show "mem_wf (snd (sp_delete (memory_store to_string no_persist) s d))"
    using memory_delete_view(2) [OF prod.collapse [symmetric] wf] by simp
  show "mem_view s a i = Some r \<Longrightarrow> rec_id r = i" using wf by (rule mem_view_id)
  show "up_unique_indexes u = [] \<Longrightarrow>
      mem_view s (collection_key (up_namespace u) (up_collection u)) (up_id u) \<noteq> None \<Longrightarrow>
      \<exists>r s'. sp_update (memory_store to_string no_persist) s u = (Ok r, s')"
    by (cases rule: memory_update_cases [of s u no_persist])
      (auto simp: find_unique_conflict_def split: option.splits)
next
  fix s s' :: memory_state and c and res
  assume "mem_wf s" "sp_create (memory_store to_string no_persist) s c = (res, s')"
  then show "case res of
           Err e \<Rightarrow> s' = s
         | Ok r \<Rightarrow> s' = s \<or>
             rec_data r = JObj (bt_insert ''id'' (JStr (rec_id r)) (object_clone (cr_input c))) \<and>
             mem_view s' = (mem_view s)(collection_key (cr_namespace c) (cr_collection c) :=
               (mem_view s (collection_key (cr_namespace c) (cr_collection c)))(rec_id r \<mapsto> r))"
    using memory_create_law(1) by simp
next
  fix s s' :: memory_state and u and res
  assume "mem_wf s" "sp_update (memory_store to_string no_persist) s u = (res, s')"
  then show "case res of
           Err e \<Rightarrow> s' = s
         | Ok r \<Rightarrow> (\<exists>old. mem_view s (collection_key (up_namespace u) (up_collection u)) (up_id u) = Some old \<and>
                      r = patched_record old (up_patch u) (up_id u) \<and>
                      mem_view s' = (mem_view s)(collection_key (up_namespace u) (up_collection u) :=
                        (mem_view s (collection_key (up_namespace u) (up_collection u)))(up_id u \<mapsto> r)))"
    using memory_update_law by simp
next
  fix s s' :: memory_state and d and del
  assume "mem_wf s" "sp_delete (memory_store to_string no_persist) s d = (del, s')"
  then show "del = Ok (mem_view s (collection_key (del_namespace d) (del_collection d)) (del_id d) \<noteq> None) \<and>
        mem_view s' = (mem_view s)(collection_key (del_namespace d) (del_collection d) :=
          (mem_view s (collection_key (del_namespace d) (del_collection d)))(del_id d := None))"
    using memory_delete_view(1,3) by simp
qed

end
