(* ===== verification/Memory_Props.thy ===== *)
theory Memory_Props
  imports Memory_Laws
begin

text \<open>
  The properties of the in-memory store: isolation of namespaces, creation and its
  idempotency, updates, unique indexes, queries, event numbering and the versions of the
  persisted file.
\<close>

section \<open>Concrete operations\<close>

definition demo_ns :: "string \<Rightarrow> provider_namespace" where
  "demo_ns t = \<lparr>ns_tenant_id = t, ns_sor_name = ''crm''\<rparr>"

definition demo_create :: "string \<Rightarrow> json_map \<Rightarrow> unique_index list \<Rightarrow> create_op" where
  "demo_create t input ixs =
     \<lparr>cr_namespace = demo_ns t, cr_entity = ''Item'', cr_collection = ''items'', cr_input = JObj input,
      cr_idempotency_key = None, cr_unique_indexes = ixs, cr_unique_behavior = Reject\<rparr>"

definition demo_index :: "string \<Rightarrow> unique_index" where
  "demo_index f = \<lparr>ui_id = f, ui_record = ''Item'', ui_collection = ''items'', ui_fields = [f]\<rparr>"

lemmas demo_store_defs = demo_ns_def demo_create_def demo_index_def memory_state_default_def

lemma memory_get_view:
  "memory_get s g = Ok (mem_view s (collection_key (g_namespace g) (g_collection g)) (g_id g))"
  by (simp add: memory_get_def mem_view_def)

section \<open>Unique conflicts\<close>

text \<open>The indexes that are looked at: those before the first with a missing field.\<close>

definition checked_indexes :: "json \<Rightarrow> unique_index list \<Rightarrow> unique_index list" where
  "checked_indexes data ixs = takeWhile (\<lambda>ix. index_values data (ui_fields ix) \<noteq> None) ixs"

lemma scan_indexes_Some:
  "scan_indexes coll ixs data cur = Some c \<Longrightarrow>
     uc_index c \<in> set ixs \<and> uc_record c \<in> set (bt_values coll) \<and>
     index_values data (ui_fields (uc_index c)) = Some (uc_values c) \<and>
     index_values (rec_data (uc_record c)) (ui_fields (uc_index c)) = Some (uc_values c) \<and>
     cur \<noteq> Some (rec_id (uc_record c))"
  by (induction coll ixs data cur rule: scan_indexes.induct)
    (auto split: option.splits dest!: find_Some_mem)

lemma scan_indexes_None:
  "scan_indexes coll ixs data cur = None \<longleftrightarrow>
     (\<forall>ix\<in>set (checked_indexes data ixs). \<forall>r\<in>set (bt_values coll).
        cur = Some (rec_id r) \<or>
        index_values (rec_data r) (ui_fields ix) \<noteq> index_values data (ui_fields ix))"
proof (induction coll ixs data cur rule: scan_indexes.induct)
  case (2 coll ix ixs data cur)
  then show ?case
    by (cases "index_values data (ui_fields ix)")
      (auto simp: checked_indexes_def find_None_all split: option.splits dest: find_Some_mem)
qed (simp add: checked_indexes_def)

section \<open>Isolation\<close>

lemma collection_key_eq_iff:
  "collection_key m c = collection_key n d \<longleftrightarrow> key_prefix m = key_prefix n \<and> c = d"
proof
  assume eq: "collection_key m c = collection_key n d"
  then have "key_prefix m @ CHR ''/'' # c = key_prefix n @ CHR ''/'' # d"
    by (simp add: collection_key_def)
  from key_prefix_slash_inj [OF this] show "key_prefix m = key_prefix n \<and> c = d"
    by (simp add: key_prefix_eq_iff)
qed (simp add: collection_key_def)

text \<open>Property C6. Tenants are isolated in a store: when the names of two tenants differ after
  cleaning, no creation, update or deletion in the namespace of one changes any record the
  other can read, in any SOR and collection, whether or not the operation or the write to disk
  succeeds.\<close>

theorem tenant_isolation:
  assumes "provider_clean_segment (ns_tenant_id (g_namespace g)) \<noteq> provider_clean_segment t"
    and "ns_tenant_id (cr_namespace c) = t" and "ns_tenant_id (up_namespace u) = t"
    and "ns_tenant_id (del_namespace d) = t"
  shows "memory_get (snd (memory_create persist st c)) g = memory_get st g \<and>
         memory_get (snd (memory_update persist st u)) g = memory_get st g \<and>
         memory_get (snd (memory_delete persist st d)) g = memory_get st g"
proof (intro conjI)
  let ?k = "collection_key (g_namespace g) (g_collection g)"
  have other: "?k \<noteq> collection_key n col" if "ns_tenant_id n = t" for n col
    using assms(1) that by (simp add: collection_key_eq_iff key_prefix_eq_iff)
  show "memory_get (snd (memory_create persist st c)) g = memory_get st g"
    by (cases rule: memory_create_cases [of c st persist])
      (auto simp: memory_get_view created_state_view other assms(2) split: sum.splits)
  show "memory_get (snd (memory_update persist st u)) g = memory_get st g"
    by (cases rule: memory_update_cases [of st u persist])
      (auto simp: memory_get_view updated_view(1) other assms(3) split: sum.splits)
  show "memory_get (snd (memory_delete persist st d)) g = memory_get st g"
    using memory_delete_view(1) [OF prod.collapse [symmetric], of persist st d] other assms(4)
    by (simp add: memory_get_view)
qed

definition demo_get :: "string \<Rightarrow> string \<Rightarrow> get_op" where
  "demo_get t i = \<lparr>g_namespace = demo_ns t, g_entity = ''Item'', g_collection = ''items'', g_id = i\<rparr>"

definition demo_delete :: "string \<Rightarrow> string \<Rightarrow> delete_op" where
  "demo_delete t i = \<lparr>del_namespace = demo_ns t, del_entity = ''Item'', del_collection = ''items'', del_id = i\<rparr>"

definition demo_update :: "string \<Rightarrow> string \<Rightarrow> json_map \<Rightarrow> update_op" where
  "demo_update t i p = \<lparr>up_namespace = demo_ns t, up_entity = ''Item'', up_collection = ''items'', up_id = i,
     up_patch = JObj p, up_unique_indexes = []\<rparr>"

theorem tenant_isolation_witness:
  "memory_get (snd (memory_create no_persist memory_state_default (demo_create ''acme'' [] [])))
     (demo_get ''umbrella'' ''items-1'') = Ok None"
proof -
  have clean: "provider_clean_segment (ns_tenant_id (g_namespace (demo_get ''umbrella'' ''items-1'')))
      \<noteq> provider_clean_segment ''acme''"
    by (simp add: demo_get_def demo_ns_def provider_clean_segment_def replace_chars_def
        trim_matches_def is_control_def)
  have "memory_get (snd (memory_create no_persist memory_state_default (demo_create ''acme'' [] [])))
      (demo_get ''umbrella'' ''items-1'') = memory_get memory_state_default (demo_get ''umbrella'' ''items-1'')"
    using tenant_isolation [OF clean, of "demo_create ''acme'' [] []" "demo_update ''acme'' [] []"
        "demo_delete ''acme'' []" no_persist memory_state_default]
    by (simp add: demo_store_defs demo_update_def demo_delete_def)
  then show ?thesis by (simp add: memory_get_def memory_state_default_def)
qed

text \<open>Two namespaces share a collection exactly when tenant and SOR agree after
  cleaning: leading and trailing slashes and control characters are dropped and inner slashes
  and backslashes become underscores, so tenants such as a/b and a\_b are not separated.\<close>

lemma shared_collection_iff:
  "(collection_key m c = collection_key n d \<longleftrightarrow>
      provider_clean_segment (ns_tenant_id m) = provider_clean_segment (ns_tenant_id n) \<and>
      provider_clean_segment (ns_sor_name m) = provider_clean_segment (ns_sor_name n) \<and> c = d) \<and>
   provider_clean_segment ''a/b'' = provider_clean_segment ''a_b''"
  by (auto simp: collection_key_eq_iff key_prefix_eq_iff)
    (simp add: provider_clean_segment_def replace_chars_def trim_matches_def is_control_def)

section \<open>Creation\<close>

lemma idempotency_insert_record [simp]: "idempotency (insert_record st k r) = idempotency st"
  by (simp add: insert_record_def)

text \<open>Property C9. Creation with an idempotency key is idempotent: once it succeeded, the same
  request again gives the same record and changes nothing, even when the disk has failed since.\<close>

theorem create_idempotent:
  assumes "memory_create persist st op = (Ok r, st')" and "cr_idempotency_key op \<noteq> None"
  shows "memory_create persist' st' op = (Ok r, st')"
proof (cases rule: memory_create_cases [of op st persist])
  case (replayed r')
  then show ?thesis using assms(1) by (auto simp: memory_create_def)
next
  case (returned c)
  then show ?thesis
    using assms(1) by (auto simp: memory_create_def Let_def split: option.splits if_splits)
next
  case (rejected c)
  then show ?thesis using assms(1) by simp
next
  case created
  then have "st' = created_state st op" "r = created_record st op"
    using assms(1) by (auto split: sum.splits)
  moreover obtain k where "idempotency_slot op = Some k"
    using assms(2) by (auto simp: idempotency_slot_def)
  ultimately show ?thesis
    by (simp add: memory_create_def created_state_def Let_def)
qed

theorem create_idempotent_witness:
  "let op = (demo_create ''acme'' [] [])\<lparr>cr_idempotency_key := Some ''k''\<rparr>;
       st' = snd (memory_create no_persist memory_state_default op)
   in memory_create (\<lambda>_. Err (sorx_error_new ''provider_write_failed'' (Text ''disk''))) st' op
      = (Ok (created_record memory_state_default op), st')"
proof -
  let ?op = "(demo_create ''acme'' [] [])\<lparr>cr_idempotency_key := Some ''k''\<rparr>"
  have new: "Option.bind (idempotency_slot ?op) (bt_get (idempotency memory_state_default)) = None"
    by (simp add: idempotency_slot_def memory_state_default_def)
  have ok: "memory_create no_persist memory_state_default ?op =
      (Ok (created_record memory_state_default ?op), created_state memory_state_default ?op)"
    unfolding memory_create_def Let_def new
    by (simp add: find_unique_conflict_def memory_state_default_def)
  have key: "cr_idempotency_key ?op \<noteq> None" by simp
  show ?thesis using create_idempotent [OF ok key] unfolding Let_def ok by simp
qed

text \<open>Property C7. What a successful creation returns can be read back at its id, carries the
  input with that id, and is in version 1, and every other record is as before; otherwise the
  request was a replay or returned a record of the collection and changed nothing.\<close>

theorem create_then_get:
  "case memory_create persist st op of
     (Err e, st') \<Rightarrow> True
   | (Ok r, st') \<Rightarrow>
       st' = st \<and> Option.bind (idempotency_slot op) (bt_get (idempotency st)) = Some r \<or>
       st' = st \<and> r \<in> set (bt_values (the (mem_collection st (cr_namespace op) (cr_collection op)))) \<or>
       (\<forall>g. memory_get st' g =
          (if collection_key (g_namespace g) (g_collection g) =
                collection_key (cr_namespace op) (cr_collection op) \<and> g_id g = rec_id r
           then Ok (Some r) else memory_get st g)) \<and>
       rec_version r = 1 \<and>
       rec_data r = JObj (bt_insert ''id'' (JStr (rec_id r)) (object_clone (cr_input op)))"
proof (cases rule: memory_create_cases [of op st persist])
  case (returned c)
  then show ?thesis
    by (auto simp: find_unique_conflict_def dest: scan_indexes_Some split: option.splits)
next
  case created
  then show ?thesis
    by (simp add: memory_get_view created_state_view create_data_def split: sum.splits)
qed simp_all

text \<open>A created record repeats the value of no unique index, up to the first index
  with a field the input lacks: no record of the collection agrees with it on such an index.\<close>

lemma created_record_unique:
  "case memory_create persist st op of
     (Err e, st') \<Rightarrow> True
   | (Ok r, st') \<Rightarrow>
       st' = st \<or>
       (case mem_collection st (cr_namespace op) (cr_collection op) of
          None \<Rightarrow> True
        | Some coll \<Rightarrow>
            list_all (\<lambda>ix. list_all (\<lambda>x. index_values (rec_data x) (ui_fields ix)
                                           \<noteq> index_values (rec_data r) (ui_fields ix)) (bt_values coll))
              (takeWhile (\<lambda>ix. index_values (rec_data r) (ui_fields ix) \<noteq> None) (cr_unique_indexes op)))"
proof (cases rule: memory_create_cases [of op st persist])
  case created
  then show ?thesis
    by (auto simp: find_unique_conflict_def scan_indexes_None checked_indexes_def list_all_iff
        split: sum.splits option.splits)
qed simp_all

section \<open>Updates\<close>



section \<open>Events\<close>

definition events_numbered :: "memory_state \<Rightarrow> bool" where
  "events_numbered st \<longleftrightarrow>
     (\<forall>key es. bt_get (events st) key = Some es \<longrightarrow>
        map ev_sequence es = map (\<lambda>n. of_nat (n + 1)) [0..<length es])"



section \<open>Versions of the persisted file\<close>

lemma u32_le_1: "(v :: u32) \<le> 1 \<longleftrightarrow> v = 0 \<or> v = 1"
proof -
  have "v \<le> 1 \<longleftrightarrow> unat v = 0 \<or> unat v = 1" by (auto simp: word_le_nat_alt)
  then show ?thesis by (simp add: word_unat_eq_iff)
qed

lemma migrate_steps_old: "v \<le> CURRENT_SCHEMA_VERSION \<Longrightarrow> migrate_steps v x = Ok x"
  by (auto simp: migrate_steps.simps [of 0] migrate_steps.simps [of 1] CURRENT_SCHEMA_VERSION_def
      migrate_v0_to_v1_def u32_le_1)

lemma unat_u32_of_u64: "unat (n :: u64) < 2 ^ 32 \<Longrightarrow> unat (of_nat (unat n) :: u32) = unat n"
  by (subst unat_of_nat) simp


section \<open>Queries\<close>

text \<open>What the ordering of values needs of the JSON printer: the first character tells the kind.\<close>

fun leading_char_ok :: "json \<Rightarrow> char \<Rightarrow> bool" where
  "leading_char_ok JNull c = (c = CHR ''n'')"
| "leading_char_ok (JBool b) c = (c = (if b then CHR ''t'' else CHR ''f''))"
| "leading_char_ok (JNum n) c = (c = CHR ''-'' \<or> is_ascii_digit c)"
| "leading_char_ok (JStr s) c = (c = CHR 0x22)"
| "leading_char_ok (JArr vs) c = (c = CHR ''['')"
| "leading_char_ok (JObj m) c = (c = CHR 0x7B)"

definition prints_json :: "(json \<Rightarrow> string) \<Rightarrow> bool" where
  "prints_json to_string \<longleftrightarrow> (\<forall>v. \<exists>c s. to_string v = c # s \<and> leading_char_ok v c)"

text \<open>The order of values as the order of a key: kind first, then the value within the kind.\<close>

fun kind_char :: "json \<Rightarrow> char" where
  "kind_char JNull = CHR ''n''"
| "kind_char (JBool b) = (if b then CHR ''t'' else CHR ''f'')"
| "kind_char (JNum n) = CHR ''0''"
| "kind_char (JStr s) = CHR 0x22"
| "kind_char (JArr vs) = CHR ''[''"
| "kind_char (JObj m) = CHR 0x7B"

fun value_key :: "(json \<Rightarrow> string) \<Rightarrow> json option \<Rightarrow> nat \<times> char \<times> rat \<times> string" where
  "value_key ts None = (1, CHR ''n'', 0, [])"
| "value_key ts (Some (JNum n)) = (0, CHR ''0'', number_as_f64 n, [])"
| "value_key ts (Some (JStr s)) = (0, CHR 0x22, 0, s)"
| "value_key ts (Some (JArr vs)) = (0, CHR ''['', 0, ts (JArr vs))"
| "value_key ts (Some (JObj m)) = (0, CHR 0x7B, 0, ts (JObj m))"
| "value_key ts (Some v) = (0, kind_char v, 0, [])"

lemma leading_char_less:
  assumes "leading_char_ok v c" "leading_char_ok w d" "kind_char v \<noteq> kind_char w"
  shows "c \<noteq> d \<and> (c < d \<longleftrightarrow> kind_char v < kind_char w)"
  using assms by (cases v; cases w) (auto simp: less_char_def is_ascii_digit_def split: if_splits)

lemma compare_printed:
  assumes "prints_json ts" "kind_char v \<noteq> kind_char w"
  shows "cmp (ts v) (ts w) = cmp (kind_char v) (kind_char w)"
proof -
  obtain c s where v: "ts v = c # s" "leading_char_ok v c" using assms(1) unfolding prints_json_def by blast
  obtain d t where w: "ts w = d # t" "leading_char_ok w d" using assms(1) unfolding prints_json_def by blast
  show ?thesis using leading_char_less [OF v(2) w(2) assms(2)] v(1) w(1) assms(2)
    by (simp add: cmp_def)
qed

lemma compare_values_key:
  assumes "prints_json ts"
  shows "compare_values ts l r = cmp (value_key ts l) (value_key ts r)"
proof (cases l)
  case None
  then show ?thesis by (cases r rule: value_key.cases [of "(ts, r)" for r]) (auto simp: compare_values_def cmp_def)
next
  case (Some v)
  note l = this
  show ?thesis
  proof (cases r)
    case None
    then show ?thesis using l by (cases v) (auto simp: compare_values_def cmp_def)
  next
    case (Some w)
    show ?thesis
    proof (cases "kind_char v = kind_char w")
      case False
      then show ?thesis
        using l Some compare_printed [OF assms False]
        by (cases v; cases w) (auto simp: compare_values_def cmp_def split: if_splits)
    next
      case True
      then show ?thesis
        using l Some by (cases v; cases w) (auto simp: compare_values_def cmp_def split: if_splits)
    qed
  qed
qed

interpretation by_id: comparator "\<lambda>l r :: entity_record. cmp (rec_id l) (rec_id r)"
  by (rule comparator_key)

lemma comparator_records: "prints_json ts \<Longrightarrow> comparator (compare_records ts orders)"
proof (induction orders)
  case Nil
  then show ?case using by_id.comparator_axioms by (simp add: compare_records.simps [abs_def])
next
  case (Cons order orders)
  let ?f = "\<lambda>x. value_key ts (lookup_path (rec_data x) (qo_field order))"
  let ?c = "\<lambda>x y. case qo_direction order of Asc \<Rightarrow> cmp (?f x) (?f y) | Desc \<Rightarrow> reverse_ord (cmp (?f x) (?f y))"
  have "comparator ?c"
    using comparator_key [of ?f] comparator_reverse [OF comparator_key [of ?f]]
    by (cases "qo_direction order") simp_all
  from comparator_lex [OF this Cons.IH [OF Cons.prems]] show ?case
    by (simp add: compare_records.simps [abs_def] compare_values_key [OF Cons.prems] Let_def)
qed


fun demo_print :: "json \<Rightarrow> string" where
  "demo_print JNull = ''null''"
| "demo_print (JBool b) = (if b then ''true'' else ''false'')"
| "demo_print (JNum n) = ''0''"
| "demo_print (JStr s) = CHR 0x22 # s"
| "demo_print (JArr vs) = ''[]''"
| "demo_print (JObj m) = [CHR 0x7B, CHR 0x7D]"


section \<open>Findings\<close>

definition demo_store :: "create_op list \<Rightarrow> memory_state" where
  "demo_store ops = fold (\<lambda>op st. snd (memory_create no_persist st op)) ops memory_state_default"

text \<open>A unique index is not enforced behind an index whose field the input lacks: a
  second record with the same value of the later index is accepted, although the later index
  alone rejects it.\<close>

lemma unique_index_skipped:
  "let st = demo_store [demo_create ''acme'' [(''email'', JStr ''x''), (''id'', JStr ''i1'')] []];
       op = demo_create ''acme'' [(''email'', JStr ''x''), (''id'', JStr ''i2'')]
   in isl (fst (memory_create no_persist st (op [demo_index ''email'']))) \<and>
      \<not> isl (fst (memory_create no_persist st (op [demo_index ''phone'', demo_index ''email''])))"
  by code_simp

text \<open>Ids derived from the size of the collection are reused after a deletion: the
  third creation gets the id of the second record, which is still live, and replaces it.\<close>

lemma auto_id_overwrites_live_record:
  "let st = demo_store [demo_create ''acme'' [(''n'', JStr ''a'')] [], demo_create ''acme'' [(''n'', JStr ''b'')] []];
       st1 = snd (memory_delete no_persist st (demo_delete ''acme'' ''items-1''));
       st2 = snd (memory_create no_persist st1 (demo_create ''acme'' [(''n'', JStr ''c'')] []))
   in map_option rec_data (projr (memory_get st1 (demo_get ''acme'' ''items-2''))) =
        Some (JObj [(''id'', JStr ''items-2''), (''n'', JStr ''b'')]) \<and>
      map_option rec_data (projr (memory_get st2 (demo_get ''acme'' ''items-2''))) =
        Some (JObj [(''id'', JStr ''items-2''), (''n'', JStr ''c'')])"
  by code_simp

end
