(* ===== verification/Migration.thy ===== *)
theory Migration
  imports Deployment Provider
begin

text \<open>
  Running the migrations of a pack: \<^verbatim>\<open>migration/runner.rs\<close>, \<^verbatim>\<open>migration/orchestrate.rs\<close> and
  the file ledger of \<^verbatim>\<open>migration/ledger.rs\<close>. The store is any \<^typ>\<open>'s store_provider\<close>, the
  ledger any record of its two methods.
\<close>

section \<open>The runner\<close>

datatype migration_outcome =
    Applied string nat
  | Skipped string
  | RefusedBreaking string

fun outcome_id :: "migration_outcome \<Rightarrow> string" where
  "outcome_id (Applied i n) = i"
| "outcome_id (Skipped i) = i"
| "outcome_id (RefusedBreaking i) = i"

datatype migration_run_error = BackfillFailed sorx_error

definition display_run_error :: "migration_run_error \<Rightarrow> message" where
  "display_run_error e = (case e of BackfillFailed x \<Rightarrow> Around ''backfill failed: '' (display_error x) [])"

definition backfill_update ::
  "provider_namespace \<Rightarrow> migration_backfill \<Rightarrow> entity_record \<Rightarrow> update_op" where
  "backfill_update ns bf r =
     \<lparr>up_namespace = ns, up_entity = bf_record bf, up_collection = default_collection_name (bf_record bf),
      up_id = rec_id r, up_patch = JObj [(bf_field bf, bf_default bf)], up_unique_indexes = []\<rparr>"

fun backfill_records ::
  "('s, 'z) store_provider_scheme \<Rightarrow> provider_namespace \<Rightarrow> migration_backfill \<Rightarrow>
   entity_record list \<Rightarrow> nat \<Rightarrow> 's \<Rightarrow> nat sorx_result \<times> 's" where
  "backfill_records store ns bf [] count s = (Ok count, s)"
| "backfill_records store ns bf (r # rs) count s =
     (if jget (rec_data r) (bf_field bf) = None
      then (case sp_update store s (backfill_update ns bf r) of
              (Err e, s') \<Rightarrow> (Err e, s')
            | (Ok _, s') \<Rightarrow> backfill_records store ns bf rs (count + 1) s')
      else backfill_records store ns bf rs count s)"

definition backfill_query :: "provider_namespace \<Rightarrow> migration_backfill \<Rightarrow> query_op" where
  "backfill_query ns bf =
     \<lparr>q_namespace = ns, q_entity = bf_record bf, q_collection = default_collection_name (bf_record bf),
      q_filter = JObj [], q_order_by = []\<rparr>"

definition apply_backfill ::
  "('s, 'z) store_provider_scheme \<Rightarrow> provider_namespace \<Rightarrow> migration_backfill \<Rightarrow> 's \<Rightarrow>
   nat sorx_result \<times> 's" where
  "apply_backfill store ns bf s =
     (case sp_query store s (backfill_query ns bf) of
        Err e \<Rightarrow> (Err e, s)
      | Ok rs \<Rightarrow> backfill_records store ns bf rs 0 s)"

fun apply_backfills ::
  "('s, 'z) store_provider_scheme \<Rightarrow> provider_namespace \<Rightarrow> migration_backfill list \<Rightarrow> nat \<Rightarrow> 's \<Rightarrow>
   (migration_run_error, nat) result \<times> 's" where
  "apply_backfills store ns [] n s = (Ok n, s)"
| "apply_backfills store ns (bf # bfs) n s =
     (case apply_backfill store ns bf s of
        (Err e, s') \<Rightarrow> (Err (BackfillFailed e), s')
      | (Ok k, s') \<Rightarrow> apply_backfills store ns bfs (n + k) s')"

definition run_one ::
  "('s, 'z) store_provider_scheme \<Rightarrow> provider_namespace \<Rightarrow> bool \<Rightarrow> compatibility_migration \<Rightarrow>
   applied_migrations \<Rightarrow> 's \<Rightarrow>
   (migration_run_error, migration_outcome) result \<times> applied_migrations \<times> 's" where
  "run_one store ns confirm_breaking m ap s =
     (let i = idempotence_id m
      in if applied_contains ap i then (Ok (Skipped i), ap, s)
         else if is_breaking m \<and> \<not> confirm_breaking then (Ok (RefusedBreaking i), ap, s)
         else (case apply_backfills store ns (backfills m) 0 s of
                 (Err e, s') \<Rightarrow> (Err e, ap, s')
               | (Ok n, s') \<Rightarrow> (Ok (Applied i n), snd (applied_record ap i), s')))"

section \<open>Orchestration\<close>

record 'l migration_ledger =
  ml_load :: "'l \<Rightarrow> provider_namespace \<Rightarrow> applied_migrations sorx_result"
  ml_record_applied :: "'l \<Rightarrow> provider_namespace \<Rightarrow> string \<Rightarrow> unit sorx_result \<times> 'l"

fun run_migrations ::
  "('s, 'z) store_provider_scheme \<Rightarrow> 'l migration_ledger \<Rightarrow> provider_namespace \<Rightarrow> bool \<Rightarrow>
   compatibility_migration list \<Rightarrow> applied_migrations \<Rightarrow> 's \<Rightarrow> 'l \<Rightarrow>
   migration_outcome list sorx_result \<times> 's \<times> 'l" where
  "run_migrations store ledger ns confirm [] ap s l = (Ok [], s, l)"
| "run_migrations store ledger ns confirm (m # ms) ap s l =
     (case run_one store ns confirm m ap s of
        (Err e, ap', s') \<Rightarrow> (Err (sorx_error_new ''migration_run_failed'' (display_run_error e)), s', l)
      | (Ok out, ap', s') \<Rightarrow>
          (case (case out of
                   Applied i n \<Rightarrow> ml_record_applied ledger l ns i
                 | _ \<Rightarrow> (Ok (), l)) of
             (Err e, l') \<Rightarrow> (Err e, s', l')
           | (Ok _, l') \<Rightarrow>
               (case run_migrations store ledger ns confirm ms ap' s' l' of
                  (Err e, s'', l'') \<Rightarrow> (Err e, s'', l'')
                | (Ok outs, s'', l'') \<Rightarrow> (Ok (out # outs), s'', l''))))"

definition apply_pending_migrations ::
  "state_mode \<Rightarrow> compatibility_migration list \<Rightarrow> ('s, 'z) store_provider_scheme \<Rightarrow>
   'l migration_ledger \<Rightarrow> provider_namespace \<Rightarrow> bool \<Rightarrow> 's \<Rightarrow> 'l \<Rightarrow>
   migration_outcome list sorx_result \<times> 's \<times> 'l" where
  "apply_pending_migrations sm ms store ledger ns confirm s l =
     (case ml_load ledger l ns of
        Err e \<Rightarrow> (Err e, s, l)
      | Ok ap \<Rightarrow>
          (case evaluate_pending_migrations sm ms ap confirm of
             Err e \<Rightarrow> (Err (sorx_error_new ''migration_breaking_unconfirmed'' (Text (dre_message e))), s, l)
           | Ok _ \<Rightarrow> run_migrations store ledger ns confirm ms ap s l))"

section \<open>The file ledger\<close>

text \<open>
  The file of \<^verbatim>\<open>LocalMigrationLedger\<close> is \<^term>\<open>None\<close> while it does not exist. Reading, decoding,
  encoding and writing it are the functions of the environment; a write returns its outcome
  and the file it leaves.
\<close>

type_synonym namespaced_ledger = "(string, applied_migrations) btree"

record ('f, 'b) ledger_env =
  le_read :: "'f \<Rightarrow> (string, 'b) result"
  le_decode :: "'b \<Rightarrow> (string, namespaced_ledger) result"
  le_parent :: "string \<Rightarrow> string option"
  le_create_dir_all :: "string \<Rightarrow> (string, unit) result"
  le_encode :: "namespaced_ledger \<Rightarrow> (string, 'b) result"
  le_write :: "'b \<Rightarrow> 'f option \<Rightarrow> (string, unit) result \<times> 'f option"

definition load_namespaced ::
  "('f, 'b) ledger_env \<Rightarrow> string \<Rightarrow> 'f option \<Rightarrow> namespaced_ledger sorx_result" where
  "load_namespaced env path file =
     (case file of
        None \<Rightarrow> Ok []
      | Some f \<Rightarrow>
          (case le_read env f of
             Err e \<Rightarrow> Err (sorx_error_new ''migration_ledger_io'' (Text (''failed to read '' @ path @ '': '' @ e)))
           | Ok bytes \<Rightarrow>
               (case le_decode env bytes of
                  Err e \<Rightarrow> Err (sorx_error_new ''migration_ledger_decode''
                             (Text (''failed to decode '' @ path @ '': '' @ e)))
                | Ok x \<Rightarrow> Ok x)))"

definition create_parent :: "('f, 'b) ledger_env \<Rightarrow> string \<Rightarrow> unit sorx_result" where
  "create_parent env path =
     (case le_parent env path of
        None \<Rightarrow> Ok ()
      | Some parent \<Rightarrow>
          (case le_create_dir_all env parent of
             Err e \<Rightarrow> Err (sorx_error_new ''migration_ledger_io''
                        (Text (''failed to create '' @ parent @ '': '' @ e)))
           | Ok _ \<Rightarrow> Ok ()))"

definition save_namespaced ::
  "('f, 'b) ledger_env \<Rightarrow> string \<Rightarrow> namespaced_ledger \<Rightarrow> 'f option \<Rightarrow> unit sorx_result \<times> 'f option" where
  "save_namespaced env path ledger file =
     (case create_parent env path of
        Err e \<Rightarrow> (Err e, file)
      | Ok _ \<Rightarrow>
          (case le_encode env ledger of
             Err e \<Rightarrow> (Err (sorx_error_new ''migration_ledger_decode''
                        (Text (''failed to encode migration ledger: '' @ e))), file)
           | Ok bytes \<Rightarrow>
               (case le_write env bytes file of
                  (Err e, file') \<Rightarrow> (Err (sorx_error_new ''migration_ledger_io''
                             (Text (''failed to write '' @ path @ '': '' @ e))), file')
                | (Ok _, file') \<Rightarrow> (Ok (), file'))))"

definition local_load ::
  "('f, 'b) ledger_env \<Rightarrow> string \<Rightarrow> 'f option \<Rightarrow> provider_namespace \<Rightarrow> applied_migrations sorx_result" where
  "local_load env path file ns =
     (case load_namespaced env path file of
        Err e \<Rightarrow> Err e
      | Ok ledger \<Rightarrow> Ok (unwrap_or (bt_get ledger (key_prefix ns)) applied_default))"

definition local_record_applied ::
  "('f, 'b) ledger_env \<Rightarrow> string \<Rightarrow> 'f option \<Rightarrow> provider_namespace \<Rightarrow> string \<Rightarrow>
   unit sorx_result \<times> 'f option" where
  "local_record_applied env path file ns i =
     (case load_namespaced env path file of
        Err e \<Rightarrow> (Err e, file)
      | Ok ledger \<Rightarrow>
          save_namespaced env path
            (bt_insert (key_prefix ns)
               (snd (applied_record (unwrap_or (bt_get ledger (key_prefix ns)) applied_default) i)) ledger)
            file)"

definition local_ledger :: "('f, 'b) ledger_env \<Rightarrow> string \<Rightarrow> 'f option migration_ledger" where
  "local_ledger env path =
     \<lparr>ml_load = local_load env path, ml_record_applied = local_record_applied env path\<rparr>"

end
