(* ===== verification/Migration_Laws.thy ===== *)
theory Migration_Laws
  imports Migration Memory_Laws
begin

text \<open>
  What running migrations does to any store and ledger that keep their contracts, proved once
  in the locale \<open>migration_run\<close>, which joins the store contract with the contract of a
  migration ledger; the file ledger keeps the latter when its disk keeps what is written.
\<close>

section \<open>The contract of a ledger\<close>

locale ledger_laws =
  fixes ledger :: "'l migration_ledger"
    and recorded :: "'l \<Rightarrow> string \<Rightarrow> string set"
    and linv :: "'l \<Rightarrow> bool"
  assumes load_law: "linv l \<Longrightarrow> ml_load ledger l ns = Ok \<lparr>applied = recorded l (key_prefix ns)\<rparr>"
    and record_law: "linv l \<Longrightarrow> \<exists>l'. ml_record_applied ledger l ns i = (Ok (), l') \<and> linv l' \<and>
        recorded l' = (recorded l)(key_prefix ns := insert i (recorded l (key_prefix ns)))"

section \<open>What a run means\<close>

definition backfilled :: "migration_backfill \<Rightarrow> entity_record \<Rightarrow> entity_record" where
  "backfilled bf r =
     (if jget (rec_data r) (bf_field bf) = None
      then patched_record r (JObj [(bf_field bf, bf_default bf)]) (rec_id r) else r)"

lemma backfilled_id [simp]: "rec_id (backfilled bf r) = rec_id r"
  by (simp add: backfilled_def)

definition backfill_view ::
  "(provider_namespace \<Rightarrow> string \<Rightarrow> 'a) \<Rightarrow> provider_namespace \<Rightarrow> migration_backfill \<Rightarrow>
   ('a \<Rightarrow> string \<Rightarrow> entity_record option) \<Rightarrow> 'a \<Rightarrow> string \<Rightarrow> entity_record option" where
  "backfill_view addr ns bf v =
     v(addr ns (default_collection_name (bf_record bf)) :=
         (\<lambda>i. map_option (backfilled bf) (v (addr ns (default_collection_name (bf_record bf))) i)))"

text \<open>The migrations that may run at all, and those of them a run applies.\<close>

definition runnable :: "bool \<Rightarrow> compatibility_migration list \<Rightarrow> compatibility_migration list" where
  "runnable confirm ms = filter (\<lambda>m. confirm \<or> \<not> is_breaking m) ms"

fun newly_applied :: "bool \<Rightarrow> string set \<Rightarrow> compatibility_migration list \<Rightarrow> compatibility_migration list" where
  "newly_applied confirm done [] = []"
| "newly_applied confirm done (m # ms) =
     (if idempotence_id m \<in> done \<or> is_breaking m \<and> \<not> confirm then newly_applied confirm done ms
      else m # newly_applied confirm (insert (idempotence_id m) done) ms)"

lemma newly_applied_ids:
  "idempotence_id ` set (newly_applied confirm done ms) = idempotence_id ` set (runnable confirm ms) - done"
  by (induction confirm "done" ms rule: newly_applied.induct) (auto simp: runnable_def)

lemma newly_applied_runnable: "set (newly_applied confirm done ms) \<subseteq> set (runnable confirm ms)"
  by (induction confirm "done" ms rule: newly_applied.induct) (auto simp: runnable_def)

section \<open>Runs over any store and ledger\<close>

locale migration_run =
  sor_store ops addr view inv + ledger_laws ledger recorded linv
  for ops :: "('s, 'z) store_provider_scheme"
    and addr :: "provider_namespace \<Rightarrow> string \<Rightarrow> 'a"
    and view :: "'s \<Rightarrow> 'a \<Rightarrow> string \<Rightarrow> entity_record option"
    and inv :: "'s \<Rightarrow> bool"
    and ledger :: "'l migration_ledger"
    and recorded :: "'l \<Rightarrow> string \<Rightarrow> string set"
    and linv :: "'l \<Rightarrow> bool"
begin

lemma backfill_records_run:
  assumes "inv s" and "distinct (map rec_id rs)"
    and "\<And>r. r \<in> set rs \<Longrightarrow> view s (addr ns (default_collection_name (bf_record bf))) (rec_id r) = Some r"
  shows "\<exists>s'. backfill_records ops ns bf rs n s =
      (Ok (n + length (filter (\<lambda>r. jget (rec_data r) (bf_field bf) = None) rs)), s') \<and> inv s' \<and>
      view s' = (view s)(addr ns (default_collection_name (bf_record bf)) := (\<lambda>i.
        if i \<in> rec_id ` set rs
        then map_option (backfilled bf) (view s (addr ns (default_collection_name (bf_record bf))) i)
        else view s (addr ns (default_collection_name (bf_record bf))) i))"
  using assms
proof (induction rs arbitrary: n s)
  case Nil
  then show ?case by simp
next
  case (Cons r rs)
  let ?a = "addr ns (default_collection_name (bf_record bf))"
  have r: "view s ?a (rec_id r) = Some r" using Cons.prems(3) by simp
  show ?case
  proof (cases "jget (rec_data r) (bf_field bf) = None")
    case False
    have ih: "\<exists>s'. backfill_records ops ns bf rs n s =
        (Ok (n + length (filter (\<lambda>r. jget (rec_data r) (bf_field bf) = None) rs)), s') \<and> inv s' \<and>
        view s' = (view s)(?a := (\<lambda>i. if i \<in> rec_id ` set rs then map_option (backfilled bf) (view s ?a i)
          else view s ?a i))"
      by (rule Cons.IH) (use Cons.prems in auto)
    have eq: "(\<lambda>i. if i \<in> rec_id ` set rs then map_option (backfilled bf) (view s ?a i) else view s ?a i) =
        (\<lambda>i. if i \<in> rec_id ` set (r # rs) then map_option (backfilled bf) (view s ?a i) else view s ?a i)"
      using False r by (auto simp: fun_eq_iff backfilled_def)
    from ih obtain s' where s': "backfill_records ops ns bf rs n s =
        (Ok (n + length (filter (\<lambda>r. jget (rec_data r) (bf_field bf) = None) rs)), s')" "inv s'"
      "view s' = (view s)(?a := (\<lambda>i. if i \<in> rec_id ` set (r # rs) then map_option (backfilled bf) (view s ?a i)
          else view s ?a i))" unfolding eq by blast
    show ?thesis by (intro exI [of _ s'] conjI s'(2,3)) (use s'(1) False in auto)
  next
    case True
    let ?u = "backfill_update ns bf r"
    have u: "addr (up_namespace ?u) (up_collection ?u) = ?a" "up_id ?u = rec_id r"
      "up_patch ?u = JObj [(bf_field bf, bf_default bf)]" "up_unique_indexes ?u = []"
      by (simp_all add: backfill_update_def)
    obtain r1 s1 where up: "sp_update ops s ?u = (Ok r1, s1)"
      using update_total [OF Cons.prems(1) u(4)] r unfolding u by auto
    have r1: "r1 = backfilled bf r"
      and v1: "view s1 = (view s)(?a := (view s ?a)(rec_id r \<mapsto> backfilled bf r))"
      using update_law [OF Cons.prems(1) up] r True unfolding u by (auto simp: backfilled_def)
    have notin: "rec_id x \<noteq> rec_id r" if "x \<in> set rs" for x
      using Cons.prems(2) that by (auto simp: image_iff)
    have i1: "inv s1" using update_inv [OF Cons.prems(1), of ?u] up by simp
    have "\<exists>s'. backfill_records ops ns bf rs (n + 1) s1 =
        (Ok (n + 1 + length (filter (\<lambda>r. jget (rec_data r) (bf_field bf) = None) rs)), s') \<and> inv s' \<and>
        view s' = (view s1)(?a := (\<lambda>i. if i \<in> rec_id ` set rs then map_option (backfilled bf) (view s1 ?a i)
          else view s1 ?a i))"
      by (rule Cons.IH [OF i1]) (use Cons.prems v1 notin in auto)
    then obtain s' where s': "backfill_records ops ns bf rs (n + 1) s1 =
        (Ok (n + 1 + length (filter (\<lambda>r. jget (rec_data r) (bf_field bf) = None) rs)), s')" "inv s'"
      "view s' = (view s1)(?a := (\<lambda>i. if i \<in> rec_id ` set rs then map_option (backfilled bf) (view s1 ?a i)
          else view s1 ?a i))" by blast
    have v': "view s' = (view s)(?a := (\<lambda>i. if i \<in> rec_id ` set (r # rs) then map_option (backfilled bf) (view s ?a i)
          else view s ?a i))"
      using Cons.prems(2) r unfolding s'(3) v1 by (auto simp: fun_eq_iff)
    show ?thesis by (intro exI [of _ s'] conjI s'(2) v') (use s'(1) True up in simp)
  qed
qed

lemma apply_backfill_run:
  assumes "inv s"
  shows "\<exists>n s'. apply_backfill ops ns bf s = (Ok n, s') \<and> inv s' \<and> view s' = backfill_view addr ns bf (view s)"
proof -
  let ?a = "addr ns (default_collection_name (bf_record bf))"
  obtain rs where q: "sp_query ops s (backfill_query ns bf) = Ok rs" and d: "distinct rs"
    and set: "set rs = ran (view s ?a)"
    using query_law [OF assms, of "backfill_query ns bf"]
    by (auto simp: backfill_query_def object_clone_def matches_filter_def)
  have at: "view s ?a (rec_id r) = Some r" if "r \<in> set rs" for r
    using that ids_law [OF assms] unfolding set ran_def by auto
  have "inj_on rec_id (set rs)" by (rule inj_onI) (metis at option.inject)
  then have "distinct (map rec_id rs)" using d by (simp add: distinct_map)
  from backfill_records_run [OF assms this at, where n = 0]
  obtain n s' where run: "backfill_records ops ns bf rs 0 s = (Ok n, s')" "inv s'"
    "view s' = (view s)(?a := (\<lambda>i. if i \<in> rec_id ` set rs then map_option (backfilled bf) (view s ?a i)
        else view s ?a i))" by auto
  have "view s ?a i = None" if "i \<notin> rec_id ` set rs" for i
    using that ids_law [OF assms, of ?a i] unfolding set ran_def by (cases "view s ?a i") auto
  then have "view s' = backfill_view addr ns bf (view s)"
    unfolding run(3) backfill_view_def by (auto simp: fun_eq_iff)
  with q run(1,2) show ?thesis by (simp add: apply_backfill_def)
qed

lemma apply_backfills_run:
  assumes "inv s"
  shows "\<exists>n s'. apply_backfills ops ns bfs k s = (Ok n, s') \<and> inv s' \<and>
    view s' = fold (backfill_view addr ns) bfs (view s)"
  using assms
proof (induction bfs arbitrary: k s)
  case (Cons bf bfs)
  obtain n1 s1 where "apply_backfill ops ns bf s = (Ok n1, s1)" "inv s1"
    "view s1 = backfill_view addr ns bf (view s)"
    using apply_backfill_run [OF Cons.prems] by blast
  with Cons.IH [of s1 "k + n1"] show ?case by auto
qed simp

lemma run_one_applied:
  assumes "inv s" and "\<not> applied_contains ap (idempotence_id m)" and "\<not> (is_breaking m \<and> \<not> confirm)"
  obtains n s' where "run_one ops ns confirm m ap s =
      (Ok (Applied (idempotence_id m) n), snd (applied_record ap (idempotence_id m)), s')" "inv s'"
    "view s' = fold (backfill_view addr ns) (backfills m) (view s)"
  using apply_backfills_run [OF assms(1), of ns "backfills m" 0] assms(2,3)
  by (auto simp: run_one_def Let_def)

text \<open>A run always succeeds; its outcomes, the store and the ledger afterwards.\<close>

lemma run_migrations_run:
  assumes "inv s" and "linv l" and "applied ap = recorded l (key_prefix ns)"
  shows "\<exists>outs s' l'. run_migrations ops ledger ns confirm ms ap s l = (Ok outs, s', l') \<and> inv s' \<and> linv l' \<and>
    map outcome_id outs = map idempotence_id ms \<and>
    view s' = fold (backfill_view addr ns)
      (concat (map backfills (newly_applied confirm (recorded l (key_prefix ns)) ms))) (view s) \<and>
    recorded l' = (recorded l)(key_prefix ns := recorded l (key_prefix ns) \<union>
      idempotence_id ` set (newly_applied confirm (recorded l (key_prefix ns)) ms))"
  using assms
proof (induction ms arbitrary: ap s l)
  case Nil
  then show ?case by simp
next
  case (Cons m ms)
  let ?i = "idempotence_id m"
  let ?R = "recorded l (key_prefix ns)"
  show ?case
  proof (cases "?i \<in> ?R \<or> is_breaking m \<and> \<not> confirm")
    case True
    define out where "out = (if ?i \<in> ?R then Skipped ?i else RefusedBreaking ?i)"
    have "run_one ops ns confirm m ap s = (Ok out, ap, s)"
      using True Cons.prems(3) by (auto simp: out_def run_one_def Let_def applied_contains_def)
    then show ?thesis using Cons.IH [OF Cons.prems] True by (auto simp: out_def)
  next
    case False
    then have "\<not> applied_contains ap ?i" "\<not> (is_breaking m \<and> \<not> confirm)"
      using Cons.prems(3) by (auto simp: applied_contains_def)
    then obtain n s1 where one: "run_one ops ns confirm m ap s =
        (Ok (Applied ?i n), snd (applied_record ap ?i), s1)" "inv s1"
      "view s1 = fold (backfill_view addr ns) (backfills m) (view s)"
      by (rule run_one_applied [OF Cons.prems(1)])
    obtain l1 where rec: "ml_record_applied ledger l ns ?i = (Ok (), l1)" "linv l1"
      "recorded l1 = (recorded l)(key_prefix ns := insert ?i ?R)"
      using record_law [OF Cons.prems(2)] by blast
    have "applied (snd (applied_record ap ?i)) = recorded l1 (key_prefix ns)"
      using Cons.prems(3) rec(3) by (simp add: applied_record_def)
    from Cons.IH [OF one(2) rec(2) this] obtain outs s' l' where ih:
      "run_migrations ops ledger ns confirm ms (snd (applied_record ap ?i)) s1 l1 = (Ok outs, s', l')"
      "inv s'" "linv l'" "map outcome_id outs = map idempotence_id ms"
      "view s' = fold (backfill_view addr ns)
        (concat (map backfills (newly_applied confirm (insert ?i ?R) ms))) (view s1)"
      "recorded l' = (recorded l1)(key_prefix ns := insert ?i ?R \<union>
        idempotence_id ` set (newly_applied confirm (insert ?i ?R) ms))"
      unfolding rec(3) fun_upd_same by blast
    have new: "newly_applied confirm ?R (m # ms) = m # newly_applied confirm (insert ?i ?R) ms"
      using False by auto
    have run: "run_migrations ops ledger ns confirm (m # ms) ap s l = (Ok (Applied ?i n # outs), s', l')"
      using one(1) rec(1) ih(1) by simp
    have v: "view s' = fold (backfill_view addr ns)
        (concat (map backfills (newly_applied confirm ?R (m # ms)))) (view s)"
      unfolding new ih(5) one(3) by simp
    have rc: "recorded l' = (recorded l)(key_prefix ns := ?R \<union>
        idempotence_id ` set (newly_applied confirm ?R (m # ms)))"
      unfolding new ih(6) rec(3) by simp
    have ids: "map outcome_id (Applied ?i n # outs) = map idempotence_id (m # ms)"
      using ih(4) by simp
    show ?thesis using run ih(2,3) ids v rc by blast
  qed
qed

lemma run_migrations_nothing:
  assumes "list_all (\<lambda>m. applied_contains ap (idempotence_id m) \<or> is_breaking m \<and> \<not> confirm) ms"
  shows "run_migrations ops ledger ns confirm ms ap s l =
    (Ok (map (\<lambda>m. if applied_contains ap (idempotence_id m) then Skipped (idempotence_id m)
                  else RefusedBreaking (idempotence_id m)) ms), s, l)"
  using assms by (induction ms) (auto simp: run_one_def Let_def)

lemma apply_pending_run:
  assumes "inv s" and "linv l"
    and "evaluate_pending_migrations sm ms \<lparr>applied = recorded l (key_prefix ns)\<rparr> confirm = Ok ()"
  shows "\<exists>outs s' l'. apply_pending_migrations sm ms ops ledger ns confirm s l = (Ok outs, s', l') \<and>
    inv s' \<and> linv l' \<and> map outcome_id outs = map idempotence_id ms \<and>
    view s' = fold (backfill_view addr ns)
      (concat (map backfills (newly_applied confirm (recorded l (key_prefix ns)) ms))) (view s) \<and>
    recorded l' = (recorded l)(key_prefix ns := recorded l (key_prefix ns) \<union>
      idempotence_id ` set (runnable confirm ms))"
proof -
  let ?R = "recorded l (key_prefix ns)"
  have ids: "?R \<union> idempotence_id ` set (newly_applied confirm ?R ms) =
      ?R \<union> idempotence_id ` set (runnable confirm ms)"
    unfolding newly_applied_ids by blast
  have "applied \<lparr>applied = ?R\<rparr> = ?R" by simp
  from run_migrations_run [OF assms(1,2) this, of confirm ms] show ?thesis
    unfolding ids by (simp add: apply_pending_migrations_def load_law [OF assms(2)] assms(3))
qed

text \<open>Running again changes neither store nor ledger.\<close>

lemma apply_pending_again:
  assumes "linv l" and "inv s"
    and "apply_pending_migrations sm ms ops ledger ns confirm s l = (Ok outs, s', l')"
  shows "\<exists>outs'. apply_pending_migrations sm ms ops ledger ns confirm s' l' = (Ok outs', s', l') \<and>
    list_all2 (\<lambda>m out. out = Skipped (idempotence_id m) \<or>
      out = RefusedBreaking (idempotence_id m) \<and> is_breaking m \<and> \<not> confirm) ms outs'"
proof -
  let ?R = "recorded l (key_prefix ns)"
  let ?new = "idempotence_id ` set (runnable confirm ms)"
  have gate: "evaluate_pending_migrations sm ms \<lparr>applied = ?R\<rparr> confirm = Ok ()"
    using assms(3) by (simp add: apply_pending_migrations_def load_law [OF assms(1)] split: sum.splits)
  then have l': "linv l'" "recorded l' (key_prefix ns) = ?R \<union> ?new"
    using apply_pending_run [OF assms(2,1) gate] assms(3) by auto
  have gate': "evaluate_pending_migrations sm ms \<lparr>applied = ?R \<union> ?new\<rparr> confirm = Ok ()"
  proof -
    have ok: "check_pending xs ap confirm = Ok () \<longleftrightarrow>
        list_all (\<lambda>m. applied_contains ap (idempotence_id m) \<or> confirm \<or> \<not> is_breaking m) xs" for xs ap
      by (induction xs ap confirm rule: check_pending.induct) auto
    show ?thesis using gate by (auto simp: evaluate_pending_migrations_def ok list_all_iff applied_contains_def
          split: if_splits)
  qed
  let ?ap = "\<lparr>applied = ?R \<union> ?new\<rparr>"
  have all: "list_all (\<lambda>m. applied_contains ?ap (idempotence_id m) \<or> is_breaking m \<and> \<not> confirm) ms"
    by (auto simp: list_all_iff applied_contains_def runnable_def)
  then have "apply_pending_migrations sm ms ops ledger ns confirm s' l' =
      (Ok (map (\<lambda>m. if applied_contains ?ap (idempotence_id m) then Skipped (idempotence_id m)
                    else RefusedBreaking (idempotence_id m)) ms), s', l')"
    by (simp add: apply_pending_migrations_def load_law [OF l'(1)] l'(2) gate' run_migrations_nothing)
  moreover have "list_all2 (\<lambda>m out. out = Skipped (idempotence_id m) \<or>
      out = RefusedBreaking (idempotence_id m) \<and> is_breaking m \<and> \<not> confirm) ms
      (map (\<lambda>m. if applied_contains ?ap (idempotence_id m) then Skipped (idempotence_id m)
                    else RefusedBreaking (idempotence_id m)) ms)"
    unfolding list_all2_map2
    by (rule list.rel_refl_strong) (use all in \<open>auto simp: list_all_iff\<close>)
  ultimately show ?thesis by blast
qed

end

end
