(* ===== verification/Migration_Props.thy ===== *)
theory Migration_Props
  imports Migration_Laws Memory_Props
begin

text \<open>
  The properties of pack migrations on the in-memory store and the file ledger: the gate, what
  a run does to records and ledger, and that a second run does nothing.
\<close>

section \<open>The file ledger keeps its contract\<close>

definition file_recorded :: "('f, 'b) ledger_env \<Rightarrow> string \<Rightarrow> 'f option \<Rightarrow> string \<Rightarrow> string set" where
  "file_recorded env path file k =
     (case load_namespaced env path file of
        Err e \<Rightarrow> {}
      | Ok x \<Rightarrow> applied (unwrap_or (bt_get x k) applied_default))"

definition file_ok :: "('f, 'b) ledger_env \<Rightarrow> string \<Rightarrow> 'f option \<Rightarrow> bool" where
  "file_ok env path file \<longleftrightarrow> (\<exists>x. load_namespaced env path file = Ok x)"

text \<open>A disk that keeps what is written, and a JSON codec that reads back what it wrote.\<close>

definition reliable_env :: "('f, 'b) ledger_env \<Rightarrow> string \<Rightarrow> bool" where
  "reliable_env env path \<longleftrightarrow>
     create_parent env path = Ok () \<and>
     (\<forall>x file. \<exists>b f. le_encode env x = Ok b \<and> le_write env b file = (Ok (), Some f) \<and>
        le_read env f = Ok b \<and> le_decode env b = Ok x)"

lemma save_reliable:
  assumes "reliable_env env path"
  shows "\<exists>file'. save_namespaced env path x file = (Ok (), file') \<and> load_namespaced env path file' = Ok x"
proof -
  obtain b f where "le_encode env x = Ok b" "le_write env b file = (Ok (), Some f)"
    "le_read env f = Ok b" "le_decode env b = Ok x"
    using assms unfolding reliable_env_def by blast
  then show ?thesis
    using assms by (intro exI [of _ "Some f"]) (simp add: save_namespaced_def load_namespaced_def reliable_env_def)
qed

lemma applied_unit: "\<lparr>applied = applied a\<rparr> = (a :: applied_migrations)"
  by simp

lemma local_ledger_laws:
  assumes "reliable_env env path"
  shows "ledger_laws (local_ledger env path) (file_recorded env path) (file_ok env path)"
proof unfold_locales
  fix l and ns :: provider_namespace and i
  assume "file_ok env path l"
  then obtain x where x: "load_namespaced env path l = Ok x" by (auto simp: file_ok_def)
  then show "ml_load (local_ledger env path) l ns = Ok \<lparr>applied = file_recorded env path l (key_prefix ns)\<rparr>"
    by (simp add: local_ledger_def local_load_def file_recorded_def)
  let ?x' = "bt_insert (key_prefix ns) (snd (applied_record (unwrap_or (bt_get x (key_prefix ns)) applied_default) i)) x"
  obtain l' where l': "save_namespaced env path ?x' l = (Ok (), l')" "load_namespaced env path l' = Ok ?x'"
    using save_reliable [OF assms] by blast
  then show "\<exists>l'. ml_record_applied (local_ledger env path) l ns i = (Ok (), l') \<and> file_ok env path l' \<and>
      file_recorded env path l' = (file_recorded env path l)
        (key_prefix ns := insert i (file_recorded env path l (key_prefix ns)))"
    using x by (intro exI [of _ l'])
      (auto simp: local_ledger_def local_record_applied_def file_ok_def file_recorded_def fun_eq_iff applied_record_def)
qed

text \<open>The environment in which every file operation succeeds.\<close>

definition kept_env :: "(namespaced_ledger, namespaced_ledger) ledger_env" where
  "kept_env = \<lparr>le_read = Ok, le_decode = Ok, le_parent = (\<lambda>_. None), le_create_dir_all = (\<lambda>_. Ok ()),
     le_encode = Ok, le_write = (\<lambda>b file. (Ok (), Some b))\<rparr>"

lemma reliable_kept_env: "reliable_env kept_env path"
  by (simp add: reliable_env_def kept_env_def create_parent_def)

interpretation fl: ledger_laws "local_ledger kept_env path" "file_recorded kept_env path" "file_ok kept_env path" for path
  by (rule local_ledger_laws [OF reliable_kept_env])

interpretation mr: migration_run "memory_store to_string no_persist" collection_key mem_view mem_wf
  "local_ledger kept_env path" "file_recorded kept_env path" "file_ok kept_env path" for to_string path
  by unfold_locales

lemma migration_run_local:
  assumes "reliable_env env path"
  shows "migration_run (memory_store to_string no_persist) collection_key mem_view mem_wf
    (local_ledger env path) (file_recorded env path) (file_ok env path)"
  using mem.sor_store_axioms local_ledger_laws [OF assms] by (rule migration_run.intro)

section \<open>What backfills keep\<close>

definition record_kept :: "entity_record \<Rightarrow> entity_record \<Rightarrow> bool" where
  "record_kept r r' \<longleftrightarrow>
     rec_id r' = rec_id r \<and> rec_entity r' = rec_entity r \<and> rec_collection r' = rec_collection r \<and>
     (\<forall>k v. jget (rec_data r) k = Some v \<longrightarrow>
        jget (rec_data r') k \<noteq> None \<and> (k \<noteq> ''id'' \<longrightarrow> jget (rec_data r') k = Some v))"

lemma record_kept_refl [simp]: "record_kept r r"
  by (simp add: record_kept_def)

lemma record_kept_trans: "record_kept r s \<Longrightarrow> record_kept s t \<Longrightarrow> record_kept r t"
  unfolding record_kept_def by (metis option.exhaust)

lemma merged_single:
  "bt_get (merged_data data (JObj [(f, v)]) i) k =
     (if k = ''id'' then Some (JStr i) else if k = f then Some v else jget data k)"
  by (simp add: merged_data_def object_clone_def bt_get_object_clone [unfolded object_clone_def])

lemma record_kept_backfilled: "record_kept r (backfilled bf r)"
  by (auto simp: record_kept_def backfilled_def patched_record_def merged_single)

lemma backfilled_present: "jget (rec_data (backfilled bf r)) (bf_field bf) \<noteq> None"
  by (simp add: backfilled_def patched_record_def merged_single)

lemma fold_backfill_view:
  "rel_option record_kept (v a i) (fold (backfill_view addr ns) bfs v a i)"
proof (induction bfs arbitrary: v)
  case (Cons bf bfs)
  have "rel_option record_kept (v a i) (backfill_view addr ns bf v a i)"
    by (cases "v a i") (auto simp: backfill_view_def record_kept_backfilled)
  with Cons.IH [of "backfill_view addr ns bf v"] show ?case
    by (auto simp: rel_option_iff intro: record_kept_trans split: option.splits)
qed (simp add: option.rel_refl)

lemma fold_backfill_present:
  assumes "bf \<in> set bfs"
    and "fold (backfill_view addr ns) bfs v (addr ns (default_collection_name (bf_record bf))) i = Some r"
  shows "jget (rec_data r) (bf_field bf) \<noteq> None"
proof -
  let ?a = "addr ns (default_collection_name (bf_record bf))"
  obtain xs ys where bfs: "bfs = xs @ bf # ys" using assms(1) by (meson split_list)
  let ?w = "backfill_view addr ns bf (fold (backfill_view addr ns) xs v)"
  have kept: "rel_option record_kept (?w ?a i) (Some r)"
    using fold_backfill_view [of ?w ?a i addr ns ys] assms(2) by (simp add: bfs)
  then obtain r1 where r1: "?w ?a i = Some r1" "record_kept r1 r" by (auto simp: option_rel_Some2)
  then have "jget (rec_data r1) (bf_field bf) \<noteq> None"
    using backfilled_present by (auto simp: backfill_view_def)
  with r1(2) show ?thesis by (auto simp: record_kept_def)
qed

section \<open>The properties\<close>

definition demo_migration :: "compatibility_mode \<Rightarrow> compatibility_migration" where
  "demo_migration c = \<lparr>mig_name = ''m1'', compatibility = c, from_version = None, to_version = None,
     projection_updates = [], backfills = [\<lparr>bf_record = ''Item'', bf_field = ''tag'', bf_default = JNull\<rparr>],
     idempotence_key = None, mig_notes = None\<rparr>"

text \<open>Property C20. An unconfirmed breaking migration that is still pending in a deployment whose
  state requires migrations stops the run before anything is touched, whatever the store and
  the ledger are.\<close>

theorem unconfirmed_breaking_changes_nothing:
  assumes "ml_load ledger l ns = Ok ap" and "m \<in> set ms" and "is_breaking m"
    and "\<not> applied_contains ap (idempotence_id m)"
  shows "\<exists>e. apply_pending_migrations SharedRequiresMigration ms store ledger ns False s l = (Err e, s, l) \<and>
    err_code e = ''migration_breaking_unconfirmed''"
proof -
  have "check_pending ms ap False \<noteq> Ok ()"
    using assms(2-4) by (induction ms ap False rule: check_pending.induct) auto
  then obtain e where "check_pending ms ap False = Err e" by (cases "check_pending ms ap False") auto
  then show ?thesis
    using assms(1) by (simp add: apply_pending_migrations_def evaluate_pending_migrations_def)
qed

theorem unconfirmed_breaking_changes_nothing_witness:
  "\<exists>e. apply_pending_migrations SharedRequiresMigration [demo_migration Breaking]
      (memory_store demo_print no_persist) (local_ledger kept_env ''l.json'') (demo_ns ''acme'') False
      memory_state_default None = (Err e, memory_state_default, None) \<and>
    err_code e = ''migration_breaking_unconfirmed''"
proof (rule unconfirmed_breaking_changes_nothing)
  show "ml_load (local_ledger kept_env ''l.json'') None (demo_ns ''acme'') = Ok applied_default"
    by (simp add: local_ledger_def local_load_def load_namespaced_def)
  show "demo_migration Breaking \<in> set [demo_migration Breaking]" by simp
  show "is_breaking (demo_migration Breaking)" by (simp add: is_breaking_def demo_migration_def)
qed simp




text \<open>Property C19. Migrations are applied once: after a completed run the same run again reports
  every migration as skipped, or refused when it is breaking and unconfirmed, and changes
  neither the store nor the ledger.\<close>

theorem migration_run_idempotent:
  assumes "mem_wf s" and "reliable_env env path" and "file_ok env path l"
    and "apply_pending_migrations sm ms (memory_store to_string (\<lambda>_. Ok ()))
      (local_ledger env path) ns confirm s l = (Ok outs, s', l')"
  shows "\<exists>outs'. apply_pending_migrations sm ms (memory_store to_string (\<lambda>_. Ok ()))
      (local_ledger env path) ns confirm s' l' = (Ok outs', s', l') \<and>
    list_all2 (\<lambda>m out. out = Skipped (idempotence_id m) \<or>
      out = RefusedBreaking (idempotence_id m) \<and> is_breaking m \<and> \<not> confirm) ms outs'"
  by (rule migration_run.apply_pending_again [OF migration_run_local [OF assms(2)] assms(3,1,4)])

lemma demo_run:
  obtains outs s' l' where "apply_pending_migrations Isolated [demo_migration Additive]
      (memory_store demo_print no_persist) (local_ledger kept_env ''l.json'') (demo_ns ''acme'') False
      memory_state_default None = (Ok outs, s', l')"
    "file_ok kept_env ''l.json'' None" "local_load kept_env ''l.json'' None (demo_ns ''acme'') = Ok applied_default"
proof -
  have ok: "file_ok kept_env ''l.json'' None" "local_load kept_env ''l.json'' None (demo_ns ''acme'') = Ok applied_default"
    by (simp_all add: local_load_def load_namespaced_def file_ok_def)
  have "evaluate_pending_migrations Isolated [demo_migration Additive]
      \<lparr>applied = file_recorded kept_env ''l.json'' None (key_prefix (demo_ns ''acme''))\<rparr> False = Ok ()"
    by (simp add: evaluate_pending_migrations_def)
  from mr.apply_pending_run [OF mem_wf_default ok(1) this, of demo_print] that ok show thesis by blast
qed

theorem migration_run_idempotent_witness:
  "\<exists>s' l' out. apply_pending_migrations Isolated [demo_migration Additive]
      (memory_store demo_print no_persist) (local_ledger kept_env ''l.json'') (demo_ns ''acme'') False
      s' l' = (Ok [out], s', l') \<and> out = Skipped ''m1''"
proof -
  obtain outs s' l' where run: "apply_pending_migrations Isolated [demo_migration Additive]
      (memory_store demo_print no_persist) (local_ledger kept_env ''l.json'') (demo_ns ''acme'') False
      memory_state_default None = (Ok outs, s', l')" "file_ok kept_env ''l.json'' None"
    by (rule demo_run)
  show ?thesis
    using migration_run_idempotent [OF mem_wf_default reliable_kept_env run(2,1)]
    by (auto simp: list_all2_Cons1 is_breaking_def idempotence_id_def demo_migration_def)
qed


end
