(* ===== verification/Ontology_Graph.thy ===== *)
theory Ontology_Graph
  imports Json_Value
begin

text \<open>
  \<^verbatim>\<open>greentic-sorx-core/src/ontology_graph.rs\<close>: the graph of ontology concepts, enumeration of
  the type paths between two concepts by depth-first search, and the relationships within a
  number of steps of a concept by breadth-first search.
\<close>

section \<open>The graph\<close>

record ontology_concept_node =
  cn_id :: string
  cn_label :: "string option"

record ontology_relationship_edge =
  re_id :: string
  re_from :: string
  re_to :: string
  re_label :: "string option"

record type_path =
  tp_concepts :: "string list"
  tp_relationships :: "string list"

record ontology_graph_service =
  og_concepts :: "(string, ontology_concept_node) btree"
  og_relationships :: "(string, ontology_relationship_edge) btree"

definition unknown_concept :: "string \<Rightarrow> string \<Rightarrow> string \<Rightarrow> sorx_error" where
  "unknown_concept rel side c = sorx_error_new ''ontology_concept_missing''
     (Text (''relationship `'' @ rel @ ''` references unknown '' @ side @ '' concept `'' @ c @ ''`''))"

fun check_edges ::
  "(string, ontology_concept_node) btree \<Rightarrow> ontology_relationship_edge list \<Rightarrow> unit sorx_result" where
  "check_edges cs [] = Ok ()"
| "check_edges cs (e # es) =
     (if bt_get cs (re_from e) = None then Err (unknown_concept (re_id e) ''from'' (re_from e))
      else if bt_get cs (re_to e) = None then Err (unknown_concept (re_id e) ''to'' (re_to e))
      else check_edges cs es)"

definition ontology_graph_new ::
  "ontology_concept_node list \<Rightarrow> ontology_relationship_edge list \<Rightarrow> ontology_graph_service sorx_result" where
  "ontology_graph_new concepts relationships =
     (let cs = bt_collect (map (\<lambda>c. (cn_id c, c)) concepts);
          rs = bt_collect (map (\<lambda>r. (re_id r, r)) relationships)
      in case check_edges cs (bt_values rs) of
           Err e \<Rightarrow> Err e
         | Ok _ \<Rightarrow> Ok \<lparr>og_concepts = cs, og_relationships = rs\<rparr>)"

definition og_concept_list :: "ontology_graph_service \<Rightarrow> ontology_concept_node list" where
  "og_concept_list g = bt_values (og_concepts g)"

definition og_relationship_list :: "ontology_graph_service \<Rightarrow> ontology_relationship_edge list" where
  "og_relationship_list g = bt_values (og_relationships g)"

definition og_concept :: "ontology_graph_service \<Rightarrow> string \<Rightarrow> ontology_concept_node option" where
  "og_concept g i = bt_get (og_concepts g) i"

definition relationships_from :: "ontology_graph_service \<Rightarrow> string \<Rightarrow> ontology_relationship_edge list" where
  "relationships_from g c = filter (\<lambda>r. re_from r = c) (bt_values (og_relationships g))"

definition relationships_to :: "ontology_graph_service \<Rightarrow> string \<Rightarrow> ontology_relationship_edge list" where
  "relationships_to g c = filter (\<lambda>r. re_to r = c) (bt_values (og_relationships g))"

definition require_concept :: "ontology_graph_service \<Rightarrow> string \<Rightarrow> unit sorx_result" where
  "require_concept g c =
     (if bt_get (og_concepts g) c \<noteq> None then Ok ()
      else Err (sorx_error_new ''ontology_concept_missing''
                  (Text (''ontology concept `'' @ c @ ''` does not exist''))))"

section \<open>Type paths\<close>

text \<open>
  \<^verbatim>\<open>walk\<close> threads the visited set and the paths found; \<^verbatim>\<open>walk_edges\<close> is its loop over the
  relationships of the current concept. A depth is counted down in naturals: the code only
  subtracts one from a nonzero \<^verbatim>\<open>u8\<close>.
\<close>

function (sequential)
  walk :: "ontology_graph_service \<Rightarrow> string \<Rightarrow> nat \<Rightarrow> string \<Rightarrow> string list \<Rightarrow> string list \<Rightarrow>
    string set \<times> type_path list \<Rightarrow> string set \<times> type_path list"
and walk_edges :: "ontology_graph_service \<Rightarrow> string \<Rightarrow> nat \<Rightarrow> string list \<Rightarrow> string list \<Rightarrow>
    ontology_relationship_edge list \<Rightarrow> string set \<times> type_path list \<Rightarrow> string set \<times> type_path list" where
  "walk g target 0 current concepts rels st = st"
| "walk g target (Suc depth) current concepts rels st =
     walk_edges g target depth concepts rels (relationships_from g current) st"
| "walk_edges g target depth concepts rels [] st = st"
| "walk_edges g target depth concepts rels (e # es) (visited, paths) =
     (if re_to e \<in> visited then walk_edges g target depth concepts rels es (visited, paths)
      else
        let concepts' = concepts @ [re_to e]; rels' = rels @ [re_id e]
        in if re_to e = target
           then walk_edges g target depth concepts rels es
                  (visited, paths @ [\<lparr>tp_concepts = concepts', tp_relationships = rels'\<rparr>])
           else
             let (visited1, paths1) =
                   walk g target depth (re_to e) concepts' rels' (insert (re_to e) visited, paths)
             in walk_edges g target depth concepts rels es (visited1 - {re_to e}, paths1))"
  by pat_completeness auto
termination
  by (relation "measures [\<lambda>x. case x of Inl (g, t, d, r) \<Rightarrow> d | Inr (g, t, d, r) \<Rightarrow> d,
      \<lambda>x. case x of Inl _ \<Rightarrow> 0 | Inr (g, t, d, cs, rs, es, st) \<Rightarrow> Suc (length es)]") auto

definition find_type_paths ::
  "ontology_graph_service \<Rightarrow> string \<Rightarrow> string \<Rightarrow> u8 \<Rightarrow> type_path list sorx_result" where
  "find_type_paths g from to max_depth =
     (case require_concept g from of
        Err e \<Rightarrow> Err e
      | Ok _ \<Rightarrow>
          (case require_concept g to of
             Err e \<Rightarrow> Err e
           | Ok _ \<Rightarrow>
               if max_depth = 0 then Ok []
               else Ok (sort_by (\<lambda>l r. ord_then (cmp (tp_relationships l) (tp_relationships r))
                                                (cmp (tp_concepts l) (tp_concepts r)))
                          (snd (walk g to (unat max_depth) from [from] [] ({from}, []))))))"

section \<open>Neighbours\<close>

record neighbor_state =
  nb_seen :: "string set"
  nb_rels :: "(string, ontology_relationship_edge) btree"
  nb_next :: "string set"

definition visit_candidate :: "string \<Rightarrow> neighbor_state \<Rightarrow> neighbor_state" where
  "visit_candidate c st =
     (if c \<in> nb_seen st then st
      else st\<lparr>nb_seen := insert c (nb_seen st), nb_next := insert c (nb_next st)\<rparr>)"

definition visit_edge :: "ontology_relationship_edge \<Rightarrow> neighbor_state \<Rightarrow> neighbor_state" where
  "visit_edge e st =
     visit_candidate (re_to e) (visit_candidate (re_from e)
       (st\<lparr>nb_rels := bt_insert (re_id e) e (nb_rels st)\<rparr>))"

definition touching :: "ontology_graph_service \<Rightarrow> string \<Rightarrow> ontology_relationship_edge list" where
  "touching g c = filter (\<lambda>r. re_from r = c \<or> re_to r = c) (bt_values (og_relationships g))"

definition visit_concept :: "ontology_graph_service \<Rightarrow> string \<Rightarrow> neighbor_state \<Rightarrow> neighbor_state" where
  "visit_concept g c st = fold visit_edge (touching g c) st"

fun neighbor_rounds ::
  "ontology_graph_service \<Rightarrow> nat \<Rightarrow> string set \<Rightarrow> string set \<Rightarrow>
   (string, ontology_relationship_edge) btree \<Rightarrow> (string, ontology_relationship_edge) btree" where
  "neighbor_rounds g 0 frontier seen rels = rels"
| "neighbor_rounds g (Suc n) frontier seen rels =
     (let st = fold (visit_concept g) (sorted_list_of_set frontier)
                 \<lparr>nb_seen = seen, nb_rels = rels, nb_next = {}\<rparr>
      in if nb_next st = {} then nb_rels st
         else neighbor_rounds g n (nb_next st) (nb_seen st) (nb_rels st))"

definition neighbors ::
  "ontology_graph_service \<Rightarrow> string \<Rightarrow> u8 \<Rightarrow> ontology_relationship_edge list sorx_result" where
  "neighbors g entity_type depth =
     (case require_concept g entity_type of
        Err e \<Rightarrow> Err e
      | Ok _ \<Rightarrow>
          if depth = 0 then Ok []
          else Ok (bt_values (neighbor_rounds g (unat depth) {entity_type} {entity_type} [])))"

section \<open>Paths, declaratively\<close>

fun chained :: "string \<Rightarrow> ontology_relationship_edge list \<Rightarrow> bool" where
  "chained a [] = True"
| "chained a (e # es) = (re_from e = a \<and> chained (re_to e) es)"

fun extends_to ::
  "ontology_graph_service \<Rightarrow> string \<Rightarrow> string set \<Rightarrow> string \<Rightarrow> ontology_relationship_edge list \<Rightarrow> bool" where
  "extends_to g t V c [] = False"
| "extends_to g t V c (e # es) =
     (e \<in> set (relationships_from g c) \<and> re_to e \<notin> V \<and>
      (if es = [] then re_to e = t else re_to e \<noteq> t \<and> extends_to g t (insert (re_to e) V) (re_to e) es))"

lemma extends_to_iff:
  "extends_to g t V c es \<longleftrightarrow>
     es \<noteq> [] \<and> set es \<subseteq> set (bt_values (og_relationships g)) \<and> chained c es \<and>
     distinct (map re_to es) \<and> set (map re_to es) \<inter> V = {} \<and> re_to (last es) = t"
proof (induction g t V c es rule: extends_to.induct)
  case (2 g t V c e es)
  show ?case
  proof (cases "es = []")
    case False
    have "re_to (last es) \<in> re_to ` set es" using False by simp
    then show ?thesis
      using False 2 by (auto simp: relationships_from_def)
  qed (auto simp: relationships_from_def)
qed simp

definition path_of :: "string list \<Rightarrow> string list \<Rightarrow> ontology_relationship_edge list \<Rightarrow> type_path" where
  "path_of cs rs es = \<lparr>tp_concepts = cs @ map re_to es, tp_relationships = rs @ map re_id es\<rparr>"

lemma path_of_step: "path_of (cs @ [re_to e]) (rs @ [re_id e]) es = path_of cs rs (e # es)"
  by (simp add: path_of_def)

definition starts_path ::
  "ontology_graph_service \<Rightarrow> string \<Rightarrow> string set \<Rightarrow> nat \<Rightarrow> ontology_relationship_edge \<Rightarrow>
   ontology_relationship_edge list set" where
  "starts_path g t V d e =
     {e # es | es. re_to e \<notin> V \<and> length es \<le> d \<and>
        (if es = [] then re_to e = t else re_to e \<noteq> t \<and> extends_to g t (insert (re_to e) V) (re_to e) es)}"

lemma starts_path_cases:
  "re_to e \<in> V \<Longrightarrow> starts_path g t V d e = {}"
  "re_to e \<notin> V \<Longrightarrow> re_to e = t \<Longrightarrow> starts_path g t V d e = {[e]}"
  "re_to e \<notin> V \<Longrightarrow> re_to e \<noteq> t \<Longrightarrow>
     starts_path g t V d e = (#) e ` {es. extends_to g t (insert (re_to e) V) (re_to e) es \<and> length es \<le> d}"
proof -
  have nonempty: "es \<noteq> []" if "extends_to g t W c es" for W c es using that by auto
  show "re_to e \<in> V \<Longrightarrow> starts_path g t V d e = {}" by (simp add: starts_path_def)
  show "re_to e \<notin> V \<Longrightarrow> re_to e = t \<Longrightarrow> starts_path g t V d e = {[e]}"
    unfolding starts_path_def by (auto simp del: extends_to.simps)
  show "re_to e \<notin> V \<Longrightarrow> re_to e \<noteq> t \<Longrightarrow>
     starts_path g t V d e = (#) e ` {es. extends_to g t (insert (re_to e) V) (re_to e) es \<and> length es \<le> d}"
    unfolding starts_path_def using nonempty by (auto simp del: extends_to.simps split: if_splits)
qed

lemma walk_edges_paths:
  assumes walk: "\<And>c cs rs V P. \<exists>ps. walk g t d c cs rs (V, P) = (V, P @ ps) \<and>
    set ps = path_of cs rs ` {es. extends_to g t V c es \<and> length es \<le> d}"
  shows "\<exists>ps. walk_edges g t d cs rs edges (V, P) = (V, P @ ps) \<and>
    set ps = path_of cs rs ` (\<Union>e\<in>set edges. starts_path g t V d e)"
proof (induction edges arbitrary: P)
  case (Cons e edges)
  consider "re_to e \<in> V" | "re_to e \<notin> V" "re_to e = t" | "re_to e \<notin> V" "re_to e \<noteq> t" by blast
  then show ?case
  proof cases
    case 1
    with Cons.IH [of P] show ?thesis by (simp add: starts_path_cases)
  next
    case 2
    from Cons.IH [of "P @ [path_of cs rs [e]]"] obtain ps where
      ps: "walk_edges g t d cs rs edges (V, P @ [path_of cs rs [e]]) = (V, (P @ [path_of cs rs [e]]) @ ps)"
      "set ps = path_of cs rs ` (\<Union>e\<in>set edges. starts_path g t V d e)" by blast
    with 2 show ?thesis
      by (intro exI [of _ "path_of cs rs [e] # ps"]) (simp add: starts_path_cases path_of_def image_Un)
  next
    case 3
    from walk [of "re_to e" "cs @ [re_to e]" "rs @ [re_id e]" "insert (re_to e) V" P] obtain qs where
      qs: "walk g t d (re_to e) (cs @ [re_to e]) (rs @ [re_id e]) (insert (re_to e) V, P) =
          (insert (re_to e) V, P @ qs)"
      "set qs = path_of cs rs ` starts_path g t V d e"
      by (auto simp: starts_path_cases(3) [OF 3] image_image path_of_step)
    from Cons.IH [of "P @ qs"] obtain ps where
      ps: "walk_edges g t d cs rs edges (V, P @ qs) = (V, (P @ qs) @ ps)"
      "set ps = path_of cs rs ` (\<Union>e\<in>set edges. starts_path g t V d e)" by blast
    have "insert (re_to e) V - {re_to e} = V" using 3 by simp
    with 3 qs ps show ?thesis
      by (intro exI [of _ "qs @ ps"]) (simp add: image_Un)
  qed
qed simp

lemma walk_paths:
  "\<exists>ps. walk g t d c cs rs (V, P) = (V, P @ ps) \<and>
    set ps = path_of cs rs ` {es. extends_to g t V c es \<and> length es \<le> d}"
proof (induction d arbitrary: c cs rs V P)
  case 0
  have "{es. extends_to g t V c es \<and> length es \<le> 0} = {}" by auto
  then show ?case by simp
next
  case (Suc d)
  have "{es. extends_to g t V c es \<and> length es \<le> Suc d} =
      (\<Union>e\<in>set (relationships_from g c). starts_path g t V d e)"
  proof (intro set_eqI iffI)
    fix es assume "es \<in> {es. extends_to g t V c es \<and> length es \<le> Suc d}"
    then show "es \<in> (\<Union>e\<in>set (relationships_from g c). starts_path g t V d e)"
      by (cases es) (auto simp: starts_path_def)
  qed (auto simp: starts_path_def)
  then show ?case
    using walk_edges_paths [OF Suc.IH, of cs rs "relationships_from g c" V P] by simp
qed

section \<open>Concepts within some steps\<close>

definition rels_touching :: "ontology_graph_service \<Rightarrow> string set \<Rightarrow> ontology_relationship_edge set" where
  "rels_touching g C = {r \<in> set (bt_values (og_relationships g)). re_from r \<in> C \<or> re_to r \<in> C}"

definition endpoints_of :: "ontology_relationship_edge set \<Rightarrow> string set" where
  "endpoints_of R = (\<Union>r\<in>R. {re_from r, re_to r})"

lemma endpoints_Un [simp]: "endpoints_of (R \<union> R') = endpoints_of R \<union> endpoints_of R'"
  by (auto simp: endpoints_of_def)

lemma rels_touching_Un: "rels_touching g (A \<union> B) = rels_touching g A \<union> rels_touching g B"
  by (auto simp: rels_touching_def)

text \<open>The concepts at most \<open>n\<close> relationships away, in either direction.\<close>

fun within_steps :: "ontology_graph_service \<Rightarrow> nat \<Rightarrow> string set \<Rightarrow> string set" where
  "within_steps g 0 C = C"
| "within_steps g (Suc n) C = within_steps g n (C \<union> endpoints_of (rels_touching g C))"

lemma within_steps_closed: "endpoints_of (rels_touching g C) \<subseteq> C \<Longrightarrow> within_steps g n C = C"
  by (induction n) (simp_all add: Un_absorb2)

text \<open>What the inner loops collect.\<close>

lemma visit_candidate_sel:
  "nb_seen (visit_candidate c st) = insert c (nb_seen st)"
  "nb_next (visit_candidate c st) = nb_next st \<union> ({c} - nb_seen st)"
  "nb_rels (visit_candidate c st) = nb_rels st"
  by (auto simp: visit_candidate_def)

lemma visit_edge_sel:
  "nb_seen (visit_edge e st) = nb_seen st \<union> {re_from e, re_to e}"
  "nb_next (visit_edge e st) = nb_next st \<union> ({re_from e, re_to e} - nb_seen st)"
  "nb_rels (visit_edge e st) = bt_insert (re_id e) e (nb_rels st)"
  by (auto simp: visit_edge_def visit_candidate_sel)

lemma visit_edges_sel:
  "nb_seen (fold visit_edge es st) = nb_seen st \<union> endpoints_of (set es)"
  "nb_next (fold visit_edge es st) = nb_next st \<union> (endpoints_of (set es) - nb_seen st)"
  "nb_rels (fold visit_edge es st) = fold (\<lambda>e. bt_insert (re_id e) e) es (nb_rels st)"
proof -
  show "nb_seen (fold visit_edge es st) = nb_seen st \<union> endpoints_of (set es)"
    by (induction es arbitrary: st) (auto simp: visit_edge_sel endpoints_of_def)
  show "nb_next (fold visit_edge es st) = nb_next st \<union> (endpoints_of (set es) - nb_seen st)"
    by (induction es arbitrary: st) (auto simp: visit_edge_sel endpoints_of_def)
  show "nb_rels (fold visit_edge es st) = fold (\<lambda>e. bt_insert (re_id e) e) es (nb_rels st)"
    by (induction es arbitrary: st) (auto simp: visit_edge_sel)
qed

lemma visit_concepts: "fold (visit_concept g) cs st = fold visit_edge (concat (map (touching g) cs)) st"
  by (induction cs arbitrary: st) (simp_all add: visit_concept_def)

lemma set_touching: "finite F \<Longrightarrow> set (concat (map (touching g) (sorted_list_of_set F))) = rels_touching g F"
  by (auto simp: touching_def rels_touching_def)

section \<open>Well-formed graphs\<close>

definition graph_wf :: "ontology_graph_service \<Rightarrow> bool" where
  "graph_wf g \<longleftrightarrow> bt_wf (og_relationships g) \<and> list_all (\<lambda>(k, r). re_id r = k) (og_relationships g)"

definition holds_rels ::
  "ontology_graph_service \<Rightarrow> (string, ontology_relationship_edge) btree \<Rightarrow> ontology_relationship_edge set \<Rightarrow> bool" where
  "holds_rels g m R \<longleftrightarrow> bt_wf m \<and>
     (\<forall>i. bt_get m i = (case bt_get (og_relationships g) i of
        None \<Rightarrow> None | Some r \<Rightarrow> if r \<in> R then Some r else None))"

lemma graph_wf_get:
  assumes "graph_wf g" "e \<in> set (bt_values (og_relationships g))"
  shows "bt_get (og_relationships g) (re_id e) = Some e"
proof -
  obtain k where k: "(k, e) \<in> set (og_relationships g)" using assms(2) by (auto simp: bt_values_def)
  then have "re_id e = k" using assms(1) by (auto simp: graph_wf_def list_all_iff)
  with k assms(1) show ?thesis by (simp add: graph_wf_def bt.mem_entries_iff)
qed

lemma holds_rels_insert:
  assumes "graph_wf g" "e \<in> set (bt_values (og_relationships g))" "holds_rels g m R"
  shows "holds_rels g (bt_insert (re_id e) e m) (insert e R)"
proof -
  have ids: "re_id r = i" if "bt_get (og_relationships g) i = Some r" for i r
    using assms(1) that unfolding graph_wf_def by (auto simp: bt_get_def list_all_iff dest: map_of_SomeD)
  have "bt_get (bt_insert (re_id e) e m) i = (case bt_get (og_relationships g) i of
        None \<Rightarrow> None | Some r \<Rightarrow> if r \<in> insert e R then Some r else None)" for i
  proof (cases "i = re_id e")
    case True
    then show ?thesis by (simp add: graph_wf_get [OF assms(1,2)])
  next
    case False
    then have "r \<noteq> e" if "bt_get (og_relationships g) i = Some r" for r using ids [OF that] by auto
    with False show ?thesis using assms(3) by (auto simp: holds_rels_def split: option.splits)
  qed
  then show ?thesis using assms(3) by (simp add: holds_rels_def)
qed

lemma holds_rels_fold:
  assumes "graph_wf g" "set es \<subseteq> set (bt_values (og_relationships g))" "holds_rels g m R"
  shows "holds_rels g (fold (\<lambda>e. bt_insert (re_id e) e) es m) (R \<union> set es)"
  using assms(2,3)
proof (induction es arbitrary: m R)
  case (Cons e es)
  then have "holds_rels g (bt_insert (re_id e) e m) (insert e R)"
    using assms(1) by (intro holds_rels_insert) auto
  from Cons.IH [OF _ this] Cons.prems(1) show ?case by simp
qed simp

lemma bt_values_filter: "bt_values (filter (\<lambda>kv. P (snd kv)) m) = filter P (bt_values m)"
  by (induction m) (auto simp: bt_values_def)

lemma bt_get_filter:
  "bt_wf m \<Longrightarrow> bt_get (filter (\<lambda>kv. P (snd kv)) m) i =
     (case bt_get m i of None \<Rightarrow> None | Some r \<Rightarrow> if P r then Some r else None)"
proof (induction m)
  case (Cons kv m)
  have "bt_get (filter (\<lambda>kv. P (snd kv)) m) (fst kv) = None"
    using Cons.prems by (intro bt_get_notin) auto
  with Cons show ?case by auto
qed simp

lemma holds_rels_values:
  assumes "graph_wf g" "holds_rels g m R"
  shows "bt_values m = filter (\<lambda>r. r \<in> R) (bt_values (og_relationships g))"
proof -
  have wf: "bt_wf (og_relationships g)" using assms(1) by (simp add: graph_wf_def)
  have "m = filter (\<lambda>kv. snd kv \<in> R) (og_relationships g)"
    using assms(2) by (intro bt_ext) (auto simp: holds_rels_def bt_get_filter [OF wf, where P = "\<lambda>r. r \<in> R"] fun_eq_iff
        intro: bt_wf_filter [OF wf])
  then show ?thesis by (simp add: bt_values_filter [where P = "\<lambda>r. r \<in> R"])
qed

section \<open>Rounds of the neighbour search\<close>

definition round_of ::
  "ontology_graph_service \<Rightarrow> string set \<Rightarrow> string set \<Rightarrow> (string, ontology_relationship_edge) btree \<Rightarrow> neighbor_state" where
  "round_of g F S m = fold (visit_concept g) (sorted_list_of_set F) \<lparr>nb_seen = S, nb_rels = m, nb_next = {}\<rparr>"

lemma round_state:
  assumes "graph_wf g" "finite F" "F \<subseteq> S" "endpoints_of (rels_touching g (S - F)) \<subseteq> S"
    "holds_rels g m (rels_touching g (S - F))"
  shows "nb_seen (round_of g F S m) = S \<union> endpoints_of (rels_touching g S)"
    and "nb_next (round_of g F S m) = S \<union> endpoints_of (rels_touching g S) - S"
    and "holds_rels g (nb_rels (round_of g F S m)) (rels_touching g S)"
proof -
  have S: "rels_touching g S = rels_touching g (S - F) \<union> rels_touching g F"
    using assms(3) rels_touching_Un [of g "S - F" F] by (simp add: Un_absorb2)
  note sel = visit_concepts visit_edges_sel set_touching [OF assms(2)]
  show "nb_seen (round_of g F S m) = S \<union> endpoints_of (rels_touching g S)"
    using assms(4) unfolding S by (auto simp: round_of_def sel simp del: set_concat set_map)
  show "nb_next (round_of g F S m) = S \<union> endpoints_of (rels_touching g S) - S"
    using assms(4) unfolding S by (auto simp: round_of_def sel simp del: set_concat set_map)
  show "holds_rels g (nb_rels (round_of g F S m)) (rels_touching g S)"
    unfolding S round_of_def sel neighbor_state.select_convs
    using holds_rels_fold [OF assms(1) _ assms(5), of "concat (map (touching g) (sorted_list_of_set F))"]
    unfolding set_touching [OF assms(2)] by (auto simp: rels_touching_def)
qed

lemma neighbor_rounds_Suc:
  "neighbor_rounds g (Suc n) F S m =
     (if nb_next (round_of g F S m) = {} then nb_rels (round_of g F S m)
      else neighbor_rounds g n (nb_next (round_of g F S m)) (nb_seen (round_of g F S m)) (nb_rels (round_of g F S m)))"
  by (simp add: round_of_def Let_def)

lemma neighbor_rounds_collect:
  assumes "graph_wf g" "finite F" "F \<subseteq> S" "endpoints_of (rels_touching g (S - F)) \<subseteq> S"
    "holds_rels g m (rels_touching g (S - F))"
  shows "holds_rels g (neighbor_rounds g (Suc n) F S m) (rels_touching g (within_steps g n S))"
  using assms(2-)
proof (induction n arbitrary: F S m)
  case (0 F S m)
  note rs = round_state [OF assms(1) this]
  show ?case using rs(3) by (simp add: neighbor_rounds_Suc del: neighbor_rounds.simps(2))
next
  case (Suc n F S m)
  let ?S' = "S \<union> endpoints_of (rels_touching g S)"
  note rs = round_state [OF assms(1) Suc.prems]
  show ?case
  proof (cases "endpoints_of (rels_touching g S) \<subseteq> S")
    case True
    then have "within_steps g (Suc n) S = S" by (rule within_steps_closed)
    then show ?thesis
      unfolding neighbor_rounds_Suc [of g "Suc n"] using rs True by (simp del: neighbor_rounds.simps(2))
  next
    case False
    have S: "?S' - (?S' - S) = S" by blast
    have fin: "finite (?S' - S)"
      by (rule finite_subset [of _ "endpoints_of (set (bt_values (og_relationships g)))"])
        (auto simp: endpoints_of_def rels_touching_def)
    have "holds_rels g (neighbor_rounds g (Suc n) (?S' - S) ?S' (nb_rels (round_of g F S m)))
        (rels_touching g (within_steps g n ?S'))"
      by (rule Suc.IH) (use rs fin in \<open>auto simp: S\<close>)
    then show ?thesis
      unfolding neighbor_rounds_Suc [of g "Suc n"] rs(1,2) within_steps.simps(2) using False by auto
  qed
qed

text \<open>Graphs built from concepts and relationships are well-formed.\<close>

lemma bt_collect_ids: "list_all (\<lambda>(k, r). f r = k) (bt_collect (map (\<lambda>r. (f r, r)) xs))"
proof -
  have "list_all (\<lambda>(k, r). f r = k) (fold (\<lambda>(k, v). bt_insert k v) (map (\<lambda>r. (f r, r)) xs) m)"
    if "list_all (\<lambda>(k, r). f r = k) m" for m
    using that by (induction xs arbitrary: m) (auto simp: list_all_bt_insert)
  then show ?thesis by (simp add: bt_collect_def)
qed

lemma graph_wf_new: "ontology_graph_new cs rs = Ok g \<Longrightarrow> graph_wf g"
  by (auto simp: ontology_graph_new_def Let_def graph_wf_def bt_collect_ids split: sum.splits)

end
