(* ===== verification/Ontology_Props.thy ===== *)
theory Ontology_Props
  imports Ontology_Graph
begin

text \<open>
  The properties of the ontology graph: both searches find exactly what they are meant to.
\<close>

definition demo_edge :: "string \<Rightarrow> string \<Rightarrow> string \<Rightarrow> ontology_relationship_edge" where
  "demo_edge i a b = \<lparr>re_id = i, re_from = a, re_to = b, re_label = None\<rparr>"

definition demo_node :: "string \<Rightarrow> ontology_concept_node" where
  "demo_node i = \<lparr>cn_id = i, cn_label = None\<rparr>"

lemma path_order:
  "(\<lambda>l r. ord_then (cmp (tp_relationships l) (tp_relationships r)) (cmp (tp_concepts l) (tp_concepts r))) =
   (\<lambda>l r. cmp (tp_relationships l, tp_concepts l) (tp_relationships r, tp_concepts r))"
  by (auto simp: fun_eq_iff cmp_def)

text \<open>Property C27. The type paths from one concept to another are exactly the simple paths of at
  least one and at most \<open>max_depth\<close> relationships, each step following a relationship of the
  graph in its direction; they come ordered by their relationships, and asking for a concept
  that does not exist is an error.\<close>

theorem type_paths_exact:
  "case find_type_paths g a b max_depth of
     Err e \<Rightarrow> err_code e = ''ontology_concept_missing'' \<and> (og_concept g a = None \<or> og_concept g b = None)
   | Ok ps \<Rightarrow>
       og_concept g a \<noteq> None \<and> og_concept g b \<noteq> None \<and>
       sorted (map (\<lambda>p. (tp_relationships p, tp_concepts p)) ps) \<and>
       (\<forall>p. p \<in> set ps \<longleftrightarrow>
          (\<exists>es. es \<noteq> [] \<and> length es \<le> unat max_depth \<and> set es \<subseteq> set (og_relationship_list g) \<and>
             chained a es \<and> re_to (last es) = b \<and> distinct (a # map re_to es) \<and>
             p = \<lparr>tp_concepts = a # map re_to es, tp_relationships = map re_id es\<rparr>))"
proof (cases "og_concept g a = None \<or> og_concept g b = None")
  case True
  then show ?thesis by (auto simp: find_type_paths_def require_concept_def og_concept_def)
next
  case False
  obtain ps where ps: "walk g b (unat max_depth) a [a] [] ({a}, []) = ({a}, ps)"
    "set ps = path_of [a] [] ` {es. extends_to g b {a} a es \<and> length es \<le> unat max_depth}"
    using walk_paths [of g b "unat max_depth" a "[a]" "[]" "{a}" "[]"] by auto
  have res: "find_type_paths g a b max_depth =
      Ok (sort_key (\<lambda>p. (tp_relationships p, tp_concepts p)) (if max_depth = 0 then [] else ps))"
    using False ps(1)
    by (simp add: find_type_paths_def require_concept_def og_concept_def path_order
        sort_by_key [where f = "\<lambda>p. (tp_relationships p, tp_concepts p)"])
  have "p \<in> set (if max_depth = 0 then [] else ps) \<longleftrightarrow>
      (\<exists>es. es \<noteq> [] \<and> length es \<le> unat max_depth \<and> set es \<subseteq> set (og_relationship_list g) \<and>
             chained a es \<and> re_to (last es) = b \<and> distinct (a # map re_to es) \<and>
             p = \<lparr>tp_concepts = a # map re_to es, tp_relationships = map re_id es\<rparr>)" for p
  proof (cases "max_depth = 0")
    case True
    then show ?thesis by auto
  next
    case nonzero: False
    then show ?thesis
      by (auto simp: ps(2) extends_to_iff path_of_def og_relationship_list_def)
  qed
  then show ?thesis using False unfolding res by simp
qed

text \<open>Property C28. The neighbours of a concept up to a depth are exactly the relationships with an
  end less than that many steps away from it, in either direction, in the order of their ids.\<close>

theorem neighbors_exact:
  assumes "ontology_graph_new cs rs = Ok g" and "og_concept g a \<noteq> None" and "0 < depth"
  shows "neighbors g a depth =
    Ok (filter (\<lambda>r. re_from r \<in> within_steps g (unat depth - 1) {a} \<or>
                    re_to r \<in> within_steps g (unat depth - 1) {a}) (og_relationship_list g))"
proof -
  note wf = graph_wf_new [OF assms(1)]
  have d: "unat depth = Suc (unat depth - 1)" using assms(3) by (simp add: word_less_nat_alt)
  have none: "rels_touching g {} = {}" by (simp add: rels_touching_def)
  have "holds_rels g (neighbor_rounds g (Suc (unat depth - 1)) {a} {a} [])
      (rels_touching g (within_steps g (unat depth - 1) {a}))"
    by (rule neighbor_rounds_collect [OF wf])
      (simp_all add: none endpoints_of_def holds_rels_def split: option.split)
  from holds_rels_values [OF wf this] d show ?thesis
    using assms(2,3)
    by (auto simp: neighbors_def require_concept_def og_concept_def og_relationship_list_def rels_touching_def
        intro!: filter_cong)
qed

theorem neighbors_exact_witness:
  "neighbors (projr (ontology_graph_new [demo_node ''a'', demo_node ''b''] [demo_edge ''r'' ''a'' ''b''])) ''b'' 1
     = Ok [demo_edge ''r'' ''a'' ''b'']"
proof -
  obtain g where g: "ontology_graph_new [demo_node ''a'', demo_node ''b''] [demo_edge ''r'' ''a'' ''b''] = Ok g"
    and c: "og_concept g ''b'' \<noteq> None" and l: "og_relationship_list g = [demo_edge ''r'' ''a'' ''b'']"
    by (simp add: ontology_graph_new_def bt_collect_def bt_values_def demo_node_def demo_edge_def
        og_concept_def og_relationship_list_def)
  have "neighbors g ''b'' 1 = Ok [demo_edge ''r'' ''a'' ''b'']"
    using neighbors_exact [OF g c, of 1] by (simp add: l demo_edge_def)
  then show ?thesis by (simp add: g)
qed

end
