(* ===== verification/Policy.thy ===== *)
theory Policy
  imports Sorx_Model
begin

text \<open>
  \<^verbatim>\<open>greentic-sorx-core/src/policy.rs\<close>, \<^verbatim>\<open>approval.rs\<close> and \<^verbatim>\<open>audit.rs\<close>: the risk policy, the
  ontology policy, the approval brokers and the audit events.
\<close>

section \<open>Risk policy\<close>

datatype policy_mode = ModeAuto | ModeRequireApproval | ModeDeny

definition parse_policy_mode :: "string \<Rightarrow> policy_mode option" where
  "parse_policy_mode v =
     (if v = ''auto'' then Some ModeAuto
      else if v = ''require_approval'' then Some ModeRequireApproval
      else if v = ''deny'' then Some ModeDeny
      else None)"

record policy_config =
  approvals :: "(risk_level, policy_mode) btree"

definition policy_config_default :: policy_config where
  "policy_config_default = \<lparr>approvals = bt_collect
     [(Low, ModeAuto), (Medium, ModeAuto), (High, ModeRequireApproval), (Critical, ModeDeny)]\<rparr>"

definition insert_mode ::
  "string \<times> string \<Rightarrow> (risk_level, policy_mode) btree \<Rightarrow> (risk_level, policy_mode) btree" where
  "insert_mode rm a =
     (case (parse_risk (fst rm), parse_policy_mode (snd rm)) of
        (Some risk, Some m) \<Rightarrow> bt_insert risk m a
      | _ \<Rightarrow> a)"

definition policy_config_from_modes :: "(string, string) btree \<Rightarrow> policy_config" where
  "policy_config_from_modes modes = \<lparr>approvals = fold insert_mode modes (approvals policy_config_default)\<rparr>"

text \<open>The default has a mode for every risk, so the indexing in \<^verbatim>\<open>mode_for\<close> cannot panic.\<close>

definition mode_for :: "policy_config \<Rightarrow> risk_level \<Rightarrow> policy_mode" where
  "mode_for c risk =
     (case bt_get (approvals c) risk of
        Some m \<Rightarrow> m
      | None \<Rightarrow> the (bt_get (approvals policy_config_default) risk))"

datatype policy_action = Execute | RequireApproval | Deny

record policy_decision =
  pd_action :: policy_action
  pd_reason :: string

definition policy_decide :: "policy_config \<Rightarrow> endpoint_definition \<Rightarrow> policy_decision" where
  "policy_decide c ep =
     (case mode_for c (ep_risk ep) of
        ModeAuto \<Rightarrow>
          (if (case ep_approval ep of None \<Rightarrow> False | Some a \<Rightarrow> apr_required a)
           then \<lparr>pd_action = RequireApproval, pd_reason = ''Endpoint metadata requires approval''\<rparr>
           else \<lparr>pd_action = Execute, pd_reason = ''Policy allows automatic execution''\<rparr>)
      | ModeRequireApproval \<Rightarrow>
          \<lparr>pd_action = RequireApproval, pd_reason = ''Risk policy requires approval''\<rparr>
      | ModeDeny \<Rightarrow> \<lparr>pd_action = Deny, pd_reason = ''Risk policy denies execution''\<rparr>)"

section \<open>Authorization policies\<close>

datatype authorization_policy_resource = EndpointResource string | RecordResource string

record authorization_policy_input =
  principal_subject :: string
  principal_roles :: "string list"
  ap_resource :: authorization_policy_resource
  ap_operation :: string
  ap_policies :: "string list"
  ap_conditions :: "json option"

definition decide_authorization :: "authorization_policy_input \<Rightarrow> policy_decision" where
  "decide_authorization i =
     (if ap_policies i = [] \<and> ap_conditions i = None
      then \<lparr>pd_action = Execute, pd_reason = ''No authorization policies were declared''\<rparr>
      else \<lparr>pd_action = Execute, pd_reason = ''Authorization policy inputs accepted''\<rparr>)"

section \<open>Ontology policy\<close>

record ontology_policy_subject =
  ops_subject :: string
  ops_roles :: "string list"

datatype ontology_policy_resource =
    Concept string
  | Entity string string
  | Field string string
  | Relationship string
  | Evidence string string
  | Action string
  | ExternalReference string

datatype ontology_policy_action = OpRead | OpTraverse | OpRetrieveEvidence | OpInvoke | OpExecute | OpResolve

datatype ontology_policy_decision_kind = OpAllow | OpDeny | OpRequiresApproval

record ontology_policy_reason =
  opr_code :: string
  opr_message :: string

record ontology_policy_redaction =
  oprd_entity_type :: string
  oprd_field :: string

record ontology_policy_decision =
  opd_decision :: ontology_policy_decision_kind
  opd_reasons :: "ontology_policy_reason list"
  opd_redactions :: "ontology_policy_redaction list"

record sensitivity_context =
  sensitive_fields :: "(string, string set) btree"
  denied_relationships :: "string set"
  evidence_requires_approval :: bool

definition ontology_allow :: ontology_policy_decision where
  "ontology_allow = \<lparr>opd_decision = OpAllow, opd_reasons = [], opd_redactions = []\<rparr>"

definition field_is_sensitive :: "sensitivity_context \<Rightarrow> string \<Rightarrow> string \<Rightarrow> bool" where
  "field_is_sensitive c t f \<longleftrightarrow> (case bt_get (sensitive_fields c) t of None \<Rightarrow> False | Some fs \<Rightarrow> f \<in> fs)"

definition decide_ontology ::
  "ontology_policy_subject \<Rightarrow> ontology_policy_resource \<Rightarrow> ontology_policy_action \<Rightarrow>
   sensitivity_context \<Rightarrow> ontology_policy_decision" where
  "decide_ontology subject resource action sensitivity =
     (case (resource, action) of
        (Field t f, OpRead) \<Rightarrow>
          (if field_is_sensitive sensitivity t f \<and> ''pii_reader'' \<notin> set (ops_roles subject)
           then \<lparr>opd_decision = OpDeny,
                 opd_reasons = [\<lparr>opr_code = ''pii_requires_policy'',
                                 opr_message = t @ ''.'' @ f @ '' is marked as sensitive''\<rparr>],
                 opd_redactions = [\<lparr>oprd_entity_type = t, oprd_field = f\<rparr>]\<rparr>
           else ontology_allow)
      | (Relationship r, OpTraverse) \<Rightarrow>
          (if r \<in> denied_relationships sensitivity
           then \<lparr>opd_decision = OpDeny,
                 opd_reasons = [\<lparr>opr_code = ''relationship_traversal_denied'',
                                 opr_message = ''relationship `'' @ r @ ''` traversal is denied''\<rparr>],
                 opd_redactions = []\<rparr>
           else ontology_allow)
      | (Evidence t i, OpRetrieveEvidence) \<Rightarrow>
          (if evidence_requires_approval sensitivity
           then \<lparr>opd_decision = OpRequiresApproval,
                 opd_reasons = [\<lparr>opr_code = ''evidence_requires_approval'',
                                 opr_message = ''evidence retrieval requires approval''\<rparr>],
                 opd_redactions = []\<rparr>
           else ontology_allow)
      | (Action i, OpExecute) \<Rightarrow>
          (if ''action_executor'' \<notin> set (ops_roles subject)
           then \<lparr>opd_decision = OpRequiresApproval,
                 opd_reasons = [\<lparr>opr_code = ''action_requires_approval'',
                                 opr_message = ''side-effectful action requires approval''\<rparr>],
                 opd_redactions = []\<rparr>
           else ontology_allow)
      | _ \<Rightarrow> ontology_allow)"

section \<open>Approval\<close>

record approval_request =
  arq_request_id :: string
  arq_tenant_id :: string
  arq_endpoint_id :: string
  arq_operation_id :: string
  arq_risk :: risk_level
  arq_reason :: string
  arq_caller :: caller_context

datatype approval_status = Approved | ApprovalDenied | ApprovalPending

record approval_decision =
  ad_status :: approval_status
  ad_request_id :: string
  ad_reason :: string

definition local_auto_approve :: "approval_request \<Rightarrow> approval_decision sorx_result" where
  "local_auto_approve q = Ok \<lparr>ad_status = Approved, ad_request_id = arq_request_id q,
     ad_reason = ''Local auto-approval broker approved request''\<rparr>"

definition local_deny :: "approval_request \<Rightarrow> approval_decision sorx_result" where
  "local_deny q = Ok \<lparr>ad_status = ApprovalDenied, ad_request_id = arq_request_id q,
     ad_reason = ''Local deny broker denied request''\<rparr>"

definition local_pending :: "approval_request \<Rightarrow> approval_decision sorx_result" where
  "local_pending q = Ok \<lparr>ad_status = ApprovalPending, ad_request_id = arq_request_id q, ad_reason = arq_reason q\<rparr>"

section \<open>Audit events\<close>

record sorx_audit_event =
  sa_event :: string
  sa_pack :: string
  sa_version :: string
  sa_tenant_id :: string
  sa_endpoint_id :: string
  sa_operation_id :: string
  sa_risk :: risk_level
  sa_caller_id :: string
  sa_decision :: "string option"
  sa_duration_ms :: "u64 option"
  sa_idempotency_key_present :: bool
  sa_details :: json_map

section \<open>Properties of the policies\<close>

lemma default_mode:
  "bt_get (approvals policy_config_default) risk =
     Some (case risk of Low \<Rightarrow> ModeAuto | Medium \<Rightarrow> ModeAuto | High \<Rightarrow> ModeRequireApproval | Critical \<Rightarrow> ModeDeny)"
  by (cases risk) (simp_all add: policy_config_default_def bt_get_collect)

text \<open>The entries of a configuration that set the mode of a risk level.\<close>

definition modes_for :: "risk_level \<Rightarrow> (string, string) btree \<Rightarrow> (string, string) btree" where
  "modes_for risk modes =
     filter (\<lambda>rm. parse_risk (fst rm) = Some risk \<and> parse_policy_mode (snd rm) \<noteq> None) modes"

lemma fold_insert_mode_get:
  "bt_get (fold insert_mode ms a) risk =
     (if modes_for risk ms = [] then bt_get a risk else parse_policy_mode (snd (last (modes_for risk ms))))"
proof (induction ms rule: rev_induct)
  case (snoc rm ms)
  show ?case
  proof (cases "parse_risk (fst rm)"; cases "parse_policy_mode (snd rm)")
    fix r m assume "parse_risk (fst rm) = Some r" "parse_policy_mode (snd rm) = Some m"
    then show ?thesis using snoc by (auto simp: insert_mode_def modes_for_def)
  qed (use snoc in \<open>simp_all add: insert_mode_def modes_for_def\<close>)
qed (simp add: modes_for_def)

text \<open>Property C29. Under a configured policy an endpoint executes without approval exactly when its
  metadata does not require approval and its risk is set to automatic: by the last entry of
  the configuration that parses for this risk, or, without one, because the risk is low or
  medium.\<close>

theorem policy_executes_iff:
  "pd_action (policy_decide (policy_config_from_modes modes) ep) = Execute \<longleftrightarrow>
     (case modes_for (ep_risk ep) modes of
        [] \<Rightarrow> ep_risk ep \<le> Medium
      | _ \<Rightarrow> parse_policy_mode (snd (last (modes_for (ep_risk ep) modes))) = Some ModeAuto) \<and>
     (case ep_approval ep of None \<Rightarrow> True | Some a \<Rightarrow> \<not> apr_required a)"
proof -
  have risk: "ep_risk ep \<le> Medium \<longleftrightarrow>
      (case ep_risk ep of Low \<Rightarrow> ModeAuto | Medium \<Rightarrow> ModeAuto | High \<Rightarrow> ModeRequireApproval | Critical \<Rightarrow> ModeDeny)
        = ModeAuto"
    by (cases "ep_risk ep") (simp_all add: less_eq_risk_level_def)
  have valid: "parse_policy_mode (snd (last (modes_for r ms))) \<noteq> None" if "modes_for r ms \<noteq> []" for r ms
    using last_in_set [OF that] by (simp add: modes_for_def)
  have mode: "mode_for (policy_config_from_modes modes) (ep_risk ep) = ModeAuto \<longleftrightarrow>
      (case modes_for (ep_risk ep) modes of
        [] \<Rightarrow> ep_risk ep \<le> Medium
      | _ \<Rightarrow> parse_policy_mode (snd (last (modes_for (ep_risk ep) modes))) = Some ModeAuto)"
    using valid [of "ep_risk ep" modes] unfolding risk
    by (auto simp: mode_for_def policy_config_from_modes_def fold_insert_mode_get default_mode
        split: list.split option.split)
  show ?thesis
    unfolding mode [symmetric]
    by (cases "mode_for (policy_config_from_modes modes) (ep_risk ep)")
      (auto simp: policy_decide_def split: option.splits)
qed

text \<open>Property C30. The ontology policy denies exactly the reading of a sensitive field without the
  reader role and the traversal of a denied relationship, and it redacts exactly the field of a
  denied read; it asks for approval exactly for evidence under that restriction and for actions
  without the executor role.\<close>

theorem ontology_policy_exact:
  "let d = decide_ontology subject resource action c
   in (opd_decision d = OpDeny \<longleftrightarrow>
         (\<exists>t f. resource = Field t f \<and> action = OpRead \<and> field_is_sensitive c t f \<and>
                ''pii_reader'' \<notin> set (ops_roles subject)) \<or>
         (\<exists>r. resource = Relationship r \<and> action = OpTraverse \<and> r \<in> denied_relationships c)) \<and>
      (opd_decision d = OpRequiresApproval \<longleftrightarrow>
         (\<exists>t i. resource = Evidence t i \<and> action = OpRetrieveEvidence \<and> evidence_requires_approval c) \<or>
         (\<exists>i. resource = Action i \<and> action = OpExecute \<and> ''action_executor'' \<notin> set (ops_roles subject))) \<and>
      opd_redactions d =
        (case resource of
           Field t f \<Rightarrow> if opd_decision d = OpDeny then [\<lparr>oprd_entity_type = t, oprd_field = f\<rparr>] else []
         | _ \<Rightarrow> [])"
  unfolding Let_def decide_ontology_def ontology_allow_def
  by (cases resource; cases action) simp_all

text \<open>Declared authorization policies and conditions never deny anything: the decision
  is to execute for every input.\<close>

theorem authorization_policies_never_deny: "pd_action (decide_authorization i) = Execute"
  by (simp add: decide_authorization_def)

end
