(* ===== verification/Runtime_Values.thy ===== *)
theory Runtime_Values
  imports Sorx_Model
begin

text \<open>
  The functions on JSON values that the runtime applies around an operation
  (\<^verbatim>\<open>greentic-sorx-core/src/runtime.rs\<close>): validation of the input against its schema, the
  renaming of fields between a view and the canonical model, and the patches of control hooks
  (\<^verbatim>\<open>apply_value_patch\<close> in \<^verbatim>\<open>generic_runtime.rs\<close>).
\<close>

section \<open>Schema validation\<close>

definition join_path :: "string \<Rightarrow> string \<Rightarrow> string" where
  "join_path parent key = (if parent = [] then key else parent @ ''.'' @ key)"

definition display_path :: "string \<Rightarrow> string" where
  "display_path path = (if path = [] then ''$'' else path)"

definition invalid_input :: "string \<Rightarrow> string \<Rightarrow> sorx_error" where
  "invalid_input msg path = sorx_error_at_path ''invalid_input'' (Text msg) path"

definition type_matches :: "string \<Rightarrow> json \<Rightarrow> bool" where
  "type_matches expected value =
     (if expected = ''object'' then as_object value \<noteq> None
      else if expected = ''array'' then as_array value \<noteq> None
      else if expected = ''string'' then as_str value \<noteq> None
      else if expected = ''boolean'' then as_bool value \<noteq> None
      else if expected = ''integer'' then as_i64 value \<noteq> None
      else if expected = ''number'' then (case value of JNum n \<Rightarrow> True | _ \<Rightarrow> False)
      else True)"

definition check_schema_type :: "json \<Rightarrow> json \<Rightarrow> string \<Rightarrow> unit sorx_result" where
  "check_schema_type schema value path =
     (case jget_str schema ''type'' of
        None \<Rightarrow> Ok ()
      | Some expected \<Rightarrow>
          if type_matches expected value then Ok ()
          else Err (invalid_input (''expected '' @ expected) (display_path path)))"

fun check_required_keys :: "json list \<Rightarrow> json \<Rightarrow> string \<Rightarrow> unit sorx_result" where
  "check_required_keys [] value path = Ok ()"
| "check_required_keys (k # ks) value path =
     (case as_str k of
        None \<Rightarrow> check_required_keys ks value path
      | Some key \<Rightarrow>
          if jget value key = None
          then Err (invalid_input (''missing required input `'' @ key @ ''`'') (join_path path key))
          else check_required_keys ks value path)"

definition check_schema_required :: "json \<Rightarrow> json \<Rightarrow> string \<Rightarrow> unit sorx_result" where
  "check_schema_required schema value path =
     (case jget_array schema ''required'' of
        None \<Rightarrow> Ok ()
      | Some ks \<Rightarrow> check_required_keys ks value path)"

definition check_schema_enum :: "json \<Rightarrow> json \<Rightarrow> string \<Rightarrow> unit sorx_result" where
  "check_schema_enum schema value path =
     (case jget_array schema ''enum'' of
        None \<Rightarrow> Ok ()
      | Some vs \<Rightarrow>
          if value \<in> set vs then Ok ()
          else Err (invalid_input ''input value is not in the allowed enum'' (display_path path)))"

definition schema_properties :: "json \<Rightarrow> json_map" where
  "schema_properties schema = unwrap_or (Option.bind (jget schema ''properties'') as_object) []"

lemma bt_get_size: "bt_get m k = Some v \<Longrightarrow> size v < size (JObj m)"
proof (induction m)
  case (Cons kv m)
  obtain a b where "kv = (a, b)" by (cases kv)
  with Cons show ?case by (auto split: if_splits)
qed simp

lemma schema_properties_size:
  assumes "schema_properties schema = kv # rest"
  shows "size_list (size_prod (\<lambda>_. 0) size) (schema_properties schema) < size schema"
proof -
  obtain m where m: "jget schema ''properties'' = Some (JObj m)" "schema_properties schema = m"
    using assms by (auto simp: schema_properties_def bind_eq_Some_conv unwrap_or_def
        split: option.splits elim!: as_object.elims)
  then obtain s where "schema = JObj s" using jget_Some_obj by blast
  then have "size (JObj m) < size schema" using bt_get_size [of s _ "JObj m"] m(1) by simp
  with m(2) show ?thesis by simp
qed

text \<open>The properties are checked in key order; a key the value lacks is not checked.\<close>

function (sequential)
  validate_schema :: "json \<Rightarrow> json \<Rightarrow> string \<Rightarrow> unit sorx_result"
and validate_properties :: "json_map \<Rightarrow> json \<Rightarrow> string \<Rightarrow> unit sorx_result" where
  "validate_schema schema value path =
     (case check_schema_type schema value path of
        Err e \<Rightarrow> Err e
      | Ok _ \<Rightarrow>
          (case check_schema_required schema value path of
             Err e \<Rightarrow> Err e
           | Ok _ \<Rightarrow>
               (case (if schema_properties schema = [] then Ok ()
                      else validate_properties (schema_properties schema) value path) of
                  Err e \<Rightarrow> Err e
                | Ok _ \<Rightarrow> check_schema_enum schema value path)))"
| "validate_properties [] value path = Ok ()"
| "validate_properties ((key, child_schema) # rest) value path =
     (case jget value key of
        None \<Rightarrow> validate_properties rest value path
      | Some child \<Rightarrow>
          (case validate_schema child_schema child (join_path path key) of
             Err e \<Rightarrow> Err e
           | Ok _ \<Rightarrow> validate_properties rest value path))"
  by pat_completeness auto
termination
proof (relation "measure (\<lambda>x. case x of Inl (s, v, p) \<Rightarrow> size s
      | Inr (ps, v, p) \<Rightarrow> size_list (size_prod (\<lambda>_. 0) size) ps)")
  fix schema v :: json and path
  assume "schema_properties schema \<noteq> []"
  then show "(Inr (schema_properties schema, v, path), Inl (schema, v, path))
    \<in> measure (\<lambda>x. case x of Inl (s, v, p) \<Rightarrow> size s
      | Inr (ps, v, p) \<Rightarrow> size_list (size_prod (\<lambda>_. 0) size) ps)"
    using schema_properties_size by (cases "schema_properties schema") auto
qed auto

declare validate_schema.simps [simp del]

definition validate_input :: "endpoint_definition \<Rightarrow> json \<Rightarrow> unit sorx_result" where
  "validate_input ep input =
     (case ep_input_schema ep of None \<Rightarrow> Ok () | Some schema \<Rightarrow> validate_schema schema input [])"

section \<open>Views\<close>

definition rename_object_fields :: "json \<Rightarrow> (string, string) btree \<Rightarrow> json" where
  "rename_object_fields value mapping =
     (if mapping = [] then value
      else case value of
             JObj m \<Rightarrow> JObj (bt_collect (map (\<lambda>(k, v). (unwrap_or (bt_get mapping k) k, v)) m))
           | _ \<Rightarrow> value)"

definition view_to_canonical :: "view_transform \<Rightarrow> json \<Rightarrow> json" where
  "view_to_canonical view input = rename_object_fields input (input_field_map view)"

definition rename_data :: "(string, string) btree \<Rightarrow> json_map \<Rightarrow> json_map" where
  "rename_data mapping m =
     (case bt_get m ''data'' of
        None \<Rightarrow> m
      | Some d \<Rightarrow> bt_insert ''data'' (rename_object_fields d mapping) (bt_remove ''data'' m))"

definition rename_record_data :: "(string, string) btree \<Rightarrow> json \<Rightarrow> json" where
  "rename_record_data mapping r = (case r of JObj m \<Rightarrow> JObj (rename_data mapping m) | _ \<Rightarrow> r)"

definition canonical_to_view :: "view_transform \<Rightarrow> json \<Rightarrow> json" where
  "canonical_to_view view out =
     (if output_field_map view = [] then out
      else case out of
             JObj m \<Rightarrow>
               let m1 = rename_data (output_field_map view) m
               in JObj (case bt_get m1 ''records'' of
                          Some (JArr rs) \<Rightarrow>
                            bt_insert ''records'' (JArr (map (rename_record_data (output_field_map view)) rs)) m1
                        | _ \<Rightarrow> m1)
           | _ \<Rightarrow> out)"

section \<open>Patches\<close>

text \<open>
  \<^verbatim>\<open>merge_object_patch\<close> walks the patch; a nested object of the patch is merged into the nested
  object it meets.
\<close>

function merge_object_patch :: "json_map \<Rightarrow> json_map \<Rightarrow> json_map" where
  "merge_object_patch target [] = target"
| "merge_object_patch target ((key, value) # rest) =
     merge_object_patch
       (if value = JNull then bt_remove key target
        else (case (bt_get target key, value) of
                (Some (JObj existing), JObj nested) \<Rightarrow>
                  bt_insert key (JObj (merge_object_patch existing nested)) target
              | _ \<Rightarrow> bt_insert key value target))
       rest"
  by pat_completeness auto
termination
  by (relation "measure (\<lambda>(t, p). size_list (size_prod (\<lambda>_. 0) size) p)") auto

definition apply_value_patch :: "json \<Rightarrow> json \<Rightarrow> json" where
  "apply_value_patch value patch =
     (case (value, patch) of
        (JObj target, JObj p) \<Rightarrow> JObj (merge_object_patch target p)
      | _ \<Rightarrow> patch)"

end
