(* ===== verification/Command_Values.thy ===== *)
theory Command_Values
  imports Runtime_Values Provider
begin

text \<open>
  The value language of command endpoints (\<^verbatim>\<open>greentic-sorx-core/src/runtime.rs\<close>): paths into
  JSON values, the execution context of a command, the resolution of \<^verbatim>\<open>$input\<close>, \<^verbatim>\<open>$item\<close>,
  \<^verbatim>\<open>$steps\<close> and \<^verbatim>\<open>$generated\<close> references, step conditions, ranks and increments.

  SHA-256, the clock that seeds generated values, and the text of an error message (it holds
  \<^verbatim>\<open>Debug\<close> renderings of JSON values) are fields of the generator environment.
\<close>

section \<open>Strings\<close>

text \<open>\<^verbatim>\<open>str::parse::<usize>\<close>: an optional plus sign, then at least one digit, no overflow.\<close>

definition decimal :: "string \<Rightarrow> nat" where
  "decimal ds = foldl (\<lambda>n c. 10 * n + (code c - 48)) 0 ds"

definition parse_usize :: "string \<Rightarrow> nat option" where
  "parse_usize s =
     (let ds = unwrap_or (strip_prefix ''+'' s) s
      in if ds = [] then None
         else if list_all is_ascii_digit ds \<and> decimal ds < 2 ^ 64 then Some (decimal ds)
         else None)"

definition show_int :: "int \<Rightarrow> string" where
  "show_int i = (if i < 0 then ''-'' @ show_nat (nat (- i)) else show_nat (nat i))"

definition ends_with :: "string \<Rightarrow> string \<Rightarrow> bool" where
  "ends_with s suf \<longleftrightarrow> drop (length s - length suf) s = suf"

fun str_contains :: "string \<Rightarrow> string \<Rightarrow> bool" where
  "str_contains [] needle = (needle = [])"
| "str_contains (c # s) needle = (strip_prefix needle (c # s) \<noteq> None \<or> str_contains s needle)"

definition split_once_dot :: "string \<Rightarrow> string \<times> string" where
  "split_once_dot s =
     (takeWhile (\<lambda>c. c \<noteq> CHR ''.'') s, tl (dropWhile (\<lambda>c. c \<noteq> CHR ''.'') s))"

definition json_usize :: "nat \<Rightarrow> json" where
  "json_usize n = JNum (PosInt (of_nat n))"

section \<open>Paths\<close>

definition path_step :: "json \<Rightarrow> string \<Rightarrow> json option" where
  "path_step v part =
     (case parse_usize part of
        Some i \<Rightarrow> (case v of JArr vs \<Rightarrow> if i < length vs then Some (vs ! i) else None | _ \<Rightarrow> None)
      | None \<Rightarrow> jget v part)"

fun path_steps :: "json \<Rightarrow> string list \<Rightarrow> json option" where
  "path_steps v [] = Some v"
| "path_steps v (p # ps) = (case path_step v p of None \<Rightarrow> None | Some w \<Rightarrow> path_steps w ps)"

definition command_lookup_path :: "json \<Rightarrow> string \<Rightarrow> json option" where
  "command_lookup_path v path = path_steps v (split_on (CHR ''.'') path)"

definition missing_command_path :: "string \<Rightarrow> string \<Rightarrow> sorx_error" where
  "missing_command_path scope path =
     sorx_error_at_path ''command_value_missing''
       (Text (''command '' @ scope @ '' path `'' @ path @ ''` is missing'')) path"

definition is_absent_command_value :: "json \<Rightarrow> bool" where
  "is_absent_command_value v \<longleftrightarrow> v = JNull \<or> v = JStr []"

section \<open>Steps\<close>

fun step_when :: "command_step \<Rightarrow> json option" where
  "step_when (CreateStep as_name cond entity collection input) = cond"
| "step_when (DeleteWhere as_name cond entity collection flt) = cond"
| "step_when (UpdateWhere as_name cond entity collection flt updates) = cond"
| "step_when (IncrementWhere as_name cond entity collection flt increments) = cond"
| "step_when (QueryStep as_name cond entity collection flt order_by) = cond"
| "step_when (FindOne as_name cond entity collection flt required) = cond"
| "step_when (EmitEvent as_name cond event payload stream) = cond"
| "step_when (Foreach as_name cond items steps) = cond"

fun step_as_name :: "command_step \<Rightarrow> string option" where
  "step_as_name (CreateStep as_name cond entity collection input) = as_name"
| "step_as_name (DeleteWhere as_name cond entity collection flt) = as_name"
| "step_as_name (UpdateWhere as_name cond entity collection flt updates) = as_name"
| "step_as_name (IncrementWhere as_name cond entity collection flt increments) = as_name"
| "step_as_name (QueryStep as_name cond entity collection flt order_by) = as_name"
| "step_as_name (FindOne as_name cond entity collection flt required) = as_name"
| "step_as_name (EmitEvent as_name cond event payload stream) = as_name"
| "step_as_name (Foreach as_name cond items steps) = as_name"

fun step_op_name :: "command_step \<Rightarrow> string" where
  "step_op_name (CreateStep as_name cond entity collection input) = ''create''"
| "step_op_name (DeleteWhere as_name cond entity collection flt) = ''delete_where''"
| "step_op_name (UpdateWhere as_name cond entity collection flt updates) = ''update_where''"
| "step_op_name (IncrementWhere as_name cond entity collection flt increments) = ''increment_where''"
| "step_op_name (QueryStep as_name cond entity collection flt order_by) = ''query''"
| "step_op_name (FindOne as_name cond entity collection flt required) = ''find_one''"
| "step_op_name (EmitEvent as_name cond event payload stream) = ''emit_event''"
| "step_op_name (Foreach as_name cond items steps) = ''foreach''"

definition skipped_step_output :: "command_step \<Rightarrow> json" where
  "skipped_step_output step = JObj [(''op'', JStr (step_op_name step)), (''skipped'', JBool True)]"

fun order_direction :: "command_order_direction \<Rightarrow> query_order_direction" where
  "order_direction CmdAsc = Asc"
| "order_direction CmdDesc = Desc"

definition command_order_by_of :: "command_order_by list \<Rightarrow> query_order list" where
  "command_order_by_of order_by =
     map (\<lambda>ob. \<lparr>qo_field = cob_field ob, qo_direction = order_direction (cob_direction ob)\<rparr>) order_by"

definition collect_command_records :: "json \<Rightarrow> json list" where
  "collect_command_records out =
     (case jget out ''record'' of None \<Rightarrow> [] | Some r \<Rightarrow> [r]) @
     unwrap_or (jget_array out ''records'') []"

definition command_unique_behavior ::
  "command_spec \<Rightarrow> string \<Rightarrow> unique_index list \<Rightarrow> unique_conflict_behavior" where
  "command_unique_behavior spec entity indexes =
     (case cc_idempotency (cs_constraints spec) of
        None \<Rightarrow> Reject
      | Some idempotency \<Rightarrow>
          if opt_or (cic_mode idempotency) (cs_idempotency spec) \<noteq> Some ''return_existing'' then Reject
          else (case cic_index idempotency of
                  None \<Rightarrow> Reject
                | Some index \<Rightarrow>
                    (case find (\<lambda>u. ui_id u = index \<and> ui_record u = entity) indexes of
                       Some u \<Rightarrow> ReturnExisting (ui_id u) (ui_fields u)
                     | None \<Rightarrow> Reject)))"

section \<open>Increments\<close>

text \<open>
  An \<^verbatim>\<open>f64\<close> is a multiple of $2^{-1074}$, so the exact sum of two is one too; it is rounded to
  53 significant bits, ties to even. From $2^{1024}$ on the sum is infinite.
\<close>

definition round_f64 :: "rat \<Rightarrow> rat" where
  "round_f64 x =
     (let n = round_nat_f64 (nat \<lfloor>\<bar>x\<bar> * 2 ^ 1074\<rfloor>)
      in (if x < 0 then - of_nat n else of_nat n) / 2 ^ 1074)"

definition f64_add :: "rat \<Rightarrow> rat \<Rightarrow> rat option" where
  "f64_add x y = (let s = round_f64 (x + y) in if \<bar>s\<bar> < 2 ^ 1024 then Some s else None)"

definition json_i64 :: "int \<Rightarrow> json" where
  "json_i64 i = JNum (if i < 0 then NegInt (of_int i) else PosInt (of_int i))"

text \<open>\<^verbatim>\<open>as i64\<close> saturates; a value that is not finite becomes \<^verbatim>\<open>null\<close>.\<close>

definition json_number_of :: "rat option \<Rightarrow> json" where
  "json_number_of v =
     (case v of
        None \<Rightarrow> JNull
      | Some x \<Rightarrow>
          if of_int \<lfloor>x\<rfloor> = x \<and> - (2 ^ 63) \<le> x \<and> x \<le> 2 ^ 63
          then json_i64 (min \<lfloor>x\<rfloor> (2 ^ 63 - 1))
          else JNum (Float x))"

fun as_f64 :: "json \<Rightarrow> rat option" where
  "as_f64 (JNum n) = Some (number_as_f64 n)"
| "as_f64 _ = None"

fun increment_fields :: "json \<Rightarrow> json_map \<Rightarrow> json_map \<Rightarrow> json_map sorx_result" where
  "increment_fields data [] patch = Ok patch"
| "increment_fields data ((field, amount) # rest) patch =
     (case as_f64 amount of
        None \<Rightarrow> Err (sorx_error_at_path ''command_increment_invalid''
                      (Text ''increment amount must be numeric'') field)
      | Some n \<Rightarrow>
          let current = unwrap_or (Option.bind (command_lookup_path data field) as_f64) 0
          in increment_fields data rest (bt_insert field (json_number_of (f64_add current n)) patch))"

definition increment_patch :: "json \<Rightarrow> json_map \<Rightarrow> json sorx_result" where
  "increment_patch data increments =
     (case increment_fields data increments [] of Err e \<Rightarrow> Err e | Ok patch \<Rightarrow> Ok (JObj patch))"

section \<open>Generated values\<close>

definition ALPHABET :: string where
  "ALPHABET = ''ABCDEFGHJKLMNPQRSTUVWXYZ23456789''"

definition generated_short_code :: "(string \<Rightarrow> u8 list) \<Rightarrow> string \<Rightarrow> nat \<Rightarrow> string" where
  "generated_short_code sha256 seed len =
     (let digest = sha256 seed
      in map (\<lambda>index. ALPHABET ! (unat (digest ! (index mod length digest)) mod length ALPHABET)) [0..<len])"

definition hex_digit :: "nat \<Rightarrow> char" where
  "hex_digit n = (if n < 10 then char_of (48 + n) else char_of (87 + n))"

text \<open>\<^verbatim>\<open>{:02x}\<close> of a byte.\<close>

definition hex2 :: "u8 \<Rightarrow> string" where
  "hex2 b = [hex_digit (unat b div 16), hex_digit (unat b mod 16)]"

definition generated_uuid :: "(string \<Rightarrow> u8 list) \<Rightarrow> string \<Rightarrow> string" where
  "generated_uuid sha256 seed =
     (let d = (\<lambda>i. sha256 seed ! i)
      in hex2 (d 0) @ hex2 (d 1) @ hex2 (d 2) @ hex2 (d 3) @ ''-'' @
         hex2 (d 4) @ hex2 (d 5) @ ''-4'' @
         hex2 (and (d 6) 15) @ hex2 (d 7) @ ''-8'' @
         hex2 (and (d 8) 63) @ hex2 (d 9) @ ''-'' @
         hex2 (d 10) @ hex2 (d 11) @ hex2 (d 12) @ hex2 (d 13) @ hex2 (d 14) @ hex2 (d 15))"

fun collect_generated_field_refs ::
  "json \<Rightarrow> string \<Rightarrow> (string, string) btree \<Rightarrow> (string, string) btree"
and collect_generated_in_object ::
  "json_map \<Rightarrow> string \<Rightarrow> (string, string) btree \<Rightarrow> (string, string) btree"
and collect_generated_in_array ::
  "nat \<Rightarrow> json list \<Rightarrow> string \<Rightarrow> (string, string) btree \<Rightarrow> (string, string) btree" where
  "collect_generated_field_refs (JStr text) path refs =
     (case strip_prefix ''$generated.'' text of Some name \<Rightarrow> bt_insert path name refs | None \<Rightarrow> refs)"
| "collect_generated_field_refs (JObj m) path refs = collect_generated_in_object m path refs"
| "collect_generated_field_refs (JArr vs) path refs = collect_generated_in_array 0 vs path refs"
| "collect_generated_field_refs _ path refs = refs"
| "collect_generated_in_object [] path refs = refs"
| "collect_generated_in_object ((key, v) # rest) path refs =
     collect_generated_in_object rest path (collect_generated_field_refs v (join_path path key) refs)"
| "collect_generated_in_array i [] path refs = refs"
| "collect_generated_in_array i (v # vs) path refs =
     collect_generated_in_array (Suc i) vs path
       (collect_generated_field_refs v (join_path path (show_nat i)) refs)"

definition generated_field_refs :: "json \<Rightarrow> (string, string) btree" where
  "generated_field_refs v = collect_generated_field_refs v [] []"

section \<open>The execution context\<close>

record command_context =
  cx_generated :: "(string, json) btree"
  cx_steps :: "json list"
  cx_named_steps :: json_map
  cx_local_named_steps :: "json_map list"
  cx_item :: "json option"
  cx_index :: "nat option"
  cx_now :: json
  cx_nonce :: u64

definition command_context_new :: "string \<Rightarrow> u64 \<Rightarrow> command_context" where
  "command_context_new now nonce =
     \<lparr>cx_generated = [], cx_steps = [], cx_named_steps = [], cx_local_named_steps = [],
      cx_item = None, cx_index = None, cx_now = JStr now, cx_nonce = nonce\<rparr>"

definition record_named :: "string option \<Rightarrow> json \<Rightarrow> command_context \<Rightarrow> command_context" where
  "record_named as_name out cx =
     (case as_name of
        None \<Rightarrow> cx
      | Some name \<Rightarrow>
          if cx_local_named_steps cx = []
          then cx\<lparr>cx_named_steps := bt_insert name out (cx_named_steps cx)\<rparr>
          else cx\<lparr>cx_local_named_steps :=
                    butlast (cx_local_named_steps cx) @
                    [bt_insert name out (last (cx_local_named_steps cx))]\<rparr>)"

definition record_step :: "string option \<Rightarrow> json \<Rightarrow> command_context \<Rightarrow> command_context" where
  "record_step as_name out cx =
     (let cx' = record_named as_name out cx
      in if cx_local_named_steps cx' = [] then cx'\<lparr>cx_steps := cx_steps cx' @ [out]\<rparr> else cx')"

definition push_iteration :: "json \<Rightarrow> nat \<Rightarrow> command_context \<Rightarrow> command_context" where
  "push_iteration item index cx =
     cx\<lparr>cx_item := Some item, cx_index := Some index,
        cx_local_named_steps := cx_local_named_steps cx @ [[]]\<rparr>"

definition pop_iteration :: "command_context \<Rightarrow> command_context" where
  "pop_iteration cx =
     cx\<lparr>cx_local_named_steps := butlast (cx_local_named_steps cx), cx_item := None, cx_index := None\<rparr>"

record gen_env =
  ge_endpoint :: endpoint_definition
  ge_invocation :: endpoint_invocation
  ge_sha256 :: "string \<Rightarrow> u8 list"
  ge_nanos :: "command_context \<Rightarrow> nat"
  ge_message_text :: "message \<Rightarrow> string"

definition generated_seed :: "gen_env \<Rightarrow> command_context \<Rightarrow> string" where
  "generated_seed g cx =
     ep_endpoint_id (ge_endpoint g) @ '':'' @ ep_operation_id (ge_endpoint g) @ '':'' @
     unwrap_or (inv_idempotency_key (ge_invocation g)) ''no-key'' @ '':'' @
     show_nat (length (cx_generated cx)) @ '':'' @ show_nat (unat (cx_nonce cx)) @ '':'' @
     show_nat (ge_nanos g cx)"

definition fresh_generated :: "gen_env \<Rightarrow> string \<Rightarrow> command_context \<Rightarrow> string" where
  "fresh_generated g name cx =
     (let seed = generated_seed g cx; sha256 = ge_sha256 g
      in if name = ''uuid'' then generated_uuid sha256 seed
         else if name = ''short_code'' \<or> name = ''invitation_code'' then generated_short_code sha256 seed 8
         else if name = ''referral_code'' then generated_short_code sha256 seed 10
         else if ends_with name ''_token'' then generated_short_code sha256 (seed @ '':'' @ name) 16
         else if ends_with name ''_code'' then generated_short_code sha256 (seed @ '':'' @ name) 10
         else generated_short_code sha256 (seed @ '':'' @ name) 12)"

definition generated_value :: "gen_env \<Rightarrow> string \<Rightarrow> command_context \<Rightarrow> json \<times> command_context" where
  "generated_value g name cx =
     (case bt_get (cx_generated cx) name of
        Some v \<Rightarrow> (v, cx)
      | None \<Rightarrow>
          let v = JStr (fresh_generated g name cx)
          in (v, cx\<lparr>cx_generated := bt_insert name v (cx_generated cx)\<rparr>))"

text \<open>
  The boolean says whether a generated field was reset; then the nonce becomes the next value
  of the process-wide counter.
\<close>

fun reset_named :: "string \<Rightarrow> (string, string) btree \<Rightarrow> (string, json) btree \<Rightarrow> bool \<times> (string, json) btree" where
  "reset_named msg [] generated = (False, generated)"
| "reset_named msg ((field, name) # rest) generated =
     (if str_contains msg field
      then (True, snd (reset_named msg rest (bt_remove name generated)))
      else reset_named msg rest generated)"

definition reset_generated_for_conflict ::
  "gen_env \<Rightarrow> sorx_error \<Rightarrow> (string, string) btree \<Rightarrow> u64 \<Rightarrow> command_context \<Rightarrow> bool \<times> command_context" where
  "reset_generated_for_conflict g err generated_fields next_nonce cx =
     (case reset_named (ge_message_text g (err_message err)) generated_fields (cx_generated cx) of
        (reset, generated) \<Rightarrow>
          (reset, if reset then cx\<lparr>cx_generated := generated, cx_nonce := next_nonce\<rparr> else cx))"

section \<open>Resolution\<close>

type_synonym 'a resolving = "command_context \<Rightarrow> 'a sorx_result \<times> command_context"

definition step_value :: "command_context \<Rightarrow> string \<Rightarrow> json option" where
  "step_value cx path =
     (case split_once_dot path of
        (head, tail) \<Rightarrow>
          let base =
                (case parse_usize head of
                   Some index \<Rightarrow> if index < length (cx_steps cx) then Some (cx_steps cx ! index) else None
                 | None \<Rightarrow>
                     opt_or (if cx_local_named_steps cx = [] then None
                             else bt_get (last (cx_local_named_steps cx)) head)
                       (bt_get (cx_named_steps cx) head))
          in case base of
               None \<Rightarrow> None
             | Some v \<Rightarrow> if tail = [] then Some v else command_lookup_path v tail)"

definition resolve_string_value :: "gen_env \<Rightarrow> string \<Rightarrow> json resolving" where
  "resolve_string_value g text cx =
     (if text = ''$input'' then (Ok (inv_input (ge_invocation g)), cx)
      else if text = ''$item'' then (Ok (unwrap_or (cx_item cx) JNull), cx)
      else if text = ''$index'' then (Ok (json_usize (unwrap_or (cx_index cx) 0)), cx)
      else if text = ''$now'' then (Ok (cx_now cx), cx)
      else case strip_prefix ''$input.'' text of
        Some path \<Rightarrow>
          (ok_or (command_lookup_path (inv_input (ge_invocation g)) path) (missing_command_path ''input'' path), cx)
      | None \<Rightarrow>
      (case strip_prefix ''$generated.'' text of
        Some name \<Rightarrow> (case generated_value g name cx of (v, cx') \<Rightarrow> (Ok v, cx'))
      | None \<Rightarrow>
      (case strip_prefix ''$item.'' text of
        Some path \<Rightarrow>
          (ok_or (Option.bind (cx_item cx) (\<lambda>item. command_lookup_path item path))
             (missing_command_path ''item'' path), cx)
      | None \<Rightarrow>
      (case strip_prefix ''$steps.'' text of
        Some path \<Rightarrow> (ok_or (step_value cx path) (missing_command_path ''steps'' path), cx)
      | None \<Rightarrow> (Ok (JStr text), cx)))))"

text \<open>A missing path is null.\<close>

definition optional_result :: "json sorx_result \<times> command_context \<Rightarrow> json sorx_result \<times> command_context" where
  "optional_result r =
     (case r of
        (Err e, cx) \<Rightarrow> if err_code e = ''command_value_missing'' then (Ok JNull, cx) else (Err e, cx)
      | (Ok v, cx) \<Rightarrow> (Ok v, cx))"

definition rank_invalid :: "string \<Rightarrow> sorx_error" where
  "rank_invalid msg = sorx_error_new ''command_rank_invalid'' (Text msg)"

definition rank_matches :: "json_map \<Rightarrow> json \<Rightarrow> bool" where
  "rank_matches flt r \<longleftrightarrow> list_all (\<lambda>(path, expected). command_lookup_path r path = Some expected) flt"

fun rank_of :: "json_map \<Rightarrow> nat \<Rightarrow> json list \<Rightarrow> json" where
  "rank_of flt index [] = JNull"
| "rank_of flt index (r # rs) =
     (if rank_matches flt r then json_usize (index + 1) else rank_of flt (Suc index) rs)"

lemma jget_size: "jget v k = Some w \<Longrightarrow> size w < size v"
  using bt_get_size by (cases v) (auto simp: jget_def)

abbreviation map_size :: "json_map \<Rightarrow> nat" where
  "map_size \<equiv> size_list (size_prod (\<lambda>_. 0) size)"

lemma get_size_list: "bt_get m k = Some v \<Longrightarrow> size v < Suc (map_size m)"
  using bt_get_size [of m k v] by simp

lemma as_array_size: "as_array v = Some vs \<Longrightarrow> size_list size vs < size v"
  by (cases v) auto

lemma get_array_size:
  assumes "Option.bind (bt_get m k) as_array = Some vs"
  shows "size_list size vs < map_size m"
proof -
  obtain v where v: "bt_get m k = Some v" "as_array v = Some vs"
    using assms by (auto simp: bind_eq_Some_conv)
  show ?thesis using get_size_list [OF v(1)] as_array_size [OF v(2)] by simp
qed

text \<open>
  \<^verbatim>\<open>resolve_value\<close> on strings, arrays and objects, with \<^verbatim>\<open>coalesce\<close> and \<^verbatim>\<open>resolve_rank\<close>. The
  iterator over an array stops at the first error.
\<close>

function (sequential)
  resolve_value :: "gen_env \<Rightarrow> json \<Rightarrow> json resolving"
and resolve_elements :: "gen_env \<Rightarrow> json list \<Rightarrow> json list resolving"
and resolve_coalesce :: "gen_env \<Rightarrow> json list \<Rightarrow> json resolving"
and resolve_fields :: "gen_env \<Rightarrow> json_map \<Rightarrow> json_map \<Rightarrow> json_map resolving"
and resolve_rank :: "gen_env \<Rightarrow> json \<Rightarrow> json resolving" where
  "resolve_value g (JStr text) cx = resolve_string_value g text cx"
| "resolve_value g (JArr vs) cx =
     (case resolve_elements g vs cx of
        (Err e, cx') \<Rightarrow> (Err e, cx')
      | (Ok ws, cx') \<Rightarrow> (Ok (JArr ws), cx'))"
| "resolve_value g (JObj m) cx =
     (case Option.bind (bt_get m ''coalesce'') as_array of
        Some vs \<Rightarrow> resolve_coalesce g vs cx
      | None \<Rightarrow>
          (case bt_get m ''rank'' of
             Some rank \<Rightarrow> resolve_rank g rank cx
           | None \<Rightarrow>
               (case resolve_fields g m [] cx of
                  (Err e, cx') \<Rightarrow> (Err e, cx')
                | (Ok out, cx') \<Rightarrow> (Ok (JObj out), cx'))))"
| "resolve_value g v cx = (Ok v, cx)"
| "resolve_elements g [] cx = (Ok [], cx)"
| "resolve_elements g (v # vs) cx =
     (case resolve_value g v cx of
        (Err e, cx') \<Rightarrow> (Err e, cx')
      | (Ok w, cx') \<Rightarrow>
          (case resolve_elements g vs cx' of
             (Err e, cx'') \<Rightarrow> (Err e, cx'')
           | (Ok ws, cx'') \<Rightarrow> (Ok (w # ws), cx'')))"
| "resolve_coalesce g [] cx = (Ok JNull, cx)"
| "resolve_coalesce g (v # vs) cx =
     (case optional_result (resolve_value g v cx) of
        (Err e, cx') \<Rightarrow> (Err e, cx')
      | (Ok w, cx') \<Rightarrow>
          if is_absent_command_value w then resolve_coalesce g vs cx' else (Ok w, cx'))"
| "resolve_fields g [] out cx = (Ok out, cx)"
| "resolve_fields g ((key, v) # rest) out cx =
     (case optional_result (resolve_value g v cx) of
        (Err e, cx') \<Rightarrow> (Err e, cx')
      | (Ok w, cx') \<Rightarrow> resolve_fields g rest (bt_insert key w out) cx')"
| "resolve_rank g rank cx =
     (case rank of
        JObj m \<Rightarrow>
          (case bt_get m ''records'' of
             None \<Rightarrow> (Err (rank_invalid ''rank.records is required''), cx)
           | Some records \<Rightarrow>
               (case resolve_value g records cx of
                  (Err e, cx') \<Rightarrow> (Err e, cx')
                | (Ok rs, cx') \<Rightarrow>
                    (case as_array rs of
                       None \<Rightarrow> (Err (rank_invalid ''rank.records must resolve to an array''), cx')
                     | Some records' \<Rightarrow>
                         (case bt_get m ''where'' of
                            None \<Rightarrow> (Err (rank_invalid ''rank.where is required''), cx')
                          | Some w \<Rightarrow>
                              (case resolve_value g w cx' of
                                 (Err e, cx'') \<Rightarrow> (Err e, cx'')
                               | (Ok flt, cx'') \<Rightarrow>
                                   (case as_object flt of
                                      None \<Rightarrow> (Err (rank_invalid ''rank.where must resolve to an object''), cx'')
                                    | Some flt' \<Rightarrow> (Ok (rank_of flt' 0 records'), cx'')))))))
      | _ \<Rightarrow> (Err (rank_invalid ''rank must be an object''), cx))"
  by pat_completeness auto
termination
  by (relation "measure (\<lambda>x. case x of
        Inl (Inl (g, v, cx)) \<Rightarrow> size v
      | Inl (Inr (g, vs, cx)) \<Rightarrow> size_list size vs
      | Inr (Inl (g, vs, cx)) \<Rightarrow> size_list size vs
      | Inr (Inr (Inl (g, m, out, cx))) \<Rightarrow> map_size m
      | Inr (Inr (Inr (g, v, cx))) \<Rightarrow> size v)")
    (auto dest: get_size_list get_array_size)

definition resolve_optional_value :: "gen_env \<Rightarrow> json \<Rightarrow> json resolving" where
  "resolve_optional_value g v cx = optional_result (resolve_value g v cx)"

definition resolve_string :: "gen_env \<Rightarrow> string \<Rightarrow> command_context \<Rightarrow> string option \<times> command_context" where
  "resolve_string g text cx =
     (case resolve_string_value g text cx of
        (Err e, cx') \<Rightarrow> (None, cx')
      | (Ok v, cx') \<Rightarrow> (opt_or (as_str v) (map_option show_int (as_i64 v)), cx'))"

definition resolve_step_string :: "gen_env \<Rightarrow> string option \<Rightarrow> command_context \<Rightarrow> string option \<times> command_context" where
  "resolve_step_string g text cx =
     (case text of
        None \<Rightarrow> (None, cx)
      | Some t \<Rightarrow> (case resolve_string g t cx of (r, cx') \<Rightarrow> (Some (unwrap_or r t), cx')))"

section \<open>Conditions\<close>

definition present_test :: "bool \<Rightarrow> json sorx_result \<times> command_context \<Rightarrow> bool sorx_result \<times> command_context" where
  "present_test expected r =
     (case r of
        (Err e, cx) \<Rightarrow> (Err e, cx)
      | (Ok v, cx) \<Rightarrow> (Ok ((\<not> is_absent_command_value v) = expected), cx))"

definition equal_test :: "gen_env \<Rightarrow> json \<Rightarrow> json \<Rightarrow> bool resolving" where
  "equal_test g a b cx =
     (case resolve_optional_value g a cx of
        (Err e, cx') \<Rightarrow> (Err e, cx')
      | (Ok v, cx') \<Rightarrow>
          (case resolve_optional_value g b cx' of
             (Err e, cx'') \<Rightarrow> (Err e, cx'')
           | (Ok w, cx'') \<Rightarrow> (Ok (v = w), cx'')))"

fun as_pair :: "json list \<Rightarrow> (json \<times> json) option" where
  "as_pair [a, b] = Some (a, b)"
| "as_pair _ = None"

function (sequential)
  condition_holds :: "gen_env \<Rightarrow> json \<Rightarrow> bool resolving"
and conditions_all :: "gen_env \<Rightarrow> json list \<Rightarrow> bool resolving"
and conditions_any :: "gen_env \<Rightarrow> json list \<Rightarrow> bool resolving" where
  "condition_holds g (JBool b) cx = (Ok b, cx)"
| "condition_holds g (JObj m) cx =
     (case bt_get m ''present'' of
        Some v \<Rightarrow> present_test True (resolve_optional_value g v cx)
      | None \<Rightarrow>
     (case bt_get m ''absent'' of
        Some v \<Rightarrow> present_test False (resolve_optional_value g v cx)
      | None \<Rightarrow>
     (case Option.bind (bt_get m ''all'') as_array of
        Some vs \<Rightarrow> conditions_all g vs cx
      | None \<Rightarrow>
     (case Option.bind (bt_get m ''any'') as_array of
        Some vs \<Rightarrow> conditions_any g vs cx
      | None \<Rightarrow>
     (case Option.bind (Option.bind (bt_get m ''eq'') as_array) as_pair of
        Some (a, b) \<Rightarrow> equal_test g a b cx
      | None \<Rightarrow> present_test True (resolve_optional_value g (JObj m) cx))))))"
| "condition_holds g v cx = present_test True (resolve_optional_value g v cx)"
| "conditions_all g [] cx = (Ok True, cx)"
| "conditions_all g (v # vs) cx =
     (case condition_holds g v cx of
        (Err e, cx') \<Rightarrow> (Err e, cx')
      | (Ok b, cx') \<Rightarrow> if b then conditions_all g vs cx' else (Ok False, cx'))"
| "conditions_any g [] cx = (Ok False, cx)"
| "conditions_any g (v # vs) cx =
     (case condition_holds g v cx of
        (Err e, cx') \<Rightarrow> (Err e, cx')
      | (Ok b, cx') \<Rightarrow> if b then (Ok True, cx') else conditions_any g vs cx')"
  by pat_completeness auto
termination
  by (relation "measure (\<lambda>x. case x of
        Inl (g, v, cx) \<Rightarrow> size v
      | Inr (Inl (g, vs, cx)) \<Rightarrow> size_list size vs
      | Inr (Inr (g, vs, cx)) \<Rightarrow> size_list size vs)")
    (auto dest: get_array_size)

definition should_run_step :: "gen_env \<Rightarrow> json option \<Rightarrow> bool resolving" where
  "should_run_step g cond cx = (case cond of None \<Rightarrow> (Ok True, cx) | Some v \<Rightarrow> condition_holds g v cx)"

end
