(* ===== verification/Runtime_Effects.thy ===== *)
theory Runtime_Effects
  imports Command_Values Policy Provider
begin

text \<open>
  What \<^verbatim>\<open>SorxRuntime\<close> (\<^verbatim>\<open>greentic-sorx-core/src/runtime.rs\<close>) calls and how a call is recorded.

  Everything the runtime calls through a trait object is an effect that is appended to a trace;
  its outcome is a function of the trace so far, so a sink or a hook may keep state, fail at
  any point or depend on everything that was done before. The stores have their own state.
  Clock readings depend on the trace in the same way. The state also holds the process-wide
  counter \<^verbatim>\<open>GENERATED_NONCE\<close>.
\<close>

section \<open>What the runtime calls\<close>

record stack_call_context =
  sc_environment_id :: string
  sc_runtime_id :: string
  sc_tenant_id :: string
  sc_team_id :: "string option"
  sc_deployment_id :: string
  sc_stack_id :: string
  sc_revision_id :: "string option"
  sc_route_id :: string
  sc_call_id :: string
  sc_trace_id :: string
  sc_actor :: string

record stack_call_request =
  scq_operation_id :: string
  scq_input :: json

record stack_call_response =
  scr_status :: string
  scr_output :: json

datatype control_decision_action = ControlAllow | ControlDeny | ControlAllowWithPatch

record control_decision =
  cd_action :: control_decision_action
  cd_reason :: "string option"
  cd_patch :: "json option"

definition control_allow :: control_decision where
  "control_allow = \<lparr>cd_action = ControlAllow, cd_reason = None, cd_patch = None\<rparr>"

definition control_deny :: "string \<Rightarrow> control_decision" where
  "control_deny reason = \<lparr>cd_action = ControlDeny, cd_reason = Some reason, cd_patch = None\<rparr>"

definition control_allow_with_patch :: "json \<Rightarrow> control_decision" where
  "control_allow_with_patch patch = \<lparr>cd_action = ControlAllowWithPatch, cd_reason = None, cd_patch = Some patch\<rparr>"

record observer_event =
  oe_event_type :: string
  oe_context :: stack_call_context
  oe_status :: "string option"
  oe_duration_ms :: "u64 option"
  oe_control_decision :: "control_decision option"

record entity_event_input =
  ee_environment :: string
  ee_tenant_id :: string
  ee_entity :: string
  ee_operation :: string
  ee_record_id :: string
  ee_record :: "json option"
  ee_idempotency_key :: "string option"

record command_event_input =
  ce_environment :: string
  ce_tenant_id :: string
  ce_event_name :: string
  ce_subject_entity :: string
  ce_subject_id :: string
  ce_payload :: json
  ce_idempotency_key :: "string option"

text \<open>The envelope is built and handed to the sink in one go; either may fail.\<close>

datatype business_event = EntityEvent entity_event_input | CommandEvent command_event_input

datatype store_op =
    DoCreate create_op
  | DoGet get_op
  | DoUpdate update_op
  | DoQuery query_op
  | DoDelete delete_op
  | DoQueryIndex index_query_op
  | DoTraverse traverse_op
  | DoAppendEvent append_event_op

datatype rt_effect =
    Audit sorx_audit_event
  | Observe observer_event
  | PreCall stack_call_context stack_call_request
  | PostCall stack_call_context stack_call_request stack_call_response
  | AskApproval approval_request
  | StoreOp string store_op
  | Publish business_event

record 's runtime_state =
  rs_stores :: 's
  rs_trace :: "rt_effect list"
  rs_nonce :: u64

type_synonym ('s, 'a) act = "'s runtime_state \<Rightarrow> 'a sorx_result \<times> 's runtime_state"

record 's sorx_runtime =
  rt_pack :: runtime_pack
  rt_environment :: string
  rt_bindings :: binding_resolver
  rt_sor_name :: string
  rt_router :: "(string, endpoint_definition) btree"
  rt_providers :: "'s canonical_store provider_registry"
  rt_policy :: policy_config
  rt_approval_broker :: "rt_effect list \<Rightarrow> approval_request \<Rightarrow> approval_decision sorx_result"
  rt_audit_sink :: "rt_effect list \<Rightarrow> sorx_audit_event \<Rightarrow> unit sorx_result"
  rt_event_sink :: "rt_effect list \<Rightarrow> business_event \<Rightarrow> unit sorx_result"
  rt_pre_call :: "rt_effect list \<Rightarrow> stack_call_context \<Rightarrow> stack_call_request \<Rightarrow> control_decision sorx_result"
  rt_post_call :: "rt_effect list \<Rightarrow> stack_call_context \<Rightarrow> stack_call_request \<Rightarrow> stack_call_response \<Rightarrow>
    control_decision sorx_result"
  rt_observer :: "rt_effect list \<Rightarrow> observer_event \<Rightarrow> unit sorx_result"
  rt_observer_fail_open :: bool
  rt_elapsed_ms :: "rt_effect list \<Rightarrow> u64"
  rt_now_nanos :: "rt_effect list \<Rightarrow> nat"
  rt_now_secs :: "rt_effect list \<Rightarrow> nat"
  rt_utc_now :: "rt_effect list \<Rightarrow> timestamp"
  rt_seed_nanos :: "rt_effect list \<Rightarrow> command_context \<Rightarrow> nat"
  rt_sha256 :: "string \<Rightarrow> u8 list"
  rt_message_text :: "message \<Rightarrow> string"
  rt_timestamp_json :: "timestamp \<Rightarrow> json"

section \<open>Actions\<close>

definition act_return :: "'a \<Rightarrow> ('s, 'a) act" where
  "act_return x s = (Ok x, s)"

definition act_fail :: "sorx_error \<Rightarrow> ('s, 'a) act" where
  "act_fail e s = (Err e, s)"

text \<open>The \<^verbatim>\<open>?\<close> operator: go on with the value, or leave with the error.\<close>

definition act_bind :: "('s, 'a) act \<Rightarrow> ('a \<Rightarrow> ('s, 'b) act) \<Rightarrow> ('s, 'b) act" where
  "act_bind m f s = (case m s of (Err e, s') \<Rightarrow> (Err e, s') | (Ok x, s') \<Rightarrow> f x s')"

definition act_then :: "('s, 'a) act \<Rightarrow> ('s, 'b) act \<Rightarrow> ('s, 'b) act" where
  "act_then m k = act_bind m (\<lambda>_. k)"

definition act_lift :: "'a sorx_result \<Rightarrow> ('s, 'a) act" where
  "act_lift r s = (r, s)"

text \<open>An effect outside the stores, with its outcome.\<close>

definition act_effect :: "rt_effect \<Rightarrow> (rt_effect list \<Rightarrow> 'a sorx_result) \<Rightarrow> ('s, 'a) act" where
  "act_effect e outcome s = (outcome (rs_trace s), s\<lparr>rs_trace := rs_trace s @ [e]\<rparr>)"

definition act_write :: "string \<Rightarrow> store_op \<Rightarrow> ('s \<Rightarrow> 'a sorx_result \<times> 's) \<Rightarrow> ('s, 'a) act" where
  "act_write provider op f s =
     (case f (rs_stores s) of
        (r, w) \<Rightarrow> (r, s\<lparr>rs_stores := w, rs_trace := rs_trace s @ [StoreOp provider op]\<rparr>))"

definition act_read :: "string \<Rightarrow> store_op \<Rightarrow> ('s \<Rightarrow> 'a sorx_result) \<Rightarrow> ('s, 'a) act" where
  "act_read provider op f s = (f (rs_stores s), s\<lparr>rs_trace := rs_trace s @ [StoreOp provider op]\<rparr>)"

definition act_clock :: "(rt_effect list \<Rightarrow> 'a) \<Rightarrow> ('s, 'a) act" where
  "act_clock f s = (Ok (f (rs_trace s)), s)"

section \<open>Labels\<close>

fun show_risk :: "risk_level \<Rightarrow> string" where
  "show_risk Low = ''low''"
| "show_risk Medium = ''medium''"
| "show_risk High = ''high''"
| "show_risk Critical = ''critical''"

fun show_source :: "invocation_source \<Rightarrow> string" where
  "show_source Direct = ''direct''"
| "show_source Http = ''http''"
| "show_source Mcp = ''mcp''"

fun show_status :: "endpoint_status \<Rightarrow> string" where
  "show_status StCreated = ''created''"
| "show_status StOk = ''ok''"
| "show_status StNotFound = ''notfound''"
| "show_status StDeleted = ''deleted''"
| "show_status StApprovalRequired = ''approvalrequired''"
| "show_status StDenied = ''denied''"

fun policy_action_label :: "policy_action \<Rightarrow> string" where
  "policy_action_label Execute = ''execute''"
| "policy_action_label RequireApproval = ''require_approval''"
| "policy_action_label Deny = ''deny''"

definition policy_decision_label :: "policy_decision \<Rightarrow> string" where
  "policy_decision_label d = policy_action_label (pd_action d)"

fun approval_status_label :: "approval_status \<Rightarrow> string" where
  "approval_status_label Approved = ''approved''"
| "approval_status_label ApprovalDenied = ''denied''"
| "approval_status_label ApprovalPending = ''pending''"

fun operation_access_name :: "operation_kind \<Rightarrow> string" where
  "operation_access_name OpGet = ''read''"
| "operation_access_name OpQuery = ''read''"
| "operation_access_name OpCreate = ''create''"
| "operation_access_name OpUpdate = ''update''"
| "operation_access_name OpDelete = ''delete''"
| "operation_access_name (OpCommand _) = ''execute''"

definition approval_request_id :: "endpoint_definition \<Rightarrow> endpoint_invocation \<Rightarrow> string" where
  "approval_request_id ep call =
     ''approval_'' @ replace_chars ''-'' (CHR ''_'') (inv_tenant_id call) @ ''_'' @
     replace_chars ''.-'' (CHR ''_'') (ep_endpoint_id ep) @ ''_'' @
     replace_chars ''.-:'' (CHR ''_'') (unwrap_or (inv_idempotency_key call) ''pending'')"

definition rt_event :: "endpoint_definition \<Rightarrow> endpoint_invocation \<Rightarrow> string \<Rightarrow> sorx_event" where
  "rt_event ep call event_type =
     \<lparr>se_schema = ''greentic.sorx.event.v1'', se_event_type = event_type,
      se_tenant_id = inv_tenant_id call, se_endpoint_id = ep_endpoint_id ep,
      se_operation_id = ep_operation_id ep, se_provider_binding = ep_provider_binding ep\<rparr>"

section \<open>Sinks and hooks\<close>

definition audit_event ::
  "'s sorx_runtime \<Rightarrow> endpoint_definition \<Rightarrow> endpoint_invocation \<Rightarrow> string \<Rightarrow> string option \<Rightarrow>
   u64 option \<Rightarrow> sorx_audit_event" where
  "audit_event rt ep call event_name decision duration =
     \<lparr>sa_event = event_name, sa_pack = rp_name (rt_pack rt), sa_version = rp_version (rt_pack rt),
      sa_tenant_id = inv_tenant_id call, sa_endpoint_id = ep_endpoint_id ep,
      sa_operation_id = ep_operation_id ep, sa_risk = ep_risk ep,
      sa_caller_id = caller_subject (inv_caller call), sa_decision = decision,
      sa_duration_ms = duration,
      sa_idempotency_key_present = (inv_idempotency_key call \<noteq> None),
      sa_details = [(''source'', JStr (show_source (inv_source call)))]\<rparr>"

definition audit ::
  "'s sorx_runtime \<Rightarrow> endpoint_definition \<Rightarrow> endpoint_invocation \<Rightarrow> string \<Rightarrow> string option \<Rightarrow>
   u64 option \<Rightarrow> ('s, unit) act" where
  "audit rt ep call event_name decision duration =
     (let e = audit_event rt ep call event_name decision duration
      in act_effect (Audit e) (\<lambda>t. rt_audit_sink rt t e))"

text \<open>An audit event that carries the time since the start of the call.\<close>

definition audit_timed ::
  "'s sorx_runtime \<Rightarrow> endpoint_definition \<Rightarrow> endpoint_invocation \<Rightarrow> string \<Rightarrow> string option \<Rightarrow> ('s, unit) act" where
  "audit_timed rt ep call event_name decision =
     act_bind (act_clock (rt_elapsed_ms rt)) (\<lambda>ms. audit rt ep call event_name decision (Some ms))"

definition observe :: "'s sorx_runtime \<Rightarrow> observer_event \<Rightarrow> ('s, unit) act" where
  "observe rt e =
     act_effect (Observe e)
       (\<lambda>t. case rt_observer rt t e of
              Ok _ \<Rightarrow> Ok ()
            | Err err \<Rightarrow> if rt_observer_fail_open rt then Ok () else Err err)"

definition observe_timed ::
  "'s sorx_runtime \<Rightarrow> string \<Rightarrow> stack_call_context \<Rightarrow> string \<Rightarrow> control_decision \<Rightarrow> ('s, unit) act" where
  "observe_timed rt event_type ctx status decision =
     act_bind (act_clock (rt_elapsed_ms rt))
       (\<lambda>ms. observe rt \<lparr>oe_event_type = event_type, oe_context = ctx, oe_status = Some status,
                         oe_duration_ms = Some ms, oe_control_decision = Some decision\<rparr>)"

definition stack_call_context_of ::
  "'s sorx_runtime \<Rightarrow> endpoint_definition \<Rightarrow> endpoint_invocation \<Rightarrow> nat \<Rightarrow> stack_call_context" where
  "stack_call_context_of rt ep call now =
     (let call_id = ''call-'' @ show_nat now
      in \<lparr>sc_environment_id = rt_environment rt, sc_runtime_id = ''runtime-main'',
          sc_tenant_id = inv_tenant_id call, sc_team_id = None,
          sc_deployment_id = rt_sor_name rt, sc_stack_id = rp_name (rt_pack rt),
          sc_revision_id = None, sc_route_id = ep_endpoint_id ep, sc_call_id = call_id,
          sc_trace_id = call_id, sc_actor = caller_subject (inv_caller call)\<rparr>)"

text \<open>Publishing never fails the operation: a failure is audited, and so is not even that.\<close>

definition publish_business_event ::
  "'s sorx_runtime \<Rightarrow> endpoint_definition \<Rightarrow> endpoint_invocation \<Rightarrow> business_event \<Rightarrow> ('s, unit) act" where
  "publish_business_event rt ep call i s =
     (case act_effect (Publish i) (\<lambda>t. rt_event_sink rt t i) s of
        (Ok _, s') \<Rightarrow> (Ok (), s')
      | (Err _, s') \<Rightarrow> (Ok (), snd (audit rt ep call ''sorx.business_event.publish_failed'' None None s')))"

definition publish_entity_event ::
  "'s sorx_runtime \<Rightarrow> endpoint_definition \<Rightarrow> endpoint_invocation \<Rightarrow> provider_binding \<Rightarrow> string \<Rightarrow>
   string \<Rightarrow> json option \<Rightarrow> ('s, unit) act" where
  "publish_entity_event rt ep call b operation record_id record =
     publish_business_event rt ep call (EntityEvent
       \<lparr>ee_environment = rt_environment rt, ee_tenant_id = inv_tenant_id call, ee_entity = pb_entity b,
        ee_operation = operation, ee_record_id = record_id, ee_record = record,
        ee_idempotency_key = inv_idempotency_key call\<rparr>)"

section \<open>Records and inputs\<close>

definition entity_to_json :: "entity_record \<Rightarrow> json" where
  "entity_to_json r =
     JObj (bt_collect [(''entity'', JStr (rec_entity r)), (''collection'', JStr (rec_collection r)),
       (''id'', JStr (rec_id r)), (''data'', rec_data r), (''version'', JNum (PosInt (rec_version r)))])"

definition entity_opt_to_json :: "entity_record option \<Rightarrow> json" where
  "entity_opt_to_json r = (case r of None \<Rightarrow> JNull | Some x \<Rightarrow> entity_to_json x)"

definition records_to_json :: "entity_record list \<Rightarrow> json" where
  "records_to_json rs = JObj [(''records'', JArr (map entity_to_json rs))]"

definition required_string :: "json \<Rightarrow> string \<Rightarrow> string sorx_result" where
  "required_string v key =
     ok_or (jget_str v key)
       (sorx_error_at_path ''invalid_input'' (Text (''missing required string `'' @ key @ ''`'')) key)"

definition unique_indexes_for :: "'s sorx_runtime \<Rightarrow> string \<Rightarrow> string \<Rightarrow> unique_index list" where
  "unique_indexes_for rt entity collection =
     map (\<lambda>ix. \<lparr>ui_id = roi_id ix, ui_record = roi_record ix,
                ui_collection = unwrap_or (roi_collection ix) collection, ui_fields = roi_fields ix\<rparr>)
       (filter (\<lambda>ix. roi_unique ix \<and> roi_record ix = entity \<and>
                     (case roi_collection ix of None \<Rightarrow> True | Some c \<Rightarrow> c = collection))
          (rp_operational_indexes (rt_pack rt)))"

definition event_to_json :: "'s sorx_runtime \<Rightarrow> event_record \<Rightarrow> json" where
  "event_to_json rt e =
     JObj (bt_collect [(''event_id'', JStr (ev_event_id e)), (''stream'', JStr (ev_stream e)),
       (''event_type'', JStr (ev_event_type e)), (''subject_entity'', JStr (ev_subject_entity e)),
       (''subject_id'', JStr (ev_subject_id e)), (''data'', ev_data e), (''envelope'', ev_envelope e),
       (''sequence'', JNum (PosInt (ev_sequence e))),
       (''occurred_at'', rt_timestamp_json rt (ev_occurred_at e))])"

end
