(* ===== verification/Command.thy ===== *)
theory Command
  imports Runtime_Effects
begin

text \<open>
  The interpreter of command endpoints (\<^verbatim>\<open>execute_command\<close> and \<^verbatim>\<open>execute_command_step\<close> of
  \<^verbatim>\<open>greentic-sorx-core/src/runtime.rs\<close>): a command is a list of steps on the stores, with
  conditions, retries on generated values and \<^verbatim>\<open>foreach\<close>.
\<close>

section \<open>Steps as actions on the context and the state\<close>

type_synonym ('s, 'a) step =
  "command_context \<Rightarrow> 's runtime_state \<Rightarrow> 'a sorx_result \<times> command_context \<times> 's runtime_state"

definition step_return :: "'a \<Rightarrow> ('s, 'a) step" where
  "step_return x cx s = (Ok x, cx, s)"

definition step_fail :: "sorx_error \<Rightarrow> ('s, 'a) step" where
  "step_fail e cx s = (Err e, cx, s)"

definition step_bind :: "('s, 'a) step \<Rightarrow> ('a \<Rightarrow> ('s, 'b) step) \<Rightarrow> ('s, 'b) step" where
  "step_bind m f cx s =
     (case m cx s of (Err e, cx', s') \<Rightarrow> (Err e, cx', s') | (Ok x, cx', s') \<Rightarrow> f x cx' s')"

definition step_act :: "('s, 'a) act \<Rightarrow> ('s, 'a) step" where
  "step_act m cx s = (case m s of (r, s') \<Rightarrow> (r, cx, s'))"

text \<open>The outcome of an action as a value, for a \<^verbatim>\<open>match\<close> on it.\<close>

definition step_try :: "('s, 'a) act \<Rightarrow> ('s, 'a sorx_result) step" where
  "step_try m cx s = (case m s of (r, s') \<Rightarrow> (Ok r, cx, s'))"

definition step_update :: "(command_context \<Rightarrow> command_context) \<Rightarrow> ('s, unit) step" where
  "step_update f cx s = (Ok (), f cx, s)"

record 's command_env =
  cv_runtime :: "'s sorx_runtime"
  cv_endpoint :: endpoint_definition
  cv_spec :: command_spec
  cv_invocation :: endpoint_invocation
  cv_namespace :: provider_namespace
  cv_binding :: provider_binding
  cv_provider :: "'s canonical_store"

definition gen_env_of :: "'s command_env \<Rightarrow> 's runtime_state \<Rightarrow> gen_env" where
  "gen_env_of cv s =
     \<lparr>ge_endpoint = cv_endpoint cv, ge_invocation = cv_invocation cv,
      ge_sha256 = rt_sha256 (cv_runtime cv),
      ge_nanos = rt_seed_nanos (cv_runtime cv) (rs_trace s),
      ge_message_text = rt_message_text (cv_runtime cv)\<rparr>"

definition step_resolve :: "'s command_env \<Rightarrow> (gen_env \<Rightarrow> 'a resolving) \<Rightarrow> ('s, 'a) step" where
  "step_resolve cv f cx s = (case f (gen_env_of cv s) cx of (r, cx') \<Rightarrow> (r, cx', s))"

definition step_string ::
  "'s command_env \<Rightarrow> (gen_env \<Rightarrow> command_context \<Rightarrow> 'a \<times> command_context) \<Rightarrow> ('s, 'a) step" where
  "step_string cv f cx s = (case f (gen_env_of cv s) cx of (r, cx') \<Rightarrow> (Ok r, cx', s))"

record command_counts =
  cn_created :: nat
  cn_updated :: nat
  cn_deleted :: nat

definition no_counts :: command_counts where
  "no_counts = \<lparr>cn_created = 0, cn_updated = 0, cn_deleted = 0\<rparr>"

definition add_counts :: "command_counts \<Rightarrow> command_counts \<Rightarrow> command_counts" where
  "add_counts a b =
     \<lparr>cn_created = cn_created a + cn_created b, cn_updated = cn_updated a + cn_updated b,
      cn_deleted = cn_deleted a + cn_deleted b\<rparr>"

section \<open>Single steps\<close>

definition step_target ::
  "'s command_env \<Rightarrow> string option \<Rightarrow> string option \<Rightarrow> ('s, string \<times> string) step" where
  "step_target cv entity collection =
     step_bind (step_string cv (\<lambda>g. resolve_step_string g entity)) (\<lambda>e.
     step_bind (step_string cv (\<lambda>g. resolve_step_string g collection)) (\<lambda>c.
     step_return (unwrap_or e (pb_entity (cv_binding cv)), unwrap_or c (pb_collection (cv_binding cv)))))"

definition step_query ::
  "'s command_env \<Rightarrow> string \<Rightarrow> string \<Rightarrow> json \<Rightarrow> query_order list \<Rightarrow> ('s, entity_record list) step" where
  "step_query cv entity collection flt order_by =
     (let op = \<lparr>q_namespace = cv_namespace cv, q_entity = entity, q_collection = collection,
                q_filter = flt, q_order_by = order_by\<rparr>
      in step_act (act_read (pb_provider_id (cv_binding cv)) (DoQuery op) (\<lambda>w. sp_query (cv_provider cv) w op)))"

definition step_write_update ::
  "'s command_env \<Rightarrow> string \<Rightarrow> string \<Rightarrow> string \<Rightarrow> json \<Rightarrow> ('s, entity_record) act" where
  "step_write_update cv entity collection i patch =
     (let op = \<lparr>up_namespace = cv_namespace cv, up_entity = entity, up_collection = collection,
                up_id = i, up_patch = patch,
                up_unique_indexes = unique_indexes_for (cv_runtime cv) entity collection\<rparr>
      in act_write (pb_provider_id (cv_binding cv)) (DoUpdate op) (\<lambda>w. sp_update (cv_provider cv) w op))"

fun delete_each :: "'s command_env \<Rightarrow> string \<Rightarrow> string \<Rightarrow> entity_record list \<Rightarrow> ('s, string list) step" where
  "delete_each cv entity collection [] = step_return []"
| "delete_each cv entity collection (r # rs) =
     (let op = \<lparr>del_namespace = cv_namespace cv, del_entity = entity, del_collection = collection,
                del_id = rec_id r\<rparr>
      in step_bind (step_act (act_write (pb_provider_id (cv_binding cv)) (DoDelete op)
                                (\<lambda>w. sp_delete (cv_provider cv) w op))) (\<lambda>deleted.
         step_bind (delete_each cv entity collection rs) (\<lambda>ids.
         step_return (if deleted then rec_id r # ids else ids))))"

definition exec_delete_where ::
  "'s command_env \<Rightarrow> string option \<Rightarrow> string option \<Rightarrow> json \<Rightarrow> ('s, json \<times> command_counts) step" where
  "exec_delete_where cv entity collection flt =
     step_bind (step_target cv entity collection) (\<lambda>(e, c).
     step_bind (step_resolve cv (\<lambda>g. resolve_value g flt)) (\<lambda>f.
     step_bind (step_query cv e c f []) (\<lambda>rs.
     step_bind (delete_each cv e c rs) (\<lambda>ids.
     step_return
       (JObj (bt_collect [(''op'', JStr ''delete_where''), (''collection'', JStr c),
          (''deleted'', json_usize (length ids)), (''deleted_count'', json_usize (length ids)),
          (''affected_ids'', JArr (map JStr ids))]),
        no_counts\<lparr>cn_deleted := length ids\<rparr>)))))"

definition step_reset :: "'s command_env \<Rightarrow> sorx_error \<Rightarrow> (string, string) btree \<Rightarrow> ('s, bool) step" where
  "step_reset cv err generated_fields cx s =
     (case reset_generated_for_conflict (gen_env_of cv s) err generated_fields (rs_nonce s) cx of
        (reset, cx') \<Rightarrow> (Ok reset, cx', if reset then s\<lparr>rs_nonce := rs_nonce s + 1\<rparr> else s))"

text \<open>
  The loop \<^verbatim>\<open>for _ in 0..6\<close> of a create or update step: the input is resolved again in every
  round, and a unique conflict on a generated field starts another round.
\<close>

fun retry_unique ::
  "nat \<Rightarrow> sorx_error option \<Rightarrow> string \<Rightarrow> 's command_env \<Rightarrow> json \<Rightarrow> (json \<Rightarrow> ('s, entity_record) act) \<Rightarrow>
   ('s, entity_record) step" where
  "retry_unique 0 last_err exhausted cv template write =
     step_fail (unwrap_or last_err (sorx_error_new ''unique_constraint_retry_exhausted'' (Text exhausted)))"
| "retry_unique (Suc n) last_err exhausted cv template write =
     step_bind (step_resolve cv (\<lambda>g. resolve_value g template)) (\<lambda>v.
     step_bind (step_try (write v)) (\<lambda>r.
       case r of
         Ok x \<Rightarrow> step_return x
       | Err e \<Rightarrow>
           if err_code e = ''unique_constraint_violation''
           then step_bind (step_reset cv e (generated_field_refs template)) (\<lambda>reset.
                  if reset then retry_unique n (Some e) exhausted cv template write else step_fail e)
           else step_fail e))"

definition step_write_create ::
  "'s command_env \<Rightarrow> string \<Rightarrow> string \<Rightarrow> json \<Rightarrow> ('s, entity_record) act" where
  "step_write_create cv entity collection v =
     (let indexes = unique_indexes_for (cv_runtime cv) entity collection;
          op = \<lparr>cr_namespace = cv_namespace cv, cr_entity = entity, cr_collection = collection,
                cr_input = v,
                cr_idempotency_key =
                  map_option (\<lambda>k. ep_operation_id (cv_endpoint cv) @ '':'' @ collection @ '':'' @ k)
                    (inv_idempotency_key (cv_invocation cv)),
                cr_unique_indexes = indexes,
                cr_unique_behavior = command_unique_behavior (cv_spec cv) entity indexes\<rparr>
      in act_write (pb_provider_id (cv_binding cv)) (DoCreate op) (\<lambda>w. sp_create (cv_provider cv) w op))"

definition exec_create ::
  "'s command_env \<Rightarrow> string option \<Rightarrow> string option \<Rightarrow> json option \<Rightarrow> ('s, json \<times> command_counts) step" where
  "exec_create cv entity collection input =
     step_bind (step_target cv entity collection) (\<lambda>(e, c).
     step_bind (retry_unique 6 None ''failed to generate a unique value for create command'' cv
                  (unwrap_or input (inv_input (cv_invocation cv))) (step_write_create cv e c)) (\<lambda>r.
     step_return
       (JObj (bt_collect [(''op'', JStr ''create''), (''collection'', JStr c), (''id'', JStr (rec_id r)),
          (''record'', entity_to_json r)]),
        no_counts\<lparr>cn_created := 1\<rparr>)))"

definition updated_output :: "string \<Rightarrow> string \<Rightarrow> entity_record list \<Rightarrow> json \<times> command_counts" where
  "updated_output op collection rs =
     (JObj (bt_collect [(''op'', JStr op), (''collection'', JStr collection),
        (''updated'', json_usize (length rs)), (''updated_count'', json_usize (length rs)),
        (''affected_ids'', JArr (map (\<lambda>r. JStr (rec_id r)) rs)),
        (''records'', JArr (map entity_to_json rs))]),
      no_counts\<lparr>cn_updated := length rs\<rparr>)"

fun update_each ::
  "'s command_env \<Rightarrow> string \<Rightarrow> string \<Rightarrow> json \<Rightarrow> entity_record list \<Rightarrow> ('s, entity_record list) step" where
  "update_each cv entity collection updates [] = step_return []"
| "update_each cv entity collection updates (r # rs) =
     step_bind (retry_unique 6 None ''failed to generate a unique value for update command'' cv
                  updates (step_write_update cv entity collection (rec_id r))) (\<lambda>x.
     step_bind (update_each cv entity collection updates rs) (\<lambda>xs. step_return (x # xs)))"

definition exec_update_where ::
  "'s command_env \<Rightarrow> string option \<Rightarrow> string option \<Rightarrow> json \<Rightarrow> json \<Rightarrow> ('s, json \<times> command_counts) step" where
  "exec_update_where cv entity collection flt updates =
     step_bind (step_target cv entity collection) (\<lambda>(e, c).
     step_bind (step_resolve cv (\<lambda>g. resolve_value g flt)) (\<lambda>f.
     step_bind (step_query cv e c f []) (\<lambda>rs.
     step_bind (update_each cv e c updates rs) (\<lambda>xs.
     step_return (updated_output ''update_where'' c xs)))))"

fun increment_each ::
  "'s command_env \<Rightarrow> string \<Rightarrow> string \<Rightarrow> json_map \<Rightarrow> entity_record list \<Rightarrow> ('s, entity_record list) step" where
  "increment_each cv entity collection increments [] = step_return []"
| "increment_each cv entity collection increments (r # rs) =
     step_bind (step_act (act_lift (increment_patch (rec_data r) increments))) (\<lambda>patch.
     step_bind (step_act (step_write_update cv entity collection (rec_id r) patch)) (\<lambda>x.
     step_bind (increment_each cv entity collection increments rs) (\<lambda>xs. step_return (x # xs))))"

definition exec_increment_where ::
  "'s command_env \<Rightarrow> string option \<Rightarrow> string option \<Rightarrow> json \<Rightarrow> json \<Rightarrow> ('s, json \<times> command_counts) step" where
  "exec_increment_where cv entity collection flt increments =
     step_bind (step_target cv entity collection) (\<lambda>(e, c).
     step_bind (step_resolve cv (\<lambda>g. resolve_value g flt)) (\<lambda>f.
     step_bind (step_resolve cv (\<lambda>g. resolve_value g increments)) (\<lambda>i.
     step_bind (step_act (act_lift (ok_or (as_object i)
        (sorx_error_new ''command_increments_invalid''
           (Text ''increment_where increments must resolve to an object''))))) (\<lambda>amounts.
     step_bind (step_query cv e c f []) (\<lambda>rs.
     step_bind (increment_each cv e c amounts rs) (\<lambda>xs.
     step_return (updated_output ''increment_where'' c xs)))))))"

definition exec_query ::
  "'s command_env \<Rightarrow> string option \<Rightarrow> string option \<Rightarrow> json \<Rightarrow> command_order_by list \<Rightarrow>
   ('s, json \<times> command_counts) step" where
  "exec_query cv entity collection flt order_by =
     step_bind (step_target cv entity collection) (\<lambda>(e, c).
     step_bind (step_resolve cv (\<lambda>g. resolve_value g flt)) (\<lambda>f.
     step_bind (step_query cv e c f (command_order_by_of order_by)) (\<lambda>rs.
     step_return
       (JObj (bt_collect [(''op'', JStr ''query''), (''collection'', JStr c),
          (''count'', json_usize (length rs)), (''records'', JArr (map entity_to_json rs))]),
        no_counts))))"

definition exec_find_one ::
  "'s command_env \<Rightarrow> string option \<Rightarrow> string option \<Rightarrow> json \<Rightarrow> bool \<Rightarrow> ('s, json \<times> command_counts) step" where
  "exec_find_one cv entity collection flt required =
     step_bind (step_target cv entity collection) (\<lambda>(e, c).
     step_bind (step_resolve cv (\<lambda>g. resolve_value g flt)) (\<lambda>f.
     step_bind (step_query cv e c f []) (\<lambda>rs.
       case rs of
         r # _ \<Rightarrow> step_return (entity_to_json r, no_counts)
       | [] \<Rightarrow>
           if required
           then step_fail (sorx_error_new ''command_record_not_found''
                  (Text (''required command record was not found in `'' @ c @ ''`'')))
           else step_return (JNull, no_counts))))"

section \<open>Events\<close>

definition clean_capability_segment :: "string \<Rightarrow> string" where
  "clean_capability_segment v =
     (let cleaned = trim_matches (\<lambda>c. c = CHR ''-'')
            (map (\<lambda>c. if is_ascii_alphanumeric c \<or> c \<in> set ''-_.'' then c else CHR ''-'') v)
      in if cleaned = [] then ''unnamed'' else cleaned)"

definition business_event_capability :: "string \<Rightarrow> string \<Rightarrow> string" where
  "business_event_capability pack_name event_type =
     ''cap://greentic/events/'' @ clean_capability_segment pack_name @ ''/'' @
     clean_capability_segment event_type"

definition event_subject :: "'s command_env \<Rightarrow> ('s, string) step" where
  "event_subject cv =
     step_bind (step_string cv (\<lambda>g. resolve_string g ''$input.id'')) (\<lambda>a.
       case a of
         Some i \<Rightarrow> step_return i
       | None \<Rightarrow>
           step_bind (step_string cv (\<lambda>g. resolve_string g ''$item.id'')) (\<lambda>b.
           step_return (unwrap_or b (ep_endpoint_id (cv_endpoint cv)))))"

definition append_op_of ::
  "'s command_env \<Rightarrow> string \<Rightarrow> string option \<Rightarrow> string \<Rightarrow> json \<Rightarrow> timestamp \<Rightarrow> append_event_op" where
  "append_op_of cv event stream subject_id data now =
     (let pack = rt_pack (cv_runtime cv)
      in \<lparr>ae_namespace = cv_namespace cv,
          ae_stream = unwrap_or stream
            (unwrap_or (cs_action (cv_spec cv)) (ep_operation_id (cv_endpoint cv))),
          ae_event_type = event,
          ae_capability = Some (business_event_capability (rp_name pack) event),
          ae_producer = Some (''sorx:'' @ rp_name pack @ '':'' @ rp_version pack),
          ae_subject_entity = pb_entity (cv_binding cv), ae_subject_id = subject_id,
          ae_data = data, ae_occurred_at = now\<rparr>)"

definition command_event_of :: "'s command_env \<Rightarrow> string \<Rightarrow> string \<Rightarrow> json \<Rightarrow> command_event_input" where
  "command_event_of cv event subject_id data =
     \<lparr>ce_environment = rt_environment (cv_runtime cv), ce_tenant_id = inv_tenant_id (cv_invocation cv),
      ce_event_name = event, ce_subject_entity = pb_entity (cv_binding cv),
      ce_subject_id = subject_id, ce_payload = data,
      ce_idempotency_key = inv_idempotency_key (cv_invocation cv)\<rparr>"

definition exec_emit_event ::
  "'s command_env \<Rightarrow> string \<Rightarrow> json \<Rightarrow> string option \<Rightarrow> ('s, json \<times> command_counts) step" where
  "exec_emit_event cv event payload stream =
     (let rt = cv_runtime cv
      in step_bind (step_act (act_lift
             (registered_canonical_store (rt_providers rt) (pb_provider_id (cv_binding cv))))) (\<lambda>canonical.
         step_bind (step_resolve cv (\<lambda>g. resolve_value g payload)) (\<lambda>data.
         step_bind (event_subject cv) (\<lambda>subject_id.
         step_bind (step_act (act_clock (rt_utc_now rt))) (\<lambda>now.
         let op = append_op_of cv event stream subject_id data now
         in step_bind (step_act (act_write (pb_provider_id (cv_binding cv)) (DoAppendEvent op)
                                   (\<lambda>w. cst_append_event canonical w op))) (\<lambda>e.
            step_bind (step_act (publish_business_event rt (cv_endpoint cv) (cv_invocation cv)
                                   (CommandEvent (command_event_of cv event subject_id data)))) (\<lambda>_.
            step_return (event_to_json rt e, no_counts))))))))"

section \<open>The interpreter\<close>

definition step_guard ::
  "'s command_env \<Rightarrow> command_step \<Rightarrow> ('s, json \<times> command_counts) step \<Rightarrow> ('s, json \<times> command_counts) step" where
  "step_guard cv st body =
     step_bind (step_resolve cv (\<lambda>g. should_run_step g (step_when st))) (\<lambda>run.
       if run then body else step_return (skipped_step_output st, no_counts))"

definition foreach_items :: "'s command_env \<Rightarrow> json \<Rightarrow> ('s, json list) step" where
  "foreach_items cv items =
     step_bind (step_resolve cv (\<lambda>g. resolve_value g items)) (\<lambda>v.
       step_act (act_lift (ok_or (as_array v)
         (sorx_error_new ''command_items_invalid'' (Text ''foreach items must resolve to an array'')))))"

definition foreach_output :: "nat \<Rightarrow> json list \<Rightarrow> json list \<Rightarrow> command_counts \<Rightarrow> json" where
  "foreach_output n records iterations counts =
     JObj (bt_collect [(''op'', JStr ''foreach''), (''count'', json_usize n),
       (''created_count'', json_usize (cn_created counts)),
       (''updated_count'', json_usize (cn_updated counts)),
       (''deleted_count'', json_usize (cn_deleted counts)),
       (''records'', JArr records), (''items'', JArr iterations)])"

text \<open>
  \<open>exec_nested\<close> is a loop over steps with \<^verbatim>\<open>record_step\<close>; it returns the outputs, the records
  in them and the counts. \<open>exec_items\<close> is the loop over the items of a \<^verbatim>\<open>foreach\<close>.
\<close>

function (sequential)
  exec_step :: "'s command_env \<Rightarrow> command_step \<Rightarrow> ('s, json \<times> command_counts) step"
and exec_nested :: "'s command_env \<Rightarrow> command_step list \<Rightarrow> ('s, json list \<times> json list \<times> command_counts) step"
and exec_items ::
  "'s command_env \<Rightarrow> nat \<Rightarrow> json list \<Rightarrow> command_step list \<Rightarrow> ('s, json list \<times> json list \<times> command_counts) step"
where
  "exec_step cv (DeleteWhere as_name cond entity collection flt) =
     step_guard cv (DeleteWhere as_name cond entity collection flt)
       (exec_delete_where cv entity collection flt)"
| "exec_step cv (CreateStep as_name cond entity collection input) =
     step_guard cv (CreateStep as_name cond entity collection input)
       (exec_create cv entity collection input)"
| "exec_step cv (UpdateWhere as_name cond entity collection flt updates) =
     step_guard cv (UpdateWhere as_name cond entity collection flt updates)
       (exec_update_where cv entity collection flt updates)"
| "exec_step cv (IncrementWhere as_name cond entity collection flt increments) =
     step_guard cv (IncrementWhere as_name cond entity collection flt increments)
       (exec_increment_where cv entity collection flt increments)"
| "exec_step cv (QueryStep as_name cond entity collection flt order_by) =
     step_guard cv (QueryStep as_name cond entity collection flt order_by)
       (exec_query cv entity collection flt order_by)"
| "exec_step cv (FindOne as_name cond entity collection flt required) =
     step_guard cv (FindOne as_name cond entity collection flt required)
       (exec_find_one cv entity collection flt required)"
| "exec_step cv (EmitEvent as_name cond event payload stream) =
     step_guard cv (EmitEvent as_name cond event payload stream)
       (exec_emit_event cv event payload stream)"
| "exec_step cv (Foreach as_name cond items steps) =
     step_guard cv (Foreach as_name cond items steps)
       (step_bind (foreach_items cv items) (\<lambda>vs.
        step_bind (exec_items cv 0 vs steps) (\<lambda>(iterations, records, counts).
        step_return (foreach_output (length vs) records iterations counts, counts))))"
| "exec_nested cv [] = step_return ([], [], no_counts)"
| "exec_nested cv (st # sts) =
     step_bind (exec_step cv st) (\<lambda>(out, counts).
     step_bind (step_update (record_step (step_as_name st) out)) (\<lambda>_.
     step_bind (exec_nested cv sts) (\<lambda>(outs, records, counts').
     step_return (out # outs, collect_command_records out @ records, add_counts counts counts'))))"
| "exec_items cv index [] steps = step_return ([], [], no_counts)"
| "exec_items cv index (item # items) steps =
     step_bind (step_update (push_iteration item index)) (\<lambda>_.
     step_bind (exec_nested cv steps) (\<lambda>(outs, records, counts).
     step_bind (step_update pop_iteration) (\<lambda>_.
     step_bind (exec_items cv (Suc index) items steps) (\<lambda>(iterations, records', counts').
     step_return
       (JObj (bt_collect [(''index'', json_usize index), (''steps'', JArr outs)]) # iterations,
        records @ records', add_counts counts counts')))))"
  by pat_completeness auto
termination
  by (relation "measures
       [\<lambda>x. case x of Inl (cv, st) \<Rightarrow> size st
                | Inr (Inl (cv, sts)) \<Rightarrow> size_list size sts
                | Inr (Inr (cv, i, items, sts)) \<Rightarrow> size_list size sts,
        \<lambda>x. case x of Inl (cv, st) \<Rightarrow> 0
                | Inr (Inl (cv, sts)) \<Rightarrow> 0
                | Inr (Inr (cv, i, items, sts)) \<Rightarrow> Suc (length items)]") auto

section \<open>Commands\<close>

definition command_result ::
  "'s command_env \<Rightarrow> json list \<Rightarrow> command_counts \<Rightarrow> ('s, json) step" where
  "command_result cv outs counts =
     (case cs_return (cv_spec cv) of
        Some v \<Rightarrow> step_resolve cv (\<lambda>g. resolve_value g v)
      | None \<Rightarrow>
          step_return (JObj (bt_collect
            [(''deleted'', json_usize (cn_deleted counts)), (''deleted_count'', json_usize (cn_deleted counts)),
             (''created'', json_usize (cn_created counts)), (''created_count'', json_usize (cn_created counts)),
             (''updated'', json_usize (cn_updated counts)), (''updated_count'', json_usize (cn_updated counts)),
             (''steps'', JArr outs)])))"

definition command_output :: "endpoint_definition \<Rightarrow> command_spec \<Rightarrow> json \<Rightarrow> json" where
  "command_output ep spec result =
     canonical_to_view (ep_view ep) (JObj (bt_collect
       [(''ok'', JBool True), (''endpoint_id'', JStr (ep_endpoint_id ep)),
        (''action'', (case cs_action spec of None \<Rightarrow> JNull | Some a \<Rightarrow> JStr a)), (''result'', result)]))"

text \<open>\<^verbatim>\<open>CommandExecutionContext::new\<close> takes the time and the next nonce.\<close>

definition run_steps :: "'s sorx_runtime \<Rightarrow> ('s, 'a) step \<Rightarrow> ('s, 'a) act" where
  "run_steps rt m s =
     (case m (command_context_new (show_nat (rt_now_secs rt (rs_trace s))) (rs_nonce s))
             (s\<lparr>rs_nonce := rs_nonce s + 1\<rparr>) of
        (r, cx, s') \<Rightarrow> (r, s'))"

definition execute_command ::
  "'s sorx_runtime \<Rightarrow> endpoint_definition \<Rightarrow> command_spec \<Rightarrow> endpoint_invocation \<Rightarrow>
   provider_namespace \<Rightarrow> provider_binding \<Rightarrow> ('s, endpoint_result) act" where
  "execute_command rt ep spec call ns b =
     (if cs_idempotency spec = Some ''required'' \<and> inv_idempotency_key call = None
      then act_fail (sorx_error_new ''idempotency_key_required''
             (Text (''command `'' @ ep_operation_id ep @ ''` requires an idempotency key'')))
      else
        act_bind (act_lift (registered_store (rt_providers rt) (pb_provider_id b))) (\<lambda>provider.
        let cv = \<lparr>cv_runtime = rt, cv_endpoint = ep, cv_spec = spec, cv_invocation = call,
                  cv_namespace = ns, cv_binding = b, cv_provider = provider\<rparr>
        in act_bind (run_steps rt
              (step_bind (exec_nested cv (cs_steps spec)) (\<lambda>(outs, records, counts).
               command_result cv outs counts))) (\<lambda>result.
           act_return \<lparr>er_status = StOk, er_output = command_output ep spec result,
                       er_events = [rt_event ep call ''command.executed'']\<rparr>)))"

end
