(* ===== verification/Runtime.thy ===== *)
theory Runtime
  imports Command
begin

text \<open>
  The invocation pipeline of \<^verbatim>\<open>SorxRuntime\<close> (\<^verbatim>\<open>greentic-sorx-core/src/runtime.rs\<close>): routing,
  the read-only check, view mapping, schema validation, authorization, the control hook, the
  risk policy with approval, the store operation, and the hook on the response.
\<close>

section \<open>Authorization\<close>

definition authorization_matches :: "authorization_requirement \<Rightarrow> string list \<Rightarrow> bool" where
  "authorization_matches auth roles =
     (if any_of (auth_roles auth) = [] \<and> all_of (auth_roles auth) = [] then True
      else (any_of (auth_roles auth) = [] \<or> list_ex (\<lambda>r. r \<in> set roles) (any_of (auth_roles auth))) \<and>
           list_all (\<lambda>r. r \<in> set roles) (all_of (auth_roles auth)))"

definition authorization_policy_denial ::
  "authorization_requirement \<Rightarrow> authorization_policy_resource \<Rightarrow> string \<Rightarrow> endpoint_invocation \<Rightarrow>
   string option" where
  "authorization_policy_denial auth resource operation call =
     (let d = decide_authorization
                \<lparr>principal_subject = caller_subject (inv_caller call),
                 principal_roles = caller_roles (inv_caller call), ap_resource = resource,
                 ap_operation = operation, ap_policies = auth_policies auth,
                 ap_conditions = auth_conditions auth\<rparr>
      in if pd_action d = Deny then Some (pd_reason d) else None)"

definition requirement_denial ::
  "authorization_requirement option \<Rightarrow> string \<Rightarrow> authorization_policy_resource \<Rightarrow> string \<Rightarrow>
   endpoint_invocation \<Rightarrow> string option" where
  "requirement_denial req role_message resource operation call =
     (case req of
        None \<Rightarrow> None
      | Some auth \<Rightarrow>
          if \<not> authorization_matches auth (caller_roles (inv_caller call)) then Some role_message
          else authorization_policy_denial auth resource operation call)"

fun record_requirement :: "record_access_policy \<Rightarrow> operation_kind \<Rightarrow> authorization_requirement option" where
  "record_requirement access OpGet = ra_read access"
| "record_requirement access OpQuery = ra_read access"
| "record_requirement access OpCreate = ra_create access"
| "record_requirement access OpUpdate = ra_update access"
| "record_requirement access OpDelete = ra_delete access"
| "record_requirement access (OpCommand _) = None"

definition authorization_denial ::
  "'s sorx_runtime \<Rightarrow> endpoint_definition \<Rightarrow> endpoint_invocation \<Rightarrow> string option" where
  "authorization_denial rt ep call =
     (let name = operation_access_name (ep_operation ep)
      in case requirement_denial (ep_authorization ep)
                ''endpoint authorization roles did not match principal''
                (EndpointResource (ep_endpoint_id ep)) name call of
           Some reason \<Rightarrow> Some reason
         | None \<Rightarrow>
             (case ep_entity ep of
                None \<Rightarrow> None
              | Some record \<Rightarrow>
                  (case bt_get (rp_record_access (rt_pack rt)) record of
                     None \<Rightarrow> None
                   | Some access \<Rightarrow>
                       requirement_denial (record_requirement access (ep_operation ep))
                         (''record `'' @ record @ ''` '' @ name @ '' access roles did not match principal'')
                         (RecordResource record) name call)))"

section \<open>The store operation\<close>

definition run_create ::
  "'s sorx_runtime \<Rightarrow> endpoint_definition \<Rightarrow> endpoint_invocation \<Rightarrow> provider_namespace \<Rightarrow>
   provider_binding \<Rightarrow> 's canonical_store \<Rightarrow> ('s, endpoint_result) act" where
  "run_create rt ep call ns b provider =
     (let op = \<lparr>cr_namespace = ns, cr_entity = pb_entity b, cr_collection = pb_collection b,
                cr_input = inv_input call,
                cr_idempotency_key =
                  map_option (\<lambda>k. ep_operation_id ep @ '':'' @ k) (inv_idempotency_key call),
                cr_unique_indexes = unique_indexes_for rt (pb_entity b) (pb_collection b),
                cr_unique_behavior = Reject\<rparr>
      in act_bind (act_write (pb_provider_id b) (DoCreate op) (\<lambda>w. sp_create provider w op)) (\<lambda>r.
         act_then (publish_entity_event rt ep call b ''created'' (rec_id r) (Some (entity_to_json r)))
         (act_return \<lparr>er_status = StCreated, er_output = canonical_to_view (ep_view ep) (entity_to_json r),
                      er_events = [rt_event ep call ''entity.created'']\<rparr>)))"

definition run_get ::
  "endpoint_definition \<Rightarrow> endpoint_invocation \<Rightarrow> provider_namespace \<Rightarrow> provider_binding \<Rightarrow>
   's canonical_store \<Rightarrow> ('s, endpoint_result) act" where
  "run_get ep call ns b provider =
     act_bind (act_lift (required_string (inv_input call) ''id'')) (\<lambda>i.
       let op = \<lparr>g_namespace = ns, g_entity = pb_entity b, g_collection = pb_collection b, g_id = i\<rparr>
       in act_bind (act_read (pb_provider_id b) (DoGet op) (\<lambda>w. sp_get provider w op)) (\<lambda>r.
          act_return \<lparr>er_status = (if r \<noteq> None then StOk else StNotFound),
                      er_output = canonical_to_view (ep_view ep) (entity_opt_to_json r),
                      er_events = [rt_event ep call ''entity.get'']\<rparr>))"

definition run_update ::
  "'s sorx_runtime \<Rightarrow> endpoint_definition \<Rightarrow> endpoint_invocation \<Rightarrow> provider_namespace \<Rightarrow>
   provider_binding \<Rightarrow> 's canonical_store \<Rightarrow> ('s, endpoint_result) act" where
  "run_update rt ep call ns b provider =
     act_bind (act_lift (required_string (inv_input call) ''id'')) (\<lambda>i.
       let op = \<lparr>up_namespace = ns, up_entity = pb_entity b, up_collection = pb_collection b, up_id = i,
                 up_patch = unwrap_or (jget (inv_input call) ''patch'') (inv_input call),
                 up_unique_indexes = unique_indexes_for rt (pb_entity b) (pb_collection b)\<rparr>
       in act_bind (act_write (pb_provider_id b) (DoUpdate op) (\<lambda>w. sp_update provider w op)) (\<lambda>r.
          act_then (publish_entity_event rt ep call b ''updated'' (rec_id r) (Some (entity_to_json r)))
          (act_return \<lparr>er_status = StOk, er_output = canonical_to_view (ep_view ep) (entity_to_json r),
                       er_events = [rt_event ep call ''entity.updated'']\<rparr>)))"

definition query_records ::
  "'s sorx_runtime \<Rightarrow> endpoint_definition \<Rightarrow> endpoint_invocation \<Rightarrow> provider_namespace \<Rightarrow>
   provider_binding \<Rightarrow> 's canonical_store \<Rightarrow> ('s, entity_record list) act" where
  "query_records rt ep call ns b provider =
     (let flt = unwrap_or (jget (inv_input call) ''filter'') (inv_input call)
      in case qp_index (ep_query_plan ep) of
           Some ix \<Rightarrow>
             act_bind (act_lift (registered_canonical_store (rt_providers rt) (pb_provider_id b))) (\<lambda>canonical.
               let op = \<lparr>iq_namespace = ns, iq_entity = pb_entity b, iq_collection = pb_collection b,
                         iq_index = ir_name ix, iq_filter = flt\<rparr>
               in act_read (pb_provider_id b) (DoQueryIndex op) (\<lambda>w. cst_query_index canonical w op))
         | None \<Rightarrow>
             (case qp_traversal (ep_query_plan ep) of
                Some tr \<Rightarrow>
                  act_bind (act_lift (registered_canonical_store (rt_providers rt) (pb_provider_id b))) (\<lambda>canonical.
                  act_bind (act_lift (required_string (inv_input call) ''id'')) (\<lambda>root.
                    let op = \<lparr>tv_namespace = ns, tv_root_entity = pb_entity b,
                              tv_root_collection = pb_collection b, tv_root_id = root,
                              tv_max_depth = tr_max_depth tr, tv_relationships = tr_relationships tr\<rparr>
                    in act_read (pb_provider_id b) (DoTraverse op) (\<lambda>w. cst_traverse canonical w op)))
              | None \<Rightarrow>
                  let op = \<lparr>q_namespace = ns, q_entity = pb_entity b, q_collection = pb_collection b,
                            q_filter = flt, q_order_by = []\<rparr>
                  in act_read (pb_provider_id b) (DoQuery op) (\<lambda>w. sp_query provider w op)))"

definition run_query ::
  "'s sorx_runtime \<Rightarrow> endpoint_definition \<Rightarrow> endpoint_invocation \<Rightarrow> provider_namespace \<Rightarrow>
   provider_binding \<Rightarrow> 's canonical_store \<Rightarrow> ('s, endpoint_result) act" where
  "run_query rt ep call ns b provider =
     act_bind (query_records rt ep call ns b provider) (\<lambda>rs.
       act_return \<lparr>er_status = StOk, er_output = canonical_to_view (ep_view ep) (records_to_json rs),
                   er_events = [rt_event ep call ''entity.queried'']\<rparr>)"

definition run_delete ::
  "'s sorx_runtime \<Rightarrow> endpoint_definition \<Rightarrow> endpoint_invocation \<Rightarrow> provider_namespace \<Rightarrow>
   provider_binding \<Rightarrow> 's canonical_store \<Rightarrow> ('s, endpoint_result) act" where
  "run_delete rt ep call ns b provider =
     act_bind (act_lift (required_string (inv_input call) ''id'')) (\<lambda>i.
       let op = \<lparr>del_namespace = ns, del_entity = pb_entity b, del_collection = pb_collection b, del_id = i\<rparr>
       in act_bind (act_write (pb_provider_id b) (DoDelete op) (\<lambda>w. sp_delete provider w op)) (\<lambda>deleted.
          act_then (if deleted then publish_entity_event rt ep call b ''deleted'' i None else act_return ())
          (act_return \<lparr>er_status = (if deleted then StDeleted else StNotFound),
                       er_output = JObj [(''deleted'', JBool deleted)],
                       er_events = [rt_event ep call ''entity.deleted'']\<rparr>)))"

definition run_operation ::
  "'s sorx_runtime \<Rightarrow> endpoint_definition \<Rightarrow> endpoint_invocation \<Rightarrow> provider_namespace \<Rightarrow>
   provider_binding \<Rightarrow> 's canonical_store \<Rightarrow> ('s, endpoint_result) act" where
  "run_operation rt ep call ns b provider =
     (case ep_operation ep of
        OpCreate \<Rightarrow> run_create rt ep call ns b provider
      | OpGet \<Rightarrow> run_get ep call ns b provider
      | OpUpdate \<Rightarrow> run_update rt ep call ns b provider
      | OpQuery \<Rightarrow> run_query rt ep call ns b provider
      | OpDelete \<Rightarrow> run_delete rt ep call ns b provider
      | OpCommand spec \<Rightarrow> execute_command rt ep spec call ns b)"

text \<open>The closure of \<^verbatim>\<open>invoke\<close> that reaches the provider, from its first audit event on.\<close>

definition started_stage ::
  "'s sorx_runtime \<Rightarrow> endpoint_definition \<Rightarrow> endpoint_invocation \<Rightarrow> provider_binding \<Rightarrow>
   's canonical_store \<Rightarrow> ('s, endpoint_result) act" where
  "started_stage rt ep call b provider =
     act_bind (run_operation rt ep call
                 \<lparr>ns_tenant_id = inv_tenant_id call, ns_sor_name = rt_sor_name rt\<rparr> b provider) (\<lambda>result.
     act_then (audit rt ep call ''sorx.provider.operation.completed'' None None)
     (act_return result))"

definition provider_stage ::
  "'s sorx_runtime \<Rightarrow> endpoint_definition \<Rightarrow> endpoint_invocation \<Rightarrow> ('s, endpoint_result) act" where
  "provider_stage rt ep call =
     act_bind (act_lift (resolve_binding (rt_bindings rt) ep)) (\<lambda>b.
     act_bind (act_lift (registered_store (rt_providers rt) (pb_provider_id b))) (\<lambda>provider.
     act_then (audit rt ep call ''sorx.provider.operation.started'' None None)
     (started_stage rt ep call b provider)))"

section \<open>Policy and approval\<close>

definition approval_to_json :: "approval_decision \<Rightarrow> json" where
  "approval_to_json a =
     JObj (bt_collect [(''status'', JStr (approval_status_label (ad_status a))),
       (''request_id'', JStr (ad_request_id a)), (''reason'', JStr (ad_reason a))])"

definition denied_result ::
  "endpoint_definition \<Rightarrow> endpoint_invocation \<Rightarrow> (string \<times> json) list \<Rightarrow> string \<Rightarrow> endpoint_result" where
  "denied_result ep call fs event_type =
     \<lparr>er_status = StDenied, er_output = JObj (bt_collect ((''status'', JStr ''denied'') # fs)),
      er_events = [rt_event ep call event_type]\<rparr>"

definition approval_required_result ::
  "endpoint_definition \<Rightarrow> endpoint_invocation \<Rightarrow> approval_decision \<Rightarrow> endpoint_result" where
  "approval_required_result ep call a =
     \<lparr>er_status = StApprovalRequired,
      er_output = JObj (bt_collect
        [(''status'', JStr ''approval_required''),
         (''approval'', JObj (bt_collect
            [(''request_id'', JStr (ad_request_id a)), (''risk'', JStr (show_risk (ep_risk ep))),
             (''reason'', JStr (ad_reason a))]))]),
      er_events = [rt_event ep call ''approval.requested'']\<rparr>"

text \<open>\<^term>\<open>None\<close>: go on to the provider. \<^term>\<open>Some r\<close>: return \<open>r\<close> to the caller.\<close>

definition approval_stage ::
  "'s sorx_runtime \<Rightarrow> endpoint_definition \<Rightarrow> endpoint_invocation \<Rightarrow> policy_decision \<Rightarrow>
   ('s, endpoint_result option) act" where
  "approval_stage rt ep call d =
     (let q = \<lparr>arq_request_id = approval_request_id ep call, arq_tenant_id = inv_tenant_id call,
               arq_endpoint_id = ep_endpoint_id ep, arq_operation_id = ep_operation_id ep,
               arq_risk = ep_risk ep, arq_reason = pd_reason d, arq_caller = inv_caller call\<rparr>
      in act_bind (act_effect (AskApproval q) (\<lambda>t. rt_approval_broker rt t q)) (\<lambda>a.
         act_then (audit rt ep call ''sorx.approval.requested'' (Some (approval_status_label (ad_status a))) None)
         (case ad_status a of
            Approved \<Rightarrow> act_return None
          | ApprovalDenied \<Rightarrow>
              act_then (audit_timed rt ep call ''sorx.endpoint.completed'' (Some ''denied''))
              (act_return (Some (denied_result ep call [(''approval'', approval_to_json a)] ''approval.denied'')))
          | ApprovalPending \<Rightarrow>
              act_then (audit_timed rt ep call ''sorx.endpoint.completed'' (Some ''approval_required''))
              (act_return (Some (approval_required_result ep call a))))))"

definition policy_stage ::
  "'s sorx_runtime \<Rightarrow> endpoint_definition \<Rightarrow> endpoint_invocation \<Rightarrow> ('s, endpoint_result option) act" where
  "policy_stage rt ep call =
     (let d = policy_decide (rt_policy rt) ep
      in act_then (audit rt ep call ''sorx.policy.decided'' (Some (policy_decision_label d)) None)
         (case pd_action d of
            Execute \<Rightarrow> act_return None
          | Deny \<Rightarrow>
              act_then (audit_timed rt ep call ''sorx.endpoint.completed'' (Some ''denied''))
              (act_return (Some (denied_result ep call
                 [(''risk'', JStr (show_risk (ep_risk ep))), (''reason'', JStr (pd_reason d))] ''policy.denied'')))
          | RequireApproval \<Rightarrow> approval_stage rt ep call d))"

section \<open>The pipeline\<close>

definition patched_input :: "control_decision \<Rightarrow> json \<Rightarrow> json" where
  "patched_input d v =
     (case (cd_action d, cd_patch d) of
        (ControlAllowWithPatch, Some patch) \<Rightarrow> apply_value_patch v patch
      | _ \<Rightarrow> v)"

definition control_denied_result ::
  "endpoint_definition \<Rightarrow> endpoint_invocation \<Rightarrow> control_decision \<Rightarrow> string \<Rightarrow> endpoint_result" where
  "control_denied_result ep call d default_reason =
     denied_result ep call [(''reason'', JStr (unwrap_or (cd_reason d) default_reason))] ''control.denied''"

definition stack_request :: "endpoint_invocation \<Rightarrow> stack_call_request" where
  "stack_request call = \<lparr>scq_operation_id = inv_operation_id call, scq_input = inv_input call\<rparr>"

text \<open>What follows the store operation: the hook on the response, then observer and audit.\<close>

definition respond_stage ::
  "'s sorx_runtime \<Rightarrow> endpoint_definition \<Rightarrow> endpoint_invocation \<Rightarrow> stack_call_context \<Rightarrow>
   endpoint_result \<Rightarrow> ('s, endpoint_result) act" where
  "respond_stage rt ep call ctx result =
     (let q = stack_request call;
          p = \<lparr>scr_status = show_status (er_status result), scr_output = er_output result\<rparr>
      in act_bind (act_effect (PostCall ctx q p) (\<lambda>t. rt_post_call rt t ctx q p)) (\<lambda>d.
         let result' = (case cd_action d of
                          ControlDeny \<Rightarrow> control_denied_result ep call d ''control denied stack response''
                        | _ \<Rightarrow> result\<lparr>er_output := patched_input d (er_output result)\<rparr>)
         in act_then (observe_timed rt
                        (if er_status result' = StDenied then ''stack.call.denied'' else ''stack.call.completed'')
                        ctx
                        (if cd_action d = ControlDeny then ''denied'' else show_status (er_status result)) d)
            (act_then (audit_timed rt ep call ''sorx.endpoint.completed'' (Some ''executed''))
             (act_return result'))))"

definition provider_failed ::
  "'s sorx_runtime \<Rightarrow> endpoint_definition \<Rightarrow> endpoint_invocation \<Rightarrow> stack_call_context \<Rightarrow>
   control_decision \<Rightarrow> sorx_error \<Rightarrow> ('s, endpoint_result) act" where
  "provider_failed rt ep call ctx d err =
     act_then (observe_timed rt ''stack.call.failed'' ctx ''failed'' d)
     (act_then (audit rt ep call ''sorx.endpoint.failed'' None None) (act_fail err))"

definition act_match ::
  "('s, 'a) act \<Rightarrow> (sorx_error \<Rightarrow> ('s, 'b) act) \<Rightarrow> ('a \<Rightarrow> ('s, 'b) act) \<Rightarrow> ('s, 'b) act" where
  "act_match m on_err on_ok s = (case m s of (Err e, s') \<Rightarrow> on_err e s' | (Ok x, s') \<Rightarrow> on_ok x s')"

definition execute_stage ::
  "'s sorx_runtime \<Rightarrow> endpoint_definition \<Rightarrow> endpoint_invocation \<Rightarrow> stack_call_context \<Rightarrow>
   control_decision \<Rightarrow> ('s, endpoint_result) act" where
  "execute_stage rt ep call ctx d =
     act_match (provider_stage rt ep call) (provider_failed rt ep call ctx d) (respond_stage rt ep call ctx)"

definition admitted_stage ::
  "'s sorx_runtime \<Rightarrow> endpoint_definition \<Rightarrow> endpoint_invocation \<Rightarrow> stack_call_context \<Rightarrow>
   control_decision \<Rightarrow> ('s, endpoint_result) act" where
  "admitted_stage rt ep call ctx d =
     act_bind (policy_stage rt ep call) (\<lambda>stop.
       case stop of Some r \<Rightarrow> act_return r | None \<Rightarrow> execute_stage rt ep call ctx d)"

definition decided_stage ::
  "'s sorx_runtime \<Rightarrow> endpoint_definition \<Rightarrow> endpoint_invocation \<Rightarrow> stack_call_context \<Rightarrow>
   control_decision \<Rightarrow> ('s, endpoint_result) act" where
  "decided_stage rt ep call ctx d =
     (if cd_action d = ControlDeny
      then act_then (observe_timed rt ''stack.call.denied'' ctx ''denied'' d)
           (act_then (audit_timed rt ep call ''sorx.endpoint.completed'' (Some ''denied''))
            (act_return (control_denied_result ep call d ''control denied stack call'')))
      else admitted_stage rt ep (call\<lparr>inv_input := patched_input d (inv_input call)\<rparr>) ctx d)"

definition control_stage ::
  "'s sorx_runtime \<Rightarrow> endpoint_definition \<Rightarrow> endpoint_invocation \<Rightarrow> stack_call_context \<Rightarrow>
   ('s, endpoint_result) act" where
  "control_stage rt ep call ctx =
     act_then (observe rt \<lparr>oe_event_type = ''stack.call.started'', oe_context = ctx, oe_status = None,
                           oe_duration_ms = None, oe_control_decision = None\<rparr>)
     (act_bind (act_effect (PreCall ctx (stack_request call)) (\<lambda>t. rt_pre_call rt t ctx (stack_request call)))
        (decided_stage rt ep call ctx))"

definition reject ::
  "'s sorx_runtime \<Rightarrow> endpoint_definition \<Rightarrow> endpoint_invocation \<Rightarrow> sorx_error \<Rightarrow> ('s, endpoint_result) act" where
  "reject rt ep call err = act_then (audit rt ep call ''sorx.endpoint.failed'' None None) (act_fail err)"

definition operation_mismatch :: "endpoint_definition \<Rightarrow> endpoint_invocation \<Rightarrow> sorx_error" where
  "operation_mismatch ep call = sorx_error_new ''operation_mismatch''
     (Text (''endpoint `'' @ ep_endpoint_id ep @ ''` maps to operation `'' @ ep_operation_id ep @
            ''`, not `'' @ inv_operation_id call @ ''`''))"

definition view_read_only :: "endpoint_definition \<Rightarrow> sorx_error" where
  "view_read_only ep = sorx_error_new ''view_read_only''
     (Text (''endpoint `'' @ ep_endpoint_id ep @ ''` is read-only in this view''))"

definition checked_stage ::
  "'s sorx_runtime \<Rightarrow> endpoint_definition \<Rightarrow> endpoint_invocation \<Rightarrow> stack_call_context \<Rightarrow>
   ('s, endpoint_result) act" where
  "checked_stage rt ep call ctx =
     (if ep_operation_id ep \<noteq> inv_operation_id call then reject rt ep call (operation_mismatch ep call)
      else if read_only (ep_view ep) \<and> is_mutating (ep_operation ep)
      then reject rt ep call (view_read_only ep)
      else
        let call1 = call\<lparr>inv_input := view_to_canonical (ep_view ep) (inv_input call)\<rparr>
        in case validate_input ep (inv_input call1) of
             Err err \<Rightarrow> reject rt ep call1 err
           | Ok _ \<Rightarrow>
               (case authorization_denial rt ep call1 of
                  Some reason \<Rightarrow>
                    act_then (audit_timed rt ep call1 ''sorx.endpoint.completed'' (Some ''denied''))
                    (act_return (denied_result ep call1
                       [(''reason'', JStr reason), (''authorization'', JStr ''denied'')] ''authorization.denied''))
                | None \<Rightarrow> control_stage rt ep call1 ctx))"

definition router_endpoint :: "(string, endpoint_definition) btree \<Rightarrow> string \<Rightarrow> endpoint_definition sorx_result" where
  "router_endpoint endpoints i =
     ok_or (bt_get endpoints i)
       (sorx_error_new ''unknown_endpoint'' (Text (''unknown endpoint `'' @ i @ ''`'')))"

definition invoke :: "'s sorx_runtime \<Rightarrow> endpoint_invocation \<Rightarrow> ('s, endpoint_result) act" where
  "invoke rt call =
     act_bind (act_lift (router_endpoint (rt_router rt) (inv_endpoint_id call))) (\<lambda>ep.
     act_bind (act_clock (rt_now_nanos rt)) (\<lambda>now.
     act_then (audit rt ep call ''sorx.endpoint.invoked'' None None)
     (checked_stage rt ep call (stack_call_context_of rt ep call now))))"

fun router_insert_all ::
  "endpoint_definition list \<Rightarrow> (string, endpoint_definition) btree \<Rightarrow>
   (string, endpoint_definition) btree sorx_result" where
  "router_insert_all [] by_id = Ok by_id"
| "router_insert_all (ep # eps) by_id =
     (if bt_get by_id (ep_endpoint_id ep) \<noteq> None
      then Err (sorx_error_new ''duplicate_endpoint''
                  (Text ''endpoint router contains a duplicate endpoint id''))
      else router_insert_all eps (bt_insert (ep_endpoint_id ep) ep by_id))"

definition endpoint_router_new :: "endpoint_definition list \<Rightarrow> (string, endpoint_definition) btree sorx_result" where
  "endpoint_router_new eps = router_insert_all eps []"

end
