(* ===== verification/Runtime_Laws.thy ===== *)
theory Runtime_Laws
  imports Runtime
begin

text \<open>
  What an action of the runtime may do to the trace and the stores: \<^term>\<open>runs P m\<close> says that
  \<open>m\<close> only appends effects that satisfy \<open>P\<close>, and that the stores are unchanged unless one of
  the appended effects is a store operation that writes. The rules compose along the structure
  of the definitions; the locale \<open>effect_scope\<close> goes through the whole pipeline once.
\<close>

section \<open>Store operations\<close>

fun op_namespace :: "store_op \<Rightarrow> provider_namespace" where
  "op_namespace (DoCreate op) = cr_namespace op"
| "op_namespace (DoGet op) = g_namespace op"
| "op_namespace (DoUpdate op) = up_namespace op"
| "op_namespace (DoQuery op) = q_namespace op"
| "op_namespace (DoDelete op) = del_namespace op"
| "op_namespace (DoQueryIndex op) = iq_namespace op"
| "op_namespace (DoTraverse op) = tv_namespace op"
| "op_namespace (DoAppendEvent op) = ae_namespace op"

fun writes :: "store_op \<Rightarrow> bool" where
  "writes (DoCreate op) = True"
| "writes (DoUpdate op) = True"
| "writes (DoDelete op) = True"
| "writes (DoAppendEvent op) = True"
| "writes _ = False"

fun is_store_op :: "rt_effect \<Rightarrow> bool" where
  "is_store_op (StoreOp p op) = True"
| "is_store_op _ = False"

section \<open>Actions\<close>

named_theorems runs_intros \<open>composition rules for what actions may do\<close>

definition extends :: "(rt_effect \<Rightarrow> bool) \<Rightarrow> 's runtime_state \<Rightarrow> 's runtime_state \<Rightarrow> bool" where
  "extends P s s' \<longleftrightarrow>
     (\<exists>es. rs_trace s' = rs_trace s @ es \<and> list_all P es \<and>
           (rs_stores s' = rs_stores s \<or> (\<exists>p op. StoreOp p op \<in> set es \<and> writes op)))"

definition runs :: "(rt_effect \<Rightarrow> bool) \<Rightarrow> ('s, 'a) act \<Rightarrow> bool" where
  "runs P m \<longleftrightarrow> (\<forall>s. extends P s (snd (m s)))"

definition step_runs :: "(rt_effect \<Rightarrow> bool) \<Rightarrow> ('s, 'a) step \<Rightarrow> bool" where
  "step_runs P m \<longleftrightarrow> (\<forall>cx s. extends P s (snd (snd (m cx s))))"

lemma extends_refl [simp]: "extends P s s"
  by (auto simp: extends_def)

lemma extends_trans:
  assumes "extends P s s'" and "extends P s' s''"
  shows "extends P s s''"
proof -
  obtain es where es: "rs_trace s' = rs_trace s @ es" "list_all P es"
    "rs_stores s' = rs_stores s \<or> (\<exists>p op. StoreOp p op \<in> set es \<and> writes op)"
    using assms(1) by (auto simp: extends_def)
  obtain es' where es': "rs_trace s'' = rs_trace s' @ es'" "list_all P es'"
    "rs_stores s'' = rs_stores s' \<or> (\<exists>p op. StoreOp p op \<in> set es' \<and> writes op)"
    using assms(2) by (auto simp: extends_def)
  have "rs_trace s'' = rs_trace s @ (es @ es')" using es(1) es'(1) by simp
  moreover have "rs_stores s'' = rs_stores s \<or> (\<exists>p op. StoreOp p op \<in> set (es @ es') \<and> writes op)"
    using es(3) es'(3) by auto
  ultimately show ?thesis unfolding extends_def using es(2) es'(2) by (metis list_all_append)
qed

lemma extends_mono: "extends P s s' \<Longrightarrow> (\<And>e. P e \<Longrightarrow> Q e) \<Longrightarrow> extends Q s s'"
  by (auto simp: extends_def list_all_iff)

lemma runs_mono: "runs P m \<Longrightarrow> (\<And>e. P e \<Longrightarrow> Q e) \<Longrightarrow> runs Q m"
  by (auto simp: runs_def intro: extends_mono)

lemma runs_return [runs_intros]: "runs P (act_return x)"
  by (simp add: runs_def act_return_def)

lemma runs_fail [runs_intros]: "runs P (act_fail e)"
  by (simp add: runs_def act_fail_def)

lemma runs_lift [runs_intros]: "runs P (act_lift r)"
  by (simp add: runs_def act_lift_def)

lemma runs_clock [runs_intros]: "runs P (act_clock f)"
  by (simp add: runs_def act_clock_def)

lemma runs_effect [runs_intros]: "P e \<Longrightarrow> runs P (act_effect e f)"
  by (simp add: runs_def act_effect_def extends_def)

lemma runs_read [runs_intros]: "P (StoreOp p op) \<Longrightarrow> runs P (act_read p op f)"
  by (simp add: runs_def act_read_def extends_def)

lemma runs_write [runs_intros]: "P (StoreOp p op) \<Longrightarrow> writes op \<Longrightarrow> runs P (act_write p op f)"
  by (auto simp: runs_def act_write_def extends_def split: prod.splits)

lemma runs_bind [runs_intros]:
  assumes "runs P m" and "\<And>x. runs P (f x)"
  shows "runs P (act_bind m f)"
  unfolding runs_def
proof
  fix s
  have m: "extends P s (snd (m s))" using assms(1) by (simp add: runs_def)
  show "extends P s (snd (act_bind m f s))"
  proof (cases "m s")
    case (Pair r s')
    show ?thesis
    proof (cases r)
      case (Inl e)
      with Pair m show ?thesis by (simp add: act_bind_def)
    next
      case (Inr x)
      have "extends P s' (snd (f x s'))" using assms(2) by (simp add: runs_def)
      with Pair Inr m show ?thesis by (auto simp: act_bind_def intro: extends_trans)
    qed
  qed
qed

lemma runs_then [runs_intros]: "runs P m \<Longrightarrow> runs P k \<Longrightarrow> runs P (act_then m k)"
  by (simp add: act_then_def runs_bind)

lemma runs_match [runs_intros]:
  assumes "runs P m" and "\<And>e. runs P (f e)" and "\<And>x. runs P (g x)"
  shows "runs P (act_match m f g)"
  unfolding runs_def
proof
  fix s
  obtain r s' where m: "m s = (r, s')" by (cases "m s")
  have "extends P s s'" using assms(1) m by (metis runs_def snd_conv)
  moreover have "extends P s' (snd (f e s'))" "extends P s' (snd (g x s'))" for e x
    using assms(2,3) by (simp_all add: runs_def)
  ultimately show "extends P s (snd (act_match m f g s))"
    using m by (cases r) (auto simp: act_match_def intro: extends_trans)
qed

section \<open>Steps\<close>

lemma step_runs_return [runs_intros]: "step_runs P (step_return x)"
  by (simp add: step_runs_def step_return_def)

lemma step_runs_fail [runs_intros]: "step_runs P (step_fail e)"
  by (simp add: step_runs_def step_fail_def)

lemma step_runs_update [runs_intros]: "step_runs P (step_update f)"
  by (simp add: step_runs_def step_update_def)

lemma step_runs_resolve [runs_intros]: "step_runs P (step_resolve cv f)"
  by (simp add: step_runs_def step_resolve_def split: prod.splits)

lemma step_runs_string [runs_intros]: "step_runs P (step_string cv f)"
  by (simp add: step_runs_def step_string_def split: prod.splits)

lemma step_runs_reset [runs_intros]: "step_runs P (step_reset cv e fs)"
  by (auto simp: step_runs_def step_reset_def extends_def split: prod.splits)

lemma step_runs_act [runs_intros]: "runs P m \<Longrightarrow> step_runs P (step_act m)"
  by (auto simp: step_runs_def step_act_def runs_def split: prod.splits) (metis snd_conv)

lemma step_runs_try [runs_intros]: "runs P m \<Longrightarrow> step_runs P (step_try m)"
  by (auto simp: step_runs_def step_try_def runs_def split: prod.splits) (metis snd_conv)

lemma step_runs_bind [runs_intros]:
  assumes "step_runs P m" and "\<And>x. step_runs P (f x)"
  shows "step_runs P (step_bind m f)"
  unfolding step_runs_def
proof (intro allI)
  fix cx s
  obtain r cx' s' where m: "m cx s = (r, cx', s')" by (cases "m cx s")
  have "extends P s s'" using assms(1) m by (metis step_runs_def snd_conv)
  moreover have "extends P s' (snd (snd (f x cx' s')))" for x
    using assms(2) by (simp add: step_runs_def)
  ultimately show "extends P s (snd (snd (step_bind m f cx s)))"
    using m by (cases r) (auto simp: step_bind_def intro: extends_trans)
qed

lemma step_runs_bind_pair [runs_intros]:
  assumes "step_runs P m" and "\<And>x y. step_runs P (f x y)"
  shows "step_runs P (step_bind m (\<lambda>(x, y). f x y))"
  using assms by (auto intro: step_runs_bind)

lemma step_runs_bind_triple [runs_intros]:
  assumes "step_runs P m" and "\<And>x y z. step_runs P (f x y z)"
  shows "step_runs P (step_bind m (\<lambda>(x, y, z). f x y z))"
  using assms by (auto intro: step_runs_bind)

lemma runs_run_steps [runs_intros]:
  fixes m :: "('s, 'a) step"
  assumes "step_runs P m"
  shows "runs P (run_steps rt m)"
  unfolding runs_def
proof
  fix s :: "'s runtime_state"
  let ?cx = "command_context_new (show_nat (rt_now_secs rt (rs_trace s))) (rs_nonce s)"
  let ?s = "s\<lparr>rs_nonce := rs_nonce s + 1\<rparr>"
  have "extends P ?s (snd (snd (m ?cx ?s)))" using assms by (simp add: step_runs_def)
  then show "extends P s (snd (run_steps rt m s))"
    by (auto simp: run_steps_def extends_def split: prod.splits)
qed

section \<open>The pipeline\<close>

abbreviation same_call :: "endpoint_invocation \<Rightarrow> endpoint_invocation \<Rightarrow> bool" where
  "same_call call call' \<equiv> \<exists>v. call' = call\<lparr>inv_input := v\<rparr>"

locale effect_scope =
  fixes rt :: "'s sorx_runtime" and ep :: endpoint_definition and call :: endpoint_invocation
    and P :: "rt_effect \<Rightarrow> bool"
  assumes audit_ok: "P (Audit (audit_event rt ep call n d t))"
    and observe_ok: "sc_tenant_id (oe_context e) = inv_tenant_id call \<Longrightarrow> P (Observe e)"
    and pre_ok: "sc_tenant_id ctx = inv_tenant_id call \<Longrightarrow> P (PreCall ctx q)"
    and post_ok: "sc_tenant_id ctx = inv_tenant_id call \<Longrightarrow> P (PostCall ctx q resp)"
    and approval_ok: "arq_tenant_id a = inv_tenant_id call \<Longrightarrow> P (AskApproval a)"
    and entity_ok: "ee_tenant_id ee = inv_tenant_id call \<Longrightarrow> P (Publish (EntityEvent ee))"
    and command_ok: "ce_tenant_id ce = inv_tenant_id call \<Longrightarrow> P (Publish (CommandEvent ce))"
    and store_ok:
      "op_namespace op = \<lparr>ns_tenant_id = inv_tenant_id call, ns_sor_name = rt_sor_name rt\<rparr> \<Longrightarrow>
       (writes op \<Longrightarrow> is_mutating (ep_operation ep)) \<Longrightarrow> P (StoreOp p op)"
begin

abbreviation "ns \<equiv> \<lparr>ns_tenant_id = inv_tenant_id call, ns_sor_name = rt_sor_name rt\<rparr>"

lemma audit_event_input: "audit_event rt ep (call\<lparr>inv_input := v\<rparr>) = audit_event rt ep call"
  by (simp add: audit_event_def fun_eq_iff)

lemma runs_audit:
  assumes "same_call call c"
  shows "runs P (audit rt ep c n d t)"
  using assms by (auto simp: audit_def Let_def audit_event_input audit_ok intro!: runs_intros)

lemma runs_audit_timed: "same_call call c \<Longrightarrow> runs P (audit_timed rt ep c n d)"
  unfolding audit_timed_def by (intro runs_intros runs_audit)

lemma runs_observe: "sc_tenant_id (oe_context e) = inv_tenant_id call \<Longrightarrow> runs P (observe rt e)"
  unfolding observe_def by (intro runs_intros observe_ok)

lemma runs_observe_timed: "sc_tenant_id ctx = inv_tenant_id call \<Longrightarrow> runs P (observe_timed rt n ctx st d)"
  unfolding observe_timed_def by (intro runs_intros runs_observe) simp

lemma runs_publish:
  assumes "same_call call c" and "P (Publish i)"
  shows "runs P (publish_business_event rt ep c i)"
  unfolding runs_def
proof
  fix s :: "'s runtime_state"
  have e: "extends P s (snd (act_effect (Publish i) (\<lambda>t. rt_event_sink rt t i) s))"
    using assms(2) by (intro runs_effect [unfolded runs_def, rule_format])
  have a: "extends P s' (snd (audit rt ep c n d t s'))" for n d t s'
    using runs_audit [OF assms(1)] by (simp add: runs_def)
  show "extends P s (snd (publish_business_event rt ep c i s))"
    unfolding publish_business_event_def
    using e a by (auto split: prod.splits sum.splits intro: extends_trans)
qed

lemma runs_publish_entity: "same_call call c \<Longrightarrow> runs P (publish_entity_event rt ep c b operation i r)"
  unfolding publish_entity_event_def by (intro runs_publish entity_ok) auto

subsection \<open>Commands\<close>

lemma store_write_ok: "op_namespace op = ns \<Longrightarrow> is_mutating (ep_operation ep) \<Longrightarrow> P (StoreOp p op)"
  by (rule store_ok)

lemma store_read_ok: "op_namespace op = ns \<Longrightarrow> \<not> writes op \<Longrightarrow> P (StoreOp p op)"
  by (rule store_ok) auto

definition env_ok :: "'s command_env \<Rightarrow> bool" where
  "env_ok cv \<longleftrightarrow> cv_runtime cv = rt \<and> cv_endpoint cv = ep \<and> same_call call (cv_invocation cv) \<and>
     cv_namespace cv = ns \<and> is_mutating (ep_operation ep)"

lemma step_runs_target: "step_runs P (step_target cv e c)"
  unfolding step_target_def by (intro runs_intros)

lemma step_runs_query: "env_ok cv \<Longrightarrow> step_runs P (step_query cv e c f ob)"
  unfolding step_query_def Let_def
  by (intro runs_intros store_read_ok) (auto simp: env_ok_def)

lemma runs_write_update: "env_ok cv \<Longrightarrow> runs P (step_write_update cv e c i patch)"
  unfolding step_write_update_def Let_def
  by (intro runs_intros store_write_ok) (auto simp: env_ok_def)

lemma runs_write_create: "env_ok cv \<Longrightarrow> runs P (step_write_create cv e c v)"
  unfolding step_write_create_def Let_def
  by (intro runs_intros store_write_ok) (auto simp: env_ok_def)

lemma step_runs_delete_each: "env_ok cv \<Longrightarrow> step_runs P (delete_each cv e c rs)"
proof (induction rs)
  case (Cons r rs)
  then show ?case
    unfolding delete_each.simps Let_def
    by (intro runs_intros store_write_ok) (auto simp: env_ok_def)
qed (simp add: step_runs_return)

lemma step_runs_retry:
  "(\<And>v. runs P (write v)) \<Longrightarrow> step_runs P (retry_unique n last_err msg cv template write)"
proof (induction n arbitrary: last_err)
  case (Suc n)
  show ?case
    unfolding retry_unique.simps
    by (intro runs_intros Suc.prems)
      (auto split: sum.splits intro!: runs_intros Suc.IH Suc.prems)
qed (simp add: step_runs_fail)

lemma step_runs_update_each: "env_ok cv \<Longrightarrow> step_runs P (update_each cv e c u rs)"
proof (induction rs)
  case (Cons r rs)
  then show ?case
    unfolding update_each.simps
    by (intro runs_intros step_runs_retry runs_write_update) auto
qed (simp add: step_runs_return)

lemma step_runs_increment_each: "env_ok cv \<Longrightarrow> step_runs P (increment_each cv e c u rs)"
proof (induction rs)
  case (Cons r rs)
  then show ?case
    unfolding increment_each.simps
    by (intro runs_intros runs_write_update) auto
qed (simp add: step_runs_return)

lemma step_runs_subject: "step_runs P (event_subject cv)"
  unfolding event_subject_def by (auto split: option.splits intro!: runs_intros)

lemma step_runs_emit:
  assumes "env_ok cv"
  shows "step_runs P (exec_emit_event cv ev payload stream)"
proof -
  have rt: "cv_runtime cv = rt" "cv_endpoint cv = ep" and call: "same_call call (cv_invocation cv)"
    using assms by (auto simp: env_ok_def)
  have "runs P (publish_business_event rt ep (cv_invocation cv) (CommandEvent (command_event_of cv ev i d)))"
    for i d
    using call by (intro runs_publish command_ok) (auto simp: command_event_of_def)
  moreover have "P (StoreOp p (DoAppendEvent (append_op_of cv ev stream i d now)))" for p i d now
    using assms by (intro store_write_ok) (auto simp: append_op_of_def env_ok_def Let_def)
  ultimately show ?thesis
    unfolding exec_emit_event_def Let_def rt
    by (intro runs_intros step_runs_subject) auto
qed

lemma step_runs_guard: "step_runs P body \<Longrightarrow> step_runs P (step_guard cv st body)"
  unfolding step_guard_def by (auto intro!: runs_intros)

lemma step_runs_items: "step_runs P (foreach_items cv items)"
  unfolding foreach_items_def by (intro runs_intros)

lemma step_runs_single:
  assumes "env_ok cv"
  shows "step_runs P (exec_delete_where cv e c flt)"
    and "step_runs P (exec_create cv e c input)"
    and "step_runs P (exec_update_where cv e c flt u)"
    and "step_runs P (exec_increment_where cv e c flt u)"
    and "step_runs P (exec_query cv e c flt ob)"
    and "step_runs P (exec_find_one cv e c flt required)"
  unfolding exec_delete_where_def exec_create_def exec_update_where_def exec_increment_where_def
    exec_query_def exec_find_one_def
  using assms
  by (auto split: list.splits intro!: runs_intros step_runs_target step_runs_query step_runs_delete_each
      step_runs_retry runs_write_create step_runs_update_each step_runs_increment_each)

lemma step_runs_exec:
  "env_ok cv \<Longrightarrow> step_runs P (exec_step cv st)"
  "env_ok cv \<Longrightarrow> step_runs P (exec_nested cv sts)"
  "env_ok cv \<Longrightarrow> step_runs P (exec_items cv index items sts)"
proof (induction cv st and cv sts and cv index items sts rule: exec_step_exec_nested_exec_items.induct)
  case (8 cv as_name cond items steps)
  then show ?case
    unfolding exec_step.simps by (intro step_runs_guard runs_intros step_runs_items) auto
next
  case (10 cv st sts)
  then show ?case unfolding exec_nested.simps by (intro runs_intros) auto
next
  case (12 cv index item items steps)
  then show ?case unfolding exec_items.simps by (intro runs_intros) auto
qed (auto intro!: step_runs_guard step_runs_single step_runs_emit runs_intros)

lemma runs_execute_command:
  assumes "same_call call c" and "is_mutating (ep_operation ep)"
  shows "runs P (execute_command rt ep spec c ns b)"
proof -
  have "env_ok \<lparr>cv_runtime = rt, cv_endpoint = ep, cv_spec = spec, cv_invocation = c,
      cv_namespace = ns, cv_binding = b, cv_provider = provider\<rparr>" for provider
    using assms by (auto simp: env_ok_def)
  moreover have "step_runs P (command_result cv outs counts)" for cv outs counts
    unfolding command_result_def by (auto split: option.splits intro!: runs_intros)
  ultimately show ?thesis
    unfolding execute_command_def Let_def by (auto intro!: runs_intros step_runs_exec)
qed

subsection \<open>Record operations\<close>

lemma runs_create:
  assumes "same_call call c" and "is_mutating (ep_operation ep)"
  shows "runs P (run_create rt ep c ns b provider)"
  unfolding run_create_def Let_def
  by (intro runs_intros store_write_ok runs_publish_entity) (use assms in auto)

lemma runs_get: "runs P (run_get ep c ns b provider)"
  unfolding run_get_def Let_def by (intro runs_intros store_read_ok) auto

lemma runs_update:
  assumes "same_call call c" and "is_mutating (ep_operation ep)"
  shows "runs P (run_update rt ep c ns b provider)"
  unfolding run_update_def Let_def
  by (intro runs_intros store_write_ok runs_publish_entity) (use assms in auto)

lemma runs_delete:
  assumes "same_call call c" and "is_mutating (ep_operation ep)"
  shows "runs P (run_delete rt ep c ns b provider)"
  unfolding run_delete_def Let_def
  by (intro runs_intros store_write_ok) (use assms in \<open>auto intro!: runs_intros runs_publish_entity\<close>)

lemma runs_query: "runs P (run_query rt ep c ns b provider)"
proof -
  have "runs P (query_records rt ep c ns b provider)"
    unfolding query_records_def Let_def
    by (auto split: option.splits intro!: runs_intros store_read_ok)
  then show ?thesis unfolding run_query_def by (intro runs_intros)
qed

lemma runs_operation:
  assumes "same_call call c"
  shows "runs P (run_operation rt ep c ns b provider)"
  unfolding run_operation_def
  using assms runs_get runs_query
  by (auto split: operation_kind.splits intro!: runs_create runs_update runs_delete runs_execute_command)

lemma runs_started_stage:
  assumes "same_call call c"
  shows "runs P (started_stage rt ep c b provider)"
proof -
  have "inv_tenant_id c = inv_tenant_id call" using assms by auto
  then show ?thesis
    unfolding started_stage_def
    using runs_operation [OF assms] runs_audit [OF assms] by (simp add: runs_intros)
qed

lemma runs_provider_stage: "same_call call c \<Longrightarrow> runs P (provider_stage rt ep c)"
  unfolding provider_stage_def by (intro runs_intros runs_audit runs_started_stage)

subsection \<open>Policy, control and response\<close>

lemma runs_approval_stage:
  assumes "same_call call c"
  shows "runs P (approval_stage rt ep c d)"
proof -
  have "inv_tenant_id c = inv_tenant_id call" using assms by auto
  then show ?thesis
    unfolding approval_stage_def Let_def
    using runs_audit [OF assms] runs_audit_timed [OF assms]
    by (auto split: approval_status.splits intro!: runs_intros approval_ok)
qed

lemma runs_policy_stage:
  assumes "same_call call c"
  shows "runs P (policy_stage rt ep c)"
  unfolding policy_stage_def Let_def
  using runs_audit [OF assms] runs_audit_timed [OF assms] runs_approval_stage [OF assms]
  by (auto split: policy_action.splits intro!: runs_intros)

lemma runs_respond_stage:
  assumes "same_call call c" and "sc_tenant_id ctx = inv_tenant_id call"
  shows "runs P (respond_stage rt ep c ctx result)"
  unfolding respond_stage_def Let_def
  using runs_audit_timed [OF assms(1)] runs_observe_timed [OF assms(2)] post_ok [OF assms(2)]
  by (auto intro!: runs_intros)

lemma runs_provider_failed:
  assumes "same_call call c" and "sc_tenant_id ctx = inv_tenant_id call"
  shows "runs P (provider_failed rt ep c ctx d err)"
  unfolding provider_failed_def
  using runs_audit [OF assms(1)] runs_observe_timed [OF assms(2)] by (auto intro!: runs_intros)

lemma runs_execute_stage:
  assumes "same_call call c" and "sc_tenant_id ctx = inv_tenant_id call"
  shows "runs P (execute_stage rt ep c ctx d)"
  unfolding execute_stage_def
  using runs_provider_stage [OF assms(1)] runs_provider_failed [OF assms] runs_respond_stage [OF assms]
  by (intro runs_intros)

lemma runs_admitted_stage:
  assumes "same_call call c" and "sc_tenant_id ctx = inv_tenant_id call"
  shows "runs P (admitted_stage rt ep c ctx d)"
  unfolding admitted_stage_def
  using runs_policy_stage [OF assms(1)] runs_execute_stage [OF assms]
  by (auto split: option.splits intro!: runs_intros)

lemma runs_decided_stage:
  assumes "same_call call c" and "sc_tenant_id ctx = inv_tenant_id call"
  shows "runs P (decided_stage rt ep c ctx d)"
proof -
  have c': "same_call call (c\<lparr>inv_input := v\<rparr>)" for v using assms(1) by auto
  show ?thesis
    unfolding decided_stage_def
    using runs_audit_timed [OF assms(1)] runs_observe_timed [OF assms(2)] runs_admitted_stage [OF c' assms(2)]
    by (auto intro!: runs_intros)
qed

lemma runs_control_stage:
  assumes "same_call call c" and "sc_tenant_id ctx = inv_tenant_id call"
  shows "runs P (control_stage rt ep c ctx)"
  unfolding control_stage_def
  using assms(2) by (intro runs_intros runs_observe pre_ok runs_decided_stage [OF assms]) simp_all

lemma runs_reject: "same_call call c \<Longrightarrow> runs P (reject rt ep c err)"
  unfolding reject_def by (intro runs_intros runs_audit)

lemma runs_checked_stage:
  assumes "sc_tenant_id ctx = inv_tenant_id call"
  shows "runs P (checked_stage rt ep call ctx)"
proof -
  have c: "same_call call call" by (rule exI [of _ "inv_input call"]) simp
  have c': "same_call call (call\<lparr>inv_input := v\<rparr>)" for v by auto
  show ?thesis
    unfolding checked_stage_def Let_def
    using runs_reject [OF c] runs_reject [OF c'] runs_audit_timed [OF c'] runs_control_stage [OF c' assms]
    by (auto split: sum.splits option.splits intro!: runs_intros)
qed

lemma runs_invoke:
  assumes "router_endpoint (rt_router rt) (inv_endpoint_id call) = Ok ep"
  shows "extends P s (snd (invoke rt call s))"
proof -
  have c: "same_call call call" by (rule exI [of _ "inv_input call"]) simp
  have "runs P (act_bind (act_clock (rt_now_nanos rt)) (\<lambda>now.
      act_then (audit rt ep call ''sorx.endpoint.invoked'' None None)
      (checked_stage rt ep call (stack_call_context_of rt ep call now))))"
    by (intro runs_intros runs_audit [OF c] runs_checked_stage) (simp add: stack_call_context_of_def Let_def)
  then show ?thesis by (simp add: invoke_def assms act_lift_def act_bind_def runs_def)
qed

end

end
