(* ===== verification/Runtime_Props.thy ===== *)
theory Runtime_Props
  imports Runtime_Laws Memory_Store
begin

text \<open>
  Properties of \<^verbatim>\<open>SorxRuntime::invoke\<close>: every effect of a call stays in the tenant of the call,
  and no store is reached unless every gate of the pipeline was passed.
\<close>

section \<open>The scope of a call\<close>

fun scoped :: "'s sorx_runtime \<Rightarrow> endpoint_definition \<Rightarrow> endpoint_invocation \<Rightarrow> rt_effect \<Rightarrow> bool" where
  "scoped rt ep call (Audit a) \<longleftrightarrow>
     sa_tenant_id a = inv_tenant_id call \<and> sa_endpoint_id a = ep_endpoint_id ep \<and>
     sa_caller_id a = caller_subject (inv_caller call)"
| "scoped rt ep call (Observe e) \<longleftrightarrow> sc_tenant_id (oe_context e) = inv_tenant_id call"
| "scoped rt ep call (PreCall ctx q) \<longleftrightarrow> sc_tenant_id ctx = inv_tenant_id call"
| "scoped rt ep call (PostCall ctx q p) \<longleftrightarrow> sc_tenant_id ctx = inv_tenant_id call"
| "scoped rt ep call (AskApproval q) \<longleftrightarrow> arq_tenant_id q = inv_tenant_id call"
| "scoped rt ep call (Publish (EntityEvent e)) \<longleftrightarrow> ee_tenant_id e = inv_tenant_id call"
| "scoped rt ep call (Publish (CommandEvent e)) \<longleftrightarrow> ce_tenant_id e = inv_tenant_id call"
| "scoped rt ep call (StoreOp p op) \<longleftrightarrow>
     op_namespace op = \<lparr>ns_tenant_id = inv_tenant_id call, ns_sor_name = rt_sor_name rt\<rparr> \<and>
     (writes op \<longrightarrow> is_mutating (ep_operation ep))"

interpretation scope: effect_scope rt ep call "scoped rt ep call" for rt ep call
  by unfold_locales (auto simp: audit_event_def)

section \<open>Gates\<close>

definition quiet :: "('s, 'a) act \<Rightarrow> bool" where
  "quiet m \<longleftrightarrow> runs (\<lambda>e. \<not> is_store_op e) m"

text \<open>A store operation is among the effects an action appends.\<close>

definition touches_store :: "('s, 'a) act \<Rightarrow> 's runtime_state \<Rightarrow> bool" where
  "touches_store m s \<longleftrightarrow> list_ex is_store_op (drop (length (rs_trace s)) (rs_trace (snd (m s))))"

lemma quiet_no_touch: "quiet m \<Longrightarrow> \<not> touches_store m s"
  unfolding quiet_def runs_def touches_store_def extends_def
  by (metis append_eq_conv_conj list_all_iff list_ex_iff)

lemma touches_bind:
  assumes "quiet m" and "\<And>x. runs P (f x)" and "touches_store (act_bind m f) s"
  obtains x s' es where "m s = (Ok x, s')" and "rs_trace s' = rs_trace s @ es" and "touches_store (f x) s'"
proof -
  obtain r s' where m: "m s = (r, s')" by (cases "m s")
  have "extends (\<lambda>e. \<not> is_store_op e) s s'"
    using assms(1) m by (metis quiet_def runs_def snd_conv)
  then obtain es where es: "rs_trace s' = rs_trace s @ es" "list_all (\<lambda>e. \<not> is_store_op e) es"
    by (auto simp: extends_def)
  show thesis
  proof (cases r)
    case (Inl e)
    then show thesis
      using assms(3) m es by (auto simp: touches_store_def act_bind_def list_ex_iff list_all_iff)
  next
    case (Inr x)
    obtain es' where es': "rs_trace (snd (f x s')) = rs_trace s' @ es'"
      using assms(2) [of x] by (auto simp: runs_def extends_def)
    have "touches_store (f x) s'"
      using assms(3) m Inr es es' by (auto simp: touches_store_def act_bind_def list_ex_iff list_all_iff)
    then show thesis using that m Inr es(1) by simp
  qed
qed

lemma touches_then:
  assumes "quiet m" and "runs P k" and "touches_store (act_then m k) s"
  obtains x s' es where "m s = (Ok x, s')" and "rs_trace s' = rs_trace s @ es" and "touches_store k s'"
  using touches_bind [of m P "\<lambda>_. k" s] assms unfolding act_then_def by blast

lemma quiet_effect [intro!]: "\<not> is_store_op e \<Longrightarrow> quiet (act_effect e f)"
  unfolding quiet_def by (rule runs_effect)

lemma quiet_audit [intro!]: "quiet (audit rt ep c n d t)"
  unfolding audit_def Let_def by auto

lemma quiet_bind [intro!]: "quiet m \<Longrightarrow> (\<And>x. quiet (f x)) \<Longrightarrow> quiet (act_bind m f)"
  unfolding quiet_def by (rule runs_bind)

lemma quiet_then [intro!]: "quiet m \<Longrightarrow> quiet k \<Longrightarrow> quiet (act_then m k)"
  unfolding quiet_def by (rule runs_then)

lemma quiet_basic [intro!]:
  "quiet (act_return x)" "quiet (act_fail e)" "quiet (act_lift r)" "quiet (act_clock g)"
  unfolding quiet_def by (intro runs_intros)+

lemma quiet_audit_timed [intro!]: "quiet (audit_timed rt ep c n d)"
  unfolding audit_timed_def by auto

lemma quiet_observe [intro!]: "quiet (observe rt e)" "quiet (observe_timed rt n ctx st d)"
  unfolding observe_def observe_timed_def by auto

lemma quiet_reject [intro!]: "quiet (reject rt ep c err)"
  unfolding reject_def by auto

lemma quiet_approval_stage [intro!]: "quiet (approval_stage rt ep c d)"
  unfolding approval_stage_def Let_def by (auto split: approval_status.splits)

lemma quiet_policy_stage [intro!]: "quiet (policy_stage rt ep c)"
  unfolding policy_stage_def Let_def by (auto split: policy_action.splits)

definition approved_call ::
  "'s sorx_runtime \<Rightarrow> endpoint_definition \<Rightarrow> endpoint_invocation \<Rightarrow> rt_effect list \<Rightarrow> bool" where
  "approved_call rt ep call trace \<longleftrightarrow>
     pd_action (policy_decide (rt_policy rt) ep) = Execute \<or>
     pd_action (policy_decide (rt_policy rt) ep) = RequireApproval \<and>
     (\<exists>t q es a. trace = t @ AskApproval q # es \<and> rt_approval_broker rt t q = Ok a \<and>
        ad_status a = Approved \<and> arq_endpoint_id q = ep_endpoint_id ep \<and>
        arq_tenant_id q = inv_tenant_id call \<and> arq_caller q = inv_caller call)"

definition started_event :: "'s sorx_runtime \<Rightarrow> endpoint_definition \<Rightarrow> endpoint_invocation \<Rightarrow> sorx_audit_event" where
  "started_event rt ep call = audit_event rt ep call ''sorx.provider.operation.started'' None None"

text \<open>The gates of the pipeline, read off the final trace of the call.\<close>

definition gates_passed ::
  "'s sorx_runtime \<Rightarrow> endpoint_definition \<Rightarrow> endpoint_invocation \<Rightarrow> rt_effect list \<Rightarrow> bool" where
  "gates_passed rt ep call trace \<longleftrightarrow>
     (let v = view_to_canonical (ep_view ep) (inv_input call);
          q = \<lparr>scq_operation_id = inv_operation_id call, scq_input = v\<rparr>
      in ep_operation_id ep = inv_operation_id call \<and>
         \<not> (read_only (ep_view ep) \<and> is_mutating (ep_operation ep)) \<and>
         validate_input ep v = Ok () \<and>
         authorization_denial rt ep (call\<lparr>inv_input := v\<rparr>) = None \<and>
         (\<exists>t ctx es d. trace = t @ PreCall ctx q # es \<and> rt_pre_call rt t ctx q = Ok d \<and>
            cd_action d \<noteq> ControlDeny) \<and>
         approved_call rt ep call trace \<and>
         (\<exists>t es. trace = t @ Audit (started_event rt ep call) # es \<and>
            rt_audit_sink rt t (started_event rt ep call) = Ok ()))"

lemma effect_Ok:
  "act_effect e f s = (Ok x, s') \<longleftrightarrow> f (rs_trace s) = Ok x \<and> s' = s\<lparr>rs_trace := rs_trace s @ [e]\<rparr>"
  by (auto simp: act_effect_def)

lemma bind_Ok: "act_bind m f s = (Ok y, s'') \<longleftrightarrow> (\<exists>x s'. m s = (Ok x, s') \<and> f x s' = (Ok y, s''))"
  by (auto simp: act_bind_def split: prod.splits sum.splits)

lemma then_Ok: "act_then m k s = (Ok y, s'') \<longleftrightarrow> (\<exists>x s'. m s = (Ok x, s') \<and> k s' = (Ok y, s''))"
  by (simp add: act_then_def bind_Ok)

lemma return_Ok: "act_return x s = (Ok y, s') \<longleftrightarrow> y = x \<and> s' = s"
  by (auto simp: act_return_def)

lemma audit_Ok:
  "audit rt ep c n d t s = (Ok x, s') \<longleftrightarrow>
     rt_audit_sink rt (rs_trace s) (audit_event rt ep c n d t) = Ok () \<and>
     s' = s\<lparr>rs_trace := rs_trace s @ [Audit (audit_event rt ep c n d t)]\<rparr>"
  by (simp add: audit_def Let_def effect_Ok)

lemmas act_Ok = effect_Ok bind_Ok then_Ok return_Ok audit_Ok

lemma approval_stage_pass:
  assumes "approval_stage rt ep c d s = (Ok None, s')"
  shows "\<exists>q es a. rs_trace s' = rs_trace s @ AskApproval q # es \<and>
    rt_approval_broker rt (rs_trace s) q = Ok a \<and> ad_status a = Approved \<and>
    arq_endpoint_id q = ep_endpoint_id ep \<and> arq_tenant_id q = inv_tenant_id c \<and>
    arq_caller q = inv_caller c"
proof -
  define q where "q = \<lparr>arq_request_id = approval_request_id ep c, arq_tenant_id = inv_tenant_id c,
    arq_endpoint_id = ep_endpoint_id ep, arq_operation_id = ep_operation_id ep,
    arq_risk = ep_risk ep, arq_reason = pd_reason d, arq_caller = inv_caller c\<rparr>"
  define k where "k a = (case ad_status a of
      Approved \<Rightarrow> act_return None
    | ApprovalDenied \<Rightarrow>
        act_then (audit_timed rt ep c ''sorx.endpoint.completed'' (Some ''denied''))
        (act_return (Some (denied_result ep c [(''approval'', approval_to_json a)] ''approval.denied'')))
    | ApprovalPending \<Rightarrow>
        act_then (audit_timed rt ep c ''sorx.endpoint.completed'' (Some ''approval_required''))
        (act_return (Some (approval_required_result ep c a))))" for a
  obtain a e where a: "rt_approval_broker rt (rs_trace s) q = Ok a"
    and k: "k a (s\<lparr>rs_trace := rs_trace s @ [AskApproval q, Audit e]\<rparr>) = (Ok None, s')"
    using assms unfolding approval_stage_def Let_def q_def [symmetric] k_def [symmetric]
    by (auto simp: act_Ok)
  have "ad_status a = Approved \<and> rs_trace s' = rs_trace s @ [AskApproval q, Audit e]"
    using k by (cases "ad_status a") (auto simp: k_def act_Ok)
  then have "ad_status a = Approved" "rs_trace s' = rs_trace s @ AskApproval q # [Audit e]" by auto
  moreover have "arq_endpoint_id q = ep_endpoint_id ep \<and> arq_tenant_id q = inv_tenant_id c \<and>
      arq_caller q = inv_caller c"
    by (simp add: q_def)
  ultimately show ?thesis using a by blast
qed

lemma policy_stage_pass:
  assumes "policy_stage rt ep c s = (Ok None, s')"
  shows "approved_call rt ep c (rs_trace s')"
proof (cases "pd_action (policy_decide (rt_policy rt) ep)")
  case RequireApproval
  then obtain s1 where "approval_stage rt ep c (policy_decide (rt_policy rt) ep) s1 = (Ok None, s')"
    using assms by (auto simp: policy_stage_def Let_def then_Ok)
  then show ?thesis
    using RequireApproval approval_stage_pass unfolding approved_call_def by blast
qed (use assms in \<open>auto simp: policy_stage_def Let_def act_Ok approved_call_def\<close>)

lemma approved_call_extend: "approved_call rt ep c t \<Longrightarrow> approved_call rt ep c (t @ es)"
  unfolding approved_call_def by (metis append.assoc append_Cons)

lemma approved_call_input [simp]: "approved_call rt ep (c\<lparr>inv_input := v\<rparr>) t = approved_call rt ep c t"
  by (simp add: approved_call_def)

lemma runs_trace: "runs P m \<Longrightarrow> \<exists>es. rs_trace (snd (m s)) = rs_trace s @ es"
  by (auto simp: runs_def extends_def)

lemma self_call: "same_call c c"
  by (rule exI [of _ "inv_input c"]) simp

lemma quiet_respond_stage [intro!]: "quiet (respond_stage rt ep c ctx result)"
  unfolding respond_stage_def Let_def by auto

lemma quiet_provider_failed [intro!]: "quiet (provider_failed rt ep c ctx d err)"
  unfolding provider_failed_def by auto

lemma touches_match:
  assumes "runs P m" and "\<And>e. quiet (f e)" and "\<And>x. quiet (g x)"
    and "touches_store (act_match m f g) s"
  shows "touches_store m s" and "\<exists>es. rs_trace (snd (act_match m f g s)) = rs_trace (snd (m s)) @ es"
proof -
  obtain r s' where m: "m s = (r, s')" by (cases "m s")
  obtain es where es: "rs_trace s' = rs_trace s @ es" using runs_trace [OF assms(1), of s] m by auto
  have "\<exists>k. quiet k \<and> act_match m f g s = k s'"
    using m assms(2,3) by (cases r) (auto simp: act_match_def)
  then obtain k where k: "quiet k" "act_match m f g s = k s'" by blast
  obtain es' where es': "rs_trace (snd (k s')) = rs_trace s' @ es'"
    using runs_trace k(1) unfolding quiet_def by blast
  then show "\<exists>es. rs_trace (snd (act_match m f g s)) = rs_trace (snd (m s)) @ es" using k(2) m by auto
  have "\<not> touches_store k s'" using k(1) by (rule quiet_no_touch)
  then show "touches_store m s"
    using assms(4) k(2) m es es' by (auto simp: touches_store_def)
qed

lemma provider_stage_started:
  assumes "touches_store (provider_stage rt ep c) s"
  shows "rt_audit_sink rt (rs_trace s) (started_event rt ep c) = Ok () \<and>
    (\<exists>es. rs_trace (snd (provider_stage rt ep c s)) = rs_trace s @ Audit (started_event rt ep c) # es)"
proof -
  let ?start = "audit rt ep c ''sorx.provider.operation.started'' None None"
  obtain b provider where b: "provider_stage rt ep c s = act_then ?start (started_stage rt ep c b provider) s"
    using assms by (auto simp: provider_stage_def touches_store_def act_bind_def act_lift_def split: sum.splits)
  have body: "runs (scoped rt ep c) (started_stage rt ep c b provider)"
    by (rule scope.runs_started_stage [OF self_call])
  have "touches_store (act_then ?start (started_stage rt ep c b provider)) s"
    using assms b by (simp add: touches_store_def)
  then obtain s' where s': "?start s = (Ok (), s')"
    by (rule touches_then [OF quiet_audit body]) auto
  then have "snd (provider_stage rt ep c s) = snd (started_stage rt ep c b provider s')"
    by (simp add: b act_then_def act_bind_def)
  then show ?thesis
    using s' runs_trace [OF body, of s'] by (auto simp: audit_Ok started_event_def)
qed

lemma admitted_stage_gates:
  assumes "touches_store (admitted_stage rt ep c ctx d) s" and "sc_tenant_id ctx = inv_tenant_id c"
  shows "\<exists>s' es es'. rs_trace s' = rs_trace s @ es \<and> approved_call rt ep c (rs_trace s') \<and>
    touches_store (provider_stage rt ep c) s' \<and>
    rs_trace (snd (admitted_stage rt ep c ctx d s)) = rs_trace (snd (provider_stage rt ep c s')) @ es'"
proof -
  let ?k = "\<lambda>stop. case stop of Some r \<Rightarrow> act_return r | None \<Rightarrow> execute_stage rt ep c ctx d"
  have k: "runs (scoped rt ep c) (?k stop)" for stop
    using scope.runs_execute_stage [OF self_call assms(2)]
    by (auto split: option.splits intro!: runs_intros)
  obtain stop s' es where s': "policy_stage rt ep c s = (Ok stop, s')" "rs_trace s' = rs_trace s @ es"
    and t: "touches_store (?k stop) s'"
    using assms(1) unfolding admitted_stage_def by (rule touches_bind [OF quiet_policy_stage k])
  have stop: "stop = None"
  proof (rule ccontr)
    assume "stop \<noteq> None"
    then have "quiet (?k stop)" by auto
    then show False using t quiet_no_touch by blast
  qed
  have ex: "touches_store (execute_stage rt ep c ctx d) s'" using t stop by simp
  note exec = touches_match [OF scope.runs_provider_stage [OF self_call] quiet_provider_failed
      quiet_respond_stage, OF ex [unfolded execute_stage_def]]
  have "admitted_stage rt ep c ctx d s = execute_stage rt ep c ctx d s'"
    using s'(1) stop by (simp add: admitted_stage_def act_bind_def)
  then show ?thesis
    using s' stop policy_stage_pass exec by (metis execute_stage_def)
qed

lemma control_stage_gates:
  fixes rt :: "'s sorx_runtime"
  assumes "touches_store (control_stage rt ep c ctx) s" and "sc_tenant_id ctx = inv_tenant_id c"
  shows "\<exists>d s2 es. cd_action d \<noteq> ControlDeny \<and> rt_pre_call rt (rs_trace s @ es) ctx (stack_request c) = Ok d \<and>
    rs_trace s2 = rs_trace s @ es @ [PreCall ctx (stack_request c)] \<and>
    touches_store (admitted_stage rt ep (c\<lparr>inv_input := patched_input d (inv_input c)\<rparr>) ctx d) s2 \<and>
    rs_trace (snd (control_stage rt ep c ctx s)) =
      rs_trace (snd (admitted_stage rt ep (c\<lparr>inv_input := patched_input d (inv_input c)\<rparr>) ctx d s2))"
proof -
  let ?start = "observe rt \<lparr>oe_event_type = ''stack.call.started'', oe_context = ctx,
    oe_status = None, oe_duration_ms = None, oe_control_decision = None\<rparr>"
  let ?pre = "act_effect (PreCall ctx (stack_request c)) (\<lambda>t. rt_pre_call rt t ctx (stack_request c))
    :: ('s, control_decision) act"
  have quiet_pre: "quiet ?pre" by auto
  have decided: "runs (scoped rt ep c) (decided_stage rt ep c ctx d)" for d
    by (rule scope.runs_decided_stage [OF self_call assms(2)])
  then have rest: "runs (scoped rt ep c) (act_bind ?pre (decided_stage rt ep c ctx))"
    using assms(2) by (auto intro!: runs_intros)
  obtain x s1 es where s1: "?start s = (Ok x, s1)" "rs_trace s1 = rs_trace s @ es"
    and t1: "touches_store (act_bind ?pre (decided_stage rt ep c ctx)) s1"
    using assms(1) unfolding control_stage_def by (rule touches_then [OF quiet_observe(1) rest])
  obtain d s2 es2 where s2: "?pre s1 = (Ok d, s2)" and t2: "touches_store (decided_stage rt ep c ctx d) s2"
    using t1 by (rule touches_bind [OF quiet_pre decided])
  have not_denied: "cd_action d \<noteq> ControlDeny"
  proof
    assume "cd_action d = ControlDeny"
    then have "quiet (decided_stage rt ep c ctx d)" unfolding decided_stage_def by auto
    then show False using t2 quiet_no_touch by blast
  qed
  have "snd (control_stage rt ep c ctx s) = snd (decided_stage rt ep c ctx d s2)"
    using s1(1) s2 by (simp add: control_stage_def act_then_def act_bind_def)
  then show ?thesis
    using s1(2) s2 t2 not_denied
    by (intro exI [of _ d] exI [of _ s2] exI [of _ es]) (auto simp: effect_Ok decided_stage_def)
qed

lemma checked_stage_gates:
  assumes "touches_store (checked_stage rt ep c ctx) s"
  defines "c1 \<equiv> c\<lparr>inv_input := view_to_canonical (ep_view ep) (inv_input c)\<rparr>"
  shows "ep_operation_id ep = inv_operation_id c \<and>
    \<not> (read_only (ep_view ep) \<and> is_mutating (ep_operation ep)) \<and>
    validate_input ep (inv_input c1) = Ok () \<and> authorization_denial rt ep c1 = None \<and>
    checked_stage rt ep c ctx = control_stage rt ep c1 ctx"
proof (rule ccontr)
  assume "\<not> ?thesis"
  then have "quiet (checked_stage rt ep c ctx)"
    unfolding checked_stage_def Let_def c1_def [symmetric]
    by (auto split: sum.splits option.splits)
  then show False using assms(1) quiet_no_touch by blast
qed

text \<open>The two stages between the checks and the provider, put together.\<close>

lemma control_stage_passed:
  assumes "touches_store (control_stage rt ep c ctx) s" and "sc_tenant_id ctx = inv_tenant_id c"
  defines "trace \<equiv> rs_trace (snd (control_stage rt ep c ctx s))"
  shows "(\<exists>t es d. trace = t @ PreCall ctx (stack_request c) # es \<and>
      rt_pre_call rt t ctx (stack_request c) = Ok d \<and> cd_action d \<noteq> ControlDeny)"
    and "approved_call rt ep c trace"
    and "\<exists>t es. trace = t @ Audit (started_event rt ep c) # es \<and> rt_audit_sink rt t (started_event rt ep c) = Ok ()"
proof -
  obtain d s2 es where d: "cd_action d \<noteq> ControlDeny" "rt_pre_call rt (rs_trace s @ es) ctx (stack_request c) = Ok d"
    and s2: "rs_trace s2 = rs_trace s @ es @ [PreCall ctx (stack_request c)]"
    and t2: "touches_store (admitted_stage rt ep (c\<lparr>inv_input := patched_input d (inv_input c)\<rparr>) ctx d) s2"
    and tr: "trace = rs_trace (snd (admitted_stage rt ep (c\<lparr>inv_input := patched_input d (inv_input c)\<rparr>) ctx d s2))"
    using control_stage_gates [OF assms(1,2)] unfolding trace_def by blast
  define c' where "c' = c\<lparr>inv_input := patched_input d (inv_input c)\<rparr>"
  have "sc_tenant_id ctx = inv_tenant_id c'" using assms(2) by (simp add: c'_def)
  then obtain s3 es3 es4 where s3: "rs_trace s3 = rs_trace s2 @ es3" "approved_call rt ep c' (rs_trace s3)"
    "touches_store (provider_stage rt ep c') s3" "trace = rs_trace (snd (provider_stage rt ep c' s3)) @ es4"
    using admitted_stage_gates [of rt ep c' ctx d s2] t2 tr unfolding c'_def by blast
  have started: "started_event rt ep c' = started_event rt ep c"
    by (simp add: c'_def started_event_def audit_event_def)
  obtain es5 where s5: "rt_audit_sink rt (rs_trace s3) (started_event rt ep c) = Ok ()"
    "trace = rs_trace s3 @ (Audit (started_event rt ep c) # es5) @ es4"
    using provider_stage_started [OF s3(3)] s3(4) unfolding started by auto
  show "\<exists>t es. trace = t @ Audit (started_event rt ep c) # es \<and> rt_audit_sink rt t (started_event rt ep c) = Ok ()"
    using s5 by auto
  show "approved_call rt ep c trace"
    unfolding s5(2) by (rule approved_call_extend) (use s3(2) in \<open>simp add: c'_def\<close>)
  show "\<exists>t es d. trace = t @ PreCall ctx (stack_request c) # es \<and>
      rt_pre_call rt t ctx (stack_request c) = Ok d \<and> cd_action d \<noteq> ControlDeny"
    using d s2 s3(1) s5(2) by - (rule exI [of _ "rs_trace s @ es"], auto)
qed

section \<open>A small runtime\<close>

text \<open>One endpoint on the in-memory store; sinks accept everything and the hooks are given.\<close>

definition demo_endpoint :: "operation_kind \<Rightarrow> endpoint_definition" where
  "demo_endpoint operation =
     \<lparr>ep_endpoint_id = ''items'', ep_operation_id = ''op'', ep_operation = operation, ep_method = MPost,
      ep_path = ''/items'', ep_entity = Some ''Item'', ep_collection = ''items'',
      ep_provider_binding = ''main'', ep_risk = Low, ep_approval = None, ep_authorization = None,
      ep_input_schema = None, ep_output_schema = None,
      ep_view = \<lparr>read_only = False, input_field_map = [], output_field_map = []\<rparr>,
      ep_query_plan = \<lparr>qp_index = None, qp_traversal = None\<rparr>, ep_record_selector = False\<rparr>"

definition demo_runtime :: "operation_kind \<Rightarrow> control_decision \<Rightarrow> memory_state sorx_runtime" where
  "demo_runtime operation post =
     \<lparr>rt_pack = \<lparr>rp_name = ''pack'', rp_version = ''1'', rp_digest = None, rp_operational_indexes = [],
                 rp_record_access = []\<rparr>,
      rt_environment = ''local'',
      rt_bindings = binding_resolver_new [],
      rt_sor_name = ''sor'', rt_router = [(''items'', demo_endpoint operation)],
      rt_providers = register_canonical_store provider_registry_new ''main'' (memory_store (\<lambda>_. []) (\<lambda>_. Ok ())),
      rt_policy = policy_config_default,
      rt_approval_broker = (\<lambda>_ q. Ok \<lparr>ad_status = ApprovalPending, ad_request_id = [], ad_reason = []\<rparr>),
      rt_audit_sink = (\<lambda>_ _. Ok ()), rt_event_sink = (\<lambda>_ _. Ok ()),
      rt_pre_call = (\<lambda>_ _ _. Ok control_allow), rt_post_call = (\<lambda>_ _ _ _. Ok post),
      rt_observer = (\<lambda>_ _. Ok ()), rt_observer_fail_open = True, rt_elapsed_ms = (\<lambda>_. 0),
      rt_now_nanos = (\<lambda>_. 0), rt_now_secs = (\<lambda>_. 0), rt_utc_now = (\<lambda>_. 0), rt_seed_nanos = (\<lambda>_ _. 0),
      rt_sha256 = (\<lambda>_. replicate 32 0), rt_message_text = (\<lambda>_. []), rt_timestamp_json = (\<lambda>_. JNull)\<rparr>"

definition demo_call :: "string option \<Rightarrow> json \<Rightarrow> endpoint_invocation" where
  "demo_call key v =
     \<lparr>inv_tenant_id = ''acme'', inv_endpoint_id = ''items'', inv_operation_id = ''op'', inv_input = v,
      inv_caller = \<lparr>caller_subject = ''ann'', caller_roles = []\<rparr>, inv_idempotency_key = key,
      inv_source = Direct\<rparr>"

definition demo_state :: "memory_state runtime_state" where
  "demo_state = \<lparr>rs_stores = memory_state_default, rs_trace = [], rs_nonce = 1\<rparr>"

definition demo_created :: "memory_state runtime_state" where
  "demo_created = snd (invoke (demo_runtime OpCreate control_allow) (demo_call None (JObj [])) demo_state)"

section \<open>Properties\<close>

text \<open>Property C2. A call stays inside its tenant and its endpoint. It only appends to the trace;
  every audit event, hook call, observer event, approval request, business event and store
  operation carries the tenant of the call, every store operation is in the namespace of tenant
  and SOR, and the stores change only through a write by an endpoint that mutates. This covers
  command endpoints, whatever their steps resolve to.\<close>

theorem invocation_confined:
  assumes "router_endpoint (rt_router rt) (inv_endpoint_id call) = Ok ep"
  shows "\<exists>es. rs_trace (snd (invoke rt call s)) = rs_trace s @ es \<and> list_all (scoped rt ep call) es \<and>
    (rs_stores (snd (invoke rt call s)) = rs_stores s \<or>
     is_mutating (ep_operation ep) \<and> (\<exists>p op. StoreOp p op \<in> set es \<and> writes op))"
proof -
  have "extends (scoped rt ep call) s (snd (invoke rt call s))" by (rule scope.runs_invoke [OF assms])
  then obtain es where "rs_trace (snd (invoke rt call s)) = rs_trace s @ es" "list_all (scoped rt ep call) es"
    "rs_stores (snd (invoke rt call s)) = rs_stores s \<or> (\<exists>p op. StoreOp p op \<in> set es \<and> writes op)"
    by (auto simp: extends_def)
  then show ?thesis by (auto simp: list_all_iff)
qed

theorem invocation_confined_witness:
  "list_all (scoped (demo_runtime OpCreate control_allow) (demo_endpoint OpCreate) (demo_call None (JObj [])))
     (rs_trace demo_created)"
proof -
  have "router_endpoint (rt_router (demo_runtime OpCreate control_allow))
      (inv_endpoint_id (demo_call None (JObj []))) = Ok (demo_endpoint OpCreate)"
    by (simp add: router_endpoint_def demo_runtime_def demo_call_def ok_or_def)
  from invocation_confined [OF this, of demo_state] show ?thesis
    by (auto simp: demo_created_def demo_state_def)
qed

text \<open>Property C1. No store is reached unless every gate was passed: the endpoint exists and has
  the requested operation, it is not a mutation through a read-only view, the input after view
  mapping satisfies the schema, authorization does not deny, the control hook was asked before
  and did not deny, the risk policy allows execution or a broker approved this tenant's request
  for this endpoint, and the audit sink had accepted the event that announces the operation.\<close>

theorem store_access_gated:
  assumes "touches_store (invoke rt call) s"
  shows "\<exists>ep. router_endpoint (rt_router rt) (inv_endpoint_id call) = Ok ep \<and>
    gates_passed rt ep call (rs_trace (snd (invoke rt call s)))"
proof -
  obtain ep where ep: "router_endpoint (rt_router rt) (inv_endpoint_id call) = Ok ep"
    using assms by (cases "router_endpoint (rt_router rt) (inv_endpoint_id call)")
      (auto simp: invoke_def act_bind_def act_lift_def touches_store_def)
  define ctx where "ctx = stack_call_context_of rt ep call (rt_now_nanos rt (rs_trace s))"
  have tenant: "sc_tenant_id ctx = inv_tenant_id call" by (simp add: ctx_def stack_call_context_of_def Let_def)
  let ?m = "act_then (audit rt ep call ''sorx.endpoint.invoked'' None None) (checked_stage rt ep call ctx)"
  have inv: "invoke rt call s = ?m s"
    by (simp add: invoke_def ep ctx_def act_bind_def act_lift_def act_clock_def)
  then have "touches_store ?m s" using assms by (simp add: touches_store_def)
  then obtain x s1 es where s1: "audit rt ep call ''sorx.endpoint.invoked'' None None s = (Ok x, s1)"
    and t1: "touches_store (checked_stage rt ep call ctx) s1"
    by (rule touches_then [OF quiet_audit scope.runs_checked_stage [OF tenant]])
  note checks = checked_stage_gates [OF t1]
  define c1 where "c1 = call\<lparr>inv_input := view_to_canonical (ep_view ep) (inv_input call)\<rparr>"
  have stage: "checked_stage rt ep call ctx = control_stage rt ep c1 ctx"
    and final: "snd (invoke rt call s) = snd (control_stage rt ep c1 ctx s1)"
    using checks s1 by (auto simp: inv c1_def act_then_def act_bind_def)
  have "sc_tenant_id ctx = inv_tenant_id c1" using tenant by (simp add: c1_def)
  note passed = control_stage_passed [OF t1 [unfolded stage] this, folded final]
  have "started_event rt ep c1 = started_event rt ep call"
    by (simp add: c1_def started_event_def audit_event_def)
  then show ?thesis
    using ep checks passed unfolding gates_passed_def Let_def stack_request_def c1_def
    by simp blast
qed

theorem store_access_gated_witness:
  "\<exists>ep. gates_passed (demo_runtime OpCreate control_allow) ep (demo_call None (JObj [])) (rs_trace demo_created)"
proof -
  have "touches_store (invoke (demo_runtime OpCreate control_allow) (demo_call None (JObj []))) demo_state"
    by code_simp
  from store_access_gated [OF this] show ?thesis by (auto simp: demo_created_def)
qed

text \<open>The hook on the response cannot undo the operation: when it denies, the caller
  is told that the call was denied, while the record is stored, the event of its creation is
  published and the audit trail says executed.\<close>

lemma response_denied_after_write:
  "let call = demo_call None (JObj []);
       (r, s) = invoke (demo_runtime OpCreate (control_deny ''no'')) call demo_state
   in map_sum id er_status r = Ok StDenied \<and>
      map_option (map fst) (bt_get (collections (rs_stores s)) ''sorx/acme/sor/items'') = Some [''items-1''] \<and>
      list_ex (\<lambda>e. case e of Publish (EntityEvent i) \<Rightarrow> ee_record_id i = ''items-1'' | _ \<Rightarrow> False) (rs_trace s) \<and>
      (case last (rs_trace s) of Audit a \<Rightarrow> sa_decision a = Some ''executed'' | _ \<Rightarrow> False)"
  by code_simp

end
