(* ===== verification/Value_Props.thy ===== *)
theory Value_Props
  imports Command_Values
begin

text \<open>
  Properties of the functions on JSON values: what schema validation accepts, the round trip of
  a view, literals and generated identifiers in commands, and increments.
\<close>

section \<open>Schema validation\<close>

text \<open>The pairs of sub-schema and sub-value that lie on the same path of properties.\<close>

inductive visits :: "json \<Rightarrow> json \<Rightarrow> json \<Rightarrow> json \<Rightarrow> bool" where
  here: "visits s v s v"
| down: "(key, child_schema) \<in> set (schema_properties s) \<Longrightarrow> jget v key = Some child \<Longrightarrow>
         visits child_schema child s' v' \<Longrightarrow> visits s v s' v'"

inductive_simps visits_step: "visits s v s' v'"

definition locally_valid :: "json \<Rightarrow> json \<Rightarrow> bool" where
  "locally_valid s v \<longleftrightarrow>
     (\<forall>t. jget_str s ''type'' = Some t \<longrightarrow> type_matches t v) \<and>
     (\<forall>ks k. jget_array s ''required'' = Some ks \<longrightarrow> JStr k \<in> set ks \<longrightarrow> jget v k \<noteq> None) \<and>
     (\<forall>vs. jget_array s ''enum'' = Some vs \<longrightarrow> v \<in> set vs)"

lemma check_required_keys_Ok:
  "check_required_keys ks v p = Ok () \<longleftrightarrow> (\<forall>k. JStr k \<in> set ks \<longrightarrow> jget v k \<noteq> None)"
proof (induction ks)
  case (Cons x ks)
  then show ?case by (cases x) auto
qed simp

lemma local_checks_Ok:
  "locally_valid s v \<longleftrightarrow> check_schema_type s v p = Ok () \<and> check_schema_required s v p = Ok () \<and>
     check_schema_enum s v p = Ok ()"
  by (auto simp: locally_valid_def check_schema_type_def check_schema_required_def
      check_schema_enum_def check_required_keys_Ok split: option.splits)

lemma validate_schema_step:
  "validate_schema s v p = Ok () \<longleftrightarrow>
     locally_valid s v \<and> validate_properties (schema_properties s) v p = Ok ()"
  by (subst validate_schema.simps) (auto simp: local_checks_Ok [of s v p] split: sum.splits)

definition deeply_valid :: "json \<Rightarrow> json \<Rightarrow> bool" where
  "deeply_valid s v \<longleftrightarrow> (\<forall>s' v'. visits s v s' v' \<longrightarrow> locally_valid s' v')"

lemma deeply_valid_step:
  "deeply_valid s v \<longleftrightarrow> locally_valid s v \<and>
     (\<forall>key cs child. (key, cs) \<in> set (schema_properties s) \<longrightarrow> jget v key = Some child \<longrightarrow>
        deeply_valid cs child)"
  unfolding deeply_valid_def by (subst visits_step) blast

lemma validate_Ok_deep:
  "validate_schema s v p = Ok () \<longleftrightarrow> deeply_valid s v"
  "validate_properties ps v p = Ok () \<longleftrightarrow>
     (\<forall>key cs child. (key, cs) \<in> set ps \<longrightarrow> jget v key = Some child \<longrightarrow> deeply_valid cs child)"
proof (induction s v p and ps v p rule: validate_schema_validate_properties.induct)
  case (1 s v p)
  show ?case
  proof (cases "locally_valid s v \<and> schema_properties s \<noteq> []")
    case True
    then show ?thesis
      using 1 unfolding validate_schema_step deeply_valid_step [of s v]
      by (simp add: local_checks_Ok [of s v p])
  next
    case False
    then show ?thesis unfolding validate_schema_step deeply_valid_step [of s v] by auto
  qed
next
  case (3 key cs rest v p)
  show ?case
  proof (cases "jget v key")
    case None
    then show ?thesis using 3(1) by auto
  next
    case (Some child)
    then show ?thesis
      using 3(2,3) by (cases "validate_schema cs child (join_path p key)") auto
  qed
qed simp



section \<open>Views\<close>

definition renamed :: "(string, string) btree \<Rightarrow> string \<Rightarrow> string" where
  "renamed mapping k = unwrap_or (bt_get mapping k) k"

lemma rename_object_fields_alt:
  assumes "bt_wf obj"
  shows "rename_object_fields (JObj obj) mapping =
    JObj (bt_collect (map (\<lambda>(k, v). (renamed mapping k, v)) obj))"
proof (cases "mapping = []")
  case True
  have "bt_get (bt_collect obj) = bt_get obj"
    using assms by (simp add: bt_get_collect map_of_rev_wf)
  then have "bt_collect obj = obj" using assms by (intro bt_ext) auto
  with True show ?thesis by (simp add: rename_object_fields_def renamed_def unwrap_or_def)
qed (simp add: rename_object_fields_def renamed_def)

lemma bt_get_renamed:
  assumes "inj_on f (fst ` set obj)" and "bt_wf obj" and "k \<in> fst ` set obj"
  shows "bt_get (bt_collect (map (\<lambda>(k, v). (f k, v)) obj)) (f k) = bt_get obj k"
proof -
  let ?l = "map (\<lambda>(k, v). (f k, v)) obj"
  have d: "distinct (map fst ?l)"
    using assms bt_wf_distinct [of obj] by (auto simp: distinct_map comp_def case_prod_unfold inj_on_def)
  obtain v where v: "(k, v) \<in> set obj" using assms(3) by auto
  then have "(f k, v) \<in> set (rev ?l)" by force
  moreover have "distinct (map fst (rev ?l))" using d by (simp add: rev_map [symmetric])
  ultimately have "map_of (rev ?l) (f k) = Some v" by (metis map_of_is_SomeI)
  moreover have "bt_get obj k = Some v" using v assms(2) by (simp add: bt_get_def bt_wf_distinct)
  ultimately show ?thesis by (simp add: bt_get_collect)
qed

lemma keys_bt_collect: "fst ` set (bt_collect l) = fst ` set l"
proof -
  have "fst ` set (fold (\<lambda>(k, v). bt_insert k v) l m) = fst ` set l \<union> fst ` set m" for m
    by (induction l arbitrary: m) (simp_all add: case_prod_unfold)
  then show ?thesis by (simp add: bt_collect_def)
qed

lemma rename_round_trip:
  assumes wf: "bt_wf obj" and inv: "\<And>k. k \<in> fst ` set obj \<Longrightarrow> renamed back (renamed forth k) = k"
  shows "rename_object_fields (rename_object_fields (JObj obj) forth) back = JObj obj"
proof -
  let ?f = "renamed forth" and ?g = "renamed back"
  let ?o = "bt_collect (map (\<lambda>(k, v). (?f k, v)) obj)"
  let ?r = "bt_collect (map (\<lambda>(k, v). (?g k, v)) ?o)"
  have keys: "fst ` set ?o = ?f ` fst ` set obj"
    by (simp add: keys_bt_collect image_image case_prod_unfold)
  have "fst ` set ?r = ?g ` fst ` set ?o"
    unfolding keys_bt_collect [of "map (\<lambda>(k, v). (?g k, v)) ?o"] by (simp add: image_image case_prod_unfold)
  also have "\<dots> = (\<lambda>k. ?g (?f k)) ` fst ` set obj" by (simp only: keys image_image)
  also have "\<dots> = (\<lambda>k. k) ` fst ` set obj" by (rule image_cong) (use inv in auto)
  finally have keys': "fst ` set ?r = fst ` set obj" by simp
  have inj: "inj_on ?f (fst ` set obj)" by (rule inj_on_inverseI [of _ ?g]) (rule inv)
  have inj': "inj_on ?g (fst ` set ?o)"
    unfolding keys by (rule inj_on_inverseI [of _ ?f]) (metis imageE inv)
  have "bt_get ?r k = bt_get obj k" for k
  proof (cases "k \<in> fst ` set obj")
    case True
    have "bt_get ?r (?g (?f k)) = bt_get ?o (?f k)"
      by (rule bt_get_renamed [OF inj']) (use True keys in auto)
    also have "\<dots> = bt_get obj k" by (rule bt_get_renamed [OF inj wf True])
    finally show ?thesis using inv True by simp
  next
    case False
    then show ?thesis using keys' by (simp add: bt_get_notin)
  qed
  then have "?r = obj" using wf by (intro bt_ext) auto
  then show ?thesis using wf by (simp add: rename_object_fields_alt)
qed

text \<open>Property C36. A view loses nothing: when its output names are the inverse of its input names
  on the fields of an object, then mapping the object into the canonical model and mapping the
  record that holds it back gives the object the client sent.\<close>

theorem view_round_trip:
  assumes "bt_wf obj"
    and "\<And>k. k \<in> fst ` set obj \<Longrightarrow> renamed (output_field_map view) (renamed (input_field_map view) k) = k"
  shows "canonical_to_view view (JObj [(''data'', view_to_canonical view (JObj obj))]) =
    JObj [(''data'', JObj obj)]"
proof -
  have inverse: "rename_object_fields (view_to_canonical view (JObj obj)) (output_field_map view) = JObj obj"
    unfolding view_to_canonical_def by (rule rename_round_trip [OF assms])
  show ?thesis
  proof (cases "output_field_map view = []")
    case True
    then show ?thesis using inverse by (simp add: canonical_to_view_def rename_object_fields_def)
  next
    case False
    then show ?thesis
      using inverse by (simp add: canonical_to_view_def rename_data_def bt_remove_def Let_def)
  qed
qed

theorem view_round_trip_witness:
  "let view = \<lparr>read_only = False, input_field_map = [(''label'', ''name'')],
               output_field_map = [(''name'', ''label'')]\<rparr>;
       obj = [(''label'', JStr ''a''), (''size'', JBool True)]
   in canonical_to_view view (JObj [(''data'', view_to_canonical view (JObj obj))]) =
      JObj [(''data'', JObj obj)]"
  unfolding Let_def
  by (rule view_round_trip) (auto simp: renamed_def unwrap_or_def bt_wf_def)

section \<open>Literals in commands\<close>

text \<open>A template without references and without the two keys that compute.\<close>

fun plain :: "json \<Rightarrow> bool" where
  "plain (JStr t) = (case t of [] \<Rightarrow> True | c # _ \<Rightarrow> c \<noteq> CHR ''$'')"
| "plain (JArr vs) = list_all plain vs"
| "plain (JObj m) =
     (bt_get m ''coalesce'' = None \<and> bt_get m ''rank'' = None \<and> list_all (\<lambda>kv. plain (snd kv)) m)"
| "plain _ = True"

lemma resolve_plain_string: "plain (JStr t) \<Longrightarrow> resolve_string_value g t cx = (Ok (JStr t), cx)"
  by (cases t) (auto simp: resolve_string_value_def)

lemma bt_insert_last: "\<forall>x\<in>set m. fst x < k \<Longrightarrow> bt_insert k v m = m @ [(k, v)]"
  by (induction m) auto

lemma resolve_plain:
  "plain v \<Longrightarrow> wf_json v \<Longrightarrow> resolve_value g v cx = (Ok v, cx)"
  "list_all plain vs \<Longrightarrow> list_all wf_json vs \<Longrightarrow> resolve_elements g vs cx = (Ok vs, cx)"
  "resolve_coalesce g ws cx = resolve_coalesce g ws cx"
  "list_all (\<lambda>kv. plain (snd kv)) m \<Longrightarrow> list_all (\<lambda>kv. wf_json (snd kv)) m \<Longrightarrow> bt_wf (out @ m) \<Longrightarrow>
     resolve_fields g m out cx = (Ok (out @ m), cx)"
  "resolve_rank g r cx = resolve_rank g r cx"
proof (induction g v cx and g vs cx and g ws cx and g m out cx and g r cx
    rule: resolve_value_resolve_elements_resolve_coalesce_resolve_fields_resolve_rank.induct)
  case (1 g t cx)
  then show ?case by (simp add: resolve_plain_string del: plain.simps)
next
  case (10 g key v rest out cx)
  have "\<forall>x\<in>set out. fst x < key" using 10(5) by (auto simp: bt_wf_def sorted_wrt_append)
  then show ?case using 10 by (simp add: optional_result_def bt_insert_last)
qed auto

text \<open>A command template without references stands for itself: it resolves to the
  same value and leaves the execution context as it is.\<close>

theorem plain_template_resolves_to_itself:
  assumes "plain v" and "wf_json v"
  shows "resolve_value g v cx = (Ok v, cx)"
  using assms by (rule resolve_plain)

theorem plain_template_resolves_to_itself_witness:
  "\<forall>g. resolve_value g (JObj [(''a'', JArr [JStr ''x'', JNull])]) (command_context_new ''0'' 1) =
     (Ok (JObj [(''a'', JArr [JStr ''x'', JNull])]), command_context_new ''0'' 1)"
  by (intro allI plain_template_resolves_to_itself) simp_all

section \<open>Generated identifiers\<close>

lemma split_on_append: "d \<notin> set xs \<Longrightarrow> split_on d (xs @ d # ys) = xs # split_on d ys"
  by (induction xs) auto

lemma split_on_single: "d \<notin> set xs \<Longrightarrow> split_on d xs = [xs]"
  by (induction xs) auto

lemma hex_digit_no_dash: "n < 16 \<Longrightarrow> hex_digit n \<noteq> CHR ''-''"
proof -
  have "\<forall>n\<in>set [0..<16]. hex_digit n \<noteq> CHR ''-''" by code_simp
  then show "n < 16 \<Longrightarrow> hex_digit n \<noteq> CHR ''-''" by simp
qed

lemma hex2_no_dash [simp]: "CHR ''-'' \<notin> set (hex2 b)"
proof -
  have "unat b < 2 ^ LENGTH(8)" by (rule unsigned_less)
  then have "unat b div 16 < 16" by (simp add: less_mult_imp_div_less)
  then show ?thesis using hex_digit_no_dash [of "unat b div 16"] hex_digit_no_dash [of "unat b mod 16"]
    by (auto simp: hex2_def)
qed

lemma length_hex2 [simp]: "length (hex2 b) = 2"
  by (simp add: hex2_def)

text \<open>A generated uuid is not in the format of a UUID, whatever the hash returns: its
  groups have 8, 4, 5, 5 and 12 digits instead of 8, 4, 4, 4 and 12, because the version and the
  variant digit are put in front of two full bytes.\<close>

theorem generated_uuid_groups:
  "map length (split_on (CHR ''-'') (generated_uuid sha256 seed)) = [8, 4, 5, 5, 12]"
proof -
  define d where "d i = sha256 seed ! i" for i
  let ?dash = "CHR ''-''"
  have "generated_uuid sha256 seed =
      (hex2 (d 0) @ hex2 (d 1) @ hex2 (d 2) @ hex2 (d 3)) @ ?dash #
      (hex2 (d 4) @ hex2 (d 5)) @ ?dash #
      (CHR ''4'' # hex2 (and (d 6) 15) @ hex2 (d 7)) @ ?dash #
      (CHR ''8'' # hex2 (and (d 8) 63) @ hex2 (d 9)) @ ?dash #
      (hex2 (d 10) @ hex2 (d 11) @ hex2 (d 12) @ hex2 (d 13) @ hex2 (d 14) @ hex2 (d 15))"
    by (simp add: generated_uuid_def d_def Let_def)
  then show ?thesis
    by (simp only: split_on_append split_on_single Un_iff set_append set_simps insert_iff hex2_no_dash
        char.inject if_False simp_thms not_False_eq_True) simp
qed

section \<open>Increments\<close>

lemma bit_length_le: "n < 2 ^ k \<Longrightarrow> bit_length n \<le> k"
proof (induction k arbitrary: n)
  case 0
  then show ?case by (simp add: bit_length.simps)
next
  case (Suc k)
  then have "bit_length (n div 2) \<le> k" by (simp add: less_mult_imp_div_less mult.commute)
  then show ?case by (simp add: bit_length.simps [of n])
qed

lemma round_nat_exact: "2 ^ (bit_length n - 53) dvd n \<Longrightarrow> round_nat_f64 n = n"
  by (auto simp: round_nat_f64_def Let_def)

text \<open>An integer of at most 53 bits times a power of two is a double.\<close>

lemma round_nat_scaled:
  assumes "n \<le> 2 ^ 53"
  shows "round_nat_f64 (n * 2 ^ k) = n * 2 ^ k"
proof (cases "n = 2 ^ 53")
  case True
  have "bit_length (n * 2 ^ k) \<le> 54 + k"
    by (rule bit_length_le) (simp add: True power_add)
  then have "(2::nat) ^ (bit_length (n * 2 ^ k) - 53) dvd 2 ^ (53 + k)" by (intro le_imp_power_dvd) simp
  then show ?thesis by (intro round_nat_exact) (simp add: True power_add)
next
  case False
  then have "n * 2 ^ k < 2 ^ (53 + k)" using assms by (simp add: power_add)
  then have "bit_length (n * 2 ^ k) \<le> 53 + k" by (rule bit_length_le)
  then have "(2::nat) ^ (bit_length (n * 2 ^ k) - 53) dvd 2 ^ k" by (intro le_imp_power_dvd) simp
  then show ?thesis by (intro round_nat_exact) simp
qed

definition exact_int :: "int \<Rightarrow> bool" where
  "exact_int i \<longleftrightarrow> \<bar>i\<bar> \<le> 2 ^ 53"

lemma f64_of_int_exact: "exact_int i \<Longrightarrow> f64_of_int i = of_int i"
proof -
  assume i: "exact_int i"
  then have "round_nat_f64 (nat \<bar>i\<bar>) = nat \<bar>i\<bar>"
    using round_nat_scaled [of "nat \<bar>i\<bar>" 0] by (simp add: exact_int_def)
  then show ?thesis by (auto simp: f64_of_int_def)
qed

lemma round_f64_exact:
  assumes "exact_int i"
  shows "round_f64 (of_int i) = of_int i"
proof -
  have "\<bar>of_int i :: rat\<bar> * 2 ^ 1074 = of_int (\<bar>i\<bar> * 2 ^ 1074)" by simp
  then have "nat \<lfloor>\<bar>of_int i :: rat\<bar> * 2 ^ 1074\<rfloor> = nat \<bar>i\<bar> * 2 ^ 1074"
    by (simp only: floor_of_int) (simp add: nat_mult_distrib nat_power_eq)
  moreover have "nat \<bar>i\<bar> \<le> 2 ^ 53" using assms by (simp add: exact_int_def)
  ultimately have "round_nat_f64 (nat \<lfloor>\<bar>of_int i :: rat\<bar> * 2 ^ 1074\<rfloor>) = nat \<bar>i\<bar> * 2 ^ 1074"
    by (simp only: round_nat_scaled)
  moreover have "of_nat (nat \<bar>i\<bar> * 2 ^ 1074) / 2 ^ 1074 = \<bar>of_int i :: rat\<bar>"
    by (simp add: of_nat_mult)
  ultimately show ?thesis
    unfolding round_f64_def Let_def by (cases "i < 0") simp_all
qed

lemma as_f64_int: "exact_int i \<Longrightarrow> as_f64 (json_i64 i) = Some (of_int i)"
proof -
  assume i: "exact_int i"
  have "uint (word_of_int i :: u64) = i" if "0 \<le> i"
    using that i by (simp add: uint_word_of_int exact_int_def)
  moreover have "sint (word_of_int i :: u64) = i" if "i < 0"
    using that i by (simp add: signed_of_int exact_int_def signed_take_bit_int_eq_self)
  ultimately show ?thesis
    using f64_of_int_exact [OF i] by (cases "i < 0") (simp_all add: json_i64_def)
qed

lemma json_number_int: "exact_int i \<Longrightarrow> json_number_of (Some (of_int i)) = json_i64 i"
  by (auto simp: json_number_of_def exact_int_def)

lemma f64_add_int:
  assumes "exact_int (a + b)"
  shows "f64_add (of_int a) (of_int b) = Some (of_int (a + b))"
proof -
  have "\<bar>of_int (a + b) :: rat\<bar> \<le> 2 ^ 53" using assms unfolding exact_int_def
    by (metis of_int_abs of_int_le_iff of_int_numeral of_int_power)
  also have "\<dots> < 2 ^ 1024" by (rule power_strict_increasing) simp_all
  finally show ?thesis
    using round_f64_exact [OF assms] by (simp add: f64_add_def Let_def)
qed

lemma increment_int:
  assumes "command_lookup_path data f = Some (json_i64 a)"
    and "exact_int a" and "exact_int b" and "exact_int (a + b)"
  shows "increment_patch data [(f, json_i64 b)] = Ok (JObj [(f, json_i64 (a + b))])"
  using assms by (simp add: increment_patch_def as_f64_int f64_add_int json_number_int unwrap_or_def
      del: of_int_add)

text \<open>Property C38. Increments are exact up to 53 bits although they are computed in floating
  point: when the old value, the amount and the sum are integers of absolute value at most
  $2^{53}$, the patch sets the field to exactly the sum, as an integer.\<close>

theorem increment_exact:
  assumes "command_lookup_path data f = Some (json_i64 a)"
    and "\<bar>a\<bar> \<le> 2 ^ 53" and "\<bar>b\<bar> \<le> 2 ^ 53" and "\<bar>a + b\<bar> \<le> 2 ^ 53"
  shows "increment_patch data [(f, json_i64 b)] = Ok (JObj [(f, json_i64 (a + b))])"
  using assms by (intro increment_int) (simp_all add: exact_int_def)

theorem increment_exact_witness:
  "increment_patch (JObj [(''n'', json_i64 5)]) [(''n'', json_i64 (- 7))] = Ok (JObj [(''n'', json_i64 (- 2))])"
proof -
  have "command_lookup_path (JObj [(''n'', json_i64 5)]) ''n'' = Some (json_i64 5)" by code_simp
  from increment_exact [OF this, of "- 7"] show ?thesis by simp
qed

lemma split_on_head_dot: "d \<in> set f \<Longrightarrow> hd (split_on d f) \<noteq> f"
proof -
  have "d \<notin> set (hd (split_on d f))" by (induction f) (auto split: list.splits)
  then show "d \<in> set f \<Longrightarrow> hd (split_on d f) \<noteq> f" by auto
qed

lemma lookup_by_head:
  assumes "bt_get m (hd (split_on (CHR ''.'') f)) = bt_get m' (hd (split_on (CHR ''.'') f))"
  shows "command_lookup_path (JObj m) f = command_lookup_path (JObj m') f"
  using assms by (cases "split_on (CHR ''.'') f") (auto simp: command_lookup_path_def path_step_def
      split: option.splits)

text \<open>Property C39. Increments of a nested field are lost: the amount is added to the value at the
  path, but the sum is stored under the whole path as one key, so that after the update the same
  increment computes the same sum again, however often it is repeated.\<close>

theorem dotted_increment_lost:
  assumes "CHR ''.'' \<in> set f" and "hd (split_on (CHR ''.'') f) \<noteq> ''id''"
    and "increment_patch (JObj d) [(f, n)] = Ok p"
  shows "increment_patch (JObj (merged_data (JObj d) p i)) [(f, n)] = Ok p"
proof -
  obtain w where p: "p = JObj [(f, w)]"
    using assms(3) by (auto simp: increment_patch_def Let_def split: option.splits)
  let ?h = "hd (split_on (CHR ''.'') f)"
  have "?h \<noteq> f" by (rule split_on_head_dot [OF assms(1)])
  then have "bt_get (merged_data (JObj d) p i) ?h = bt_get d ?h"
    using assms(2) by (simp add: merged_data_def object_clone_def unwrap_or_def p)
  then have "command_lookup_path (JObj (merged_data (JObj d) p i)) f = command_lookup_path (JObj d) f"
    by (rule lookup_by_head)
  then show ?thesis using assms(3) by (simp add: increment_patch_def Let_def split: option.splits)
qed

theorem dotted_increment_lost_witness:
  "let d = [(''stats'', JObj [(''n'', json_i64 5)])]; p = JObj [(''stats.n'', json_i64 6)]
   in increment_patch (JObj d) [(''stats.n'', json_i64 1)] = Ok p \<and>
      increment_patch (JObj (merged_data (JObj d) p ''x'')) [(''stats.n'', json_i64 1)] = Ok p"
proof -
  let ?d = "[(''stats'', JObj [(''n'', json_i64 5)])]"
  have "command_lookup_path (JObj ?d) ''stats.n'' = Some (json_i64 5)" by code_simp
  from increment_int [OF this, of 1]
  have p: "increment_patch (JObj ?d) [(''stats.n'', json_i64 1)] = Ok (JObj [(''stats.n'', json_i64 6)])"
    by (simp add: exact_int_def)
  have "hd (split_on (CHR ''.'') ''stats.n'') \<noteq> ''id''" by code_simp
  from dotted_increment_lost [OF _ this p] p show ?thesis by (simp add: Let_def)
qed

end
