(* ===== verification/Command_Props.thy ===== *)
theory Command_Props
  imports Runtime_Props Memory_Laws Value_Props
begin

text \<open>
  Properties of the command interpreter: bounded retries, the scope of \<^verbatim>\<open>$item\<close> in nested
  loops, and idempotency keys of commands with several creations.
\<close>

section \<open>Retries\<close>

text \<open>At most \<open>n\<close> effects are appended.\<close>

definition at_most :: "nat \<Rightarrow> ('s, 'a) step \<Rightarrow> bool" where
  "at_most n m \<longleftrightarrow> (\<forall>cx s. \<exists>es. rs_trace (snd (snd (m cx s))) = rs_trace s @ es \<and> length es \<le> n)"

lemma at_most_bind:
  assumes "at_most k m" and "\<And>x. at_most n (f x)"
  shows "at_most (k + n) (step_bind m f)"
  unfolding at_most_def
proof (intro allI)
  fix cx s
  obtain r cx' s' where m: "m cx s = (r, cx', s')" by (cases "m cx s")
  obtain es where es: "rs_trace s' = rs_trace s @ es" "length es \<le> k"
    using assms(1) m unfolding at_most_def by (metis snd_conv)
  show "\<exists>es. rs_trace (snd (snd (step_bind m f cx s))) = rs_trace s @ es \<and> length es \<le> k + n"
  proof (cases r)
    case (Inr x)
    obtain es' where "rs_trace (snd (snd (f x cx' s'))) = rs_trace s' @ es'" "length es' \<le> n"
      using assms(2) unfolding at_most_def by blast
    then show ?thesis using es m Inr by (auto simp: step_bind_def)
  qed (use es m in \<open>auto simp: step_bind_def\<close>)
qed

lemma at_most_mono: "at_most k m \<Longrightarrow> k \<le> n \<Longrightarrow> at_most n m"
  unfolding at_most_def by (meson order_trans)

lemma at_most_0:
  "at_most 0 (step_return x)" "at_most 0 (step_fail e)" "at_most 0 (step_resolve cv h)"
  "at_most 0 (step_string cv h')" "at_most 0 (step_reset cv e fs)"
  by (auto simp: at_most_def step_return_def step_fail_def step_resolve_def step_string_def
      step_reset_def split: prod.splits)

lemma at_most_pair: "(\<And>a b. at_most n (f a b)) \<Longrightarrow> at_most n (case p of (a, b) \<Rightarrow> f a b)"
  by (cases p) simp

lemma at_most_try: "(\<And>s. \<exists>e. rs_trace (snd (w s)) = rs_trace s @ [e]) \<Longrightarrow> at_most 1 (step_try w)"
  unfolding at_most_def step_try_def
  by (auto split: prod.splits) (metis length_Cons list.size(3) le_refl snd_conv)

lemma at_most_retry:
  assumes "\<And>v s. \<exists>e. rs_trace (snd (write v s)) = rs_trace s @ [e]"
  shows "at_most n (retry_unique n last_err msg cv template write)"
proof (induction n arbitrary: last_err)
  case (Suc n)
  have none: "at_most n (step_return x)" "at_most n (step_fail e)" for x e
    by (auto intro: at_most_mono [OF at_most_0(1)] at_most_mono [OF at_most_0(2)])
  have reset: "at_most (0 + n) (step_bind (step_reset cv e fs)
      (\<lambda>b. if b then retry_unique n (Some e) msg cv template write else step_fail e))" for e fs
    by (intro at_most_bind at_most_0) (simp add: Suc.IH none)
  have "at_most (0 + (1 + n)) (retry_unique (Suc n) last_err msg cv template write)"
    unfolding retry_unique.simps
    by (intro at_most_bind at_most_0 at_most_try assms)
      (use reset none in \<open>auto split: sum.splits\<close>)
  then show ?case by simp
qed (simp add: at_most_0)

lemma write_one_effect:
  "\<exists>e. rs_trace (snd (step_write_create cv entity collection v s)) = rs_trace s @ [e]"
  "\<exists>e. rs_trace (snd (step_write_update cv entity collection i v s)) = rs_trace s @ [e]"
  by (auto simp: step_write_create_def step_write_update_def Let_def act_write_def split: prod.splits)


section \<open>Nested loops\<close>

lemma step_bind_Ok:
  "step_bind m f cx s = (Ok y, cx'', s'') \<longleftrightarrow>
     (\<exists>x cx' s'. m cx s = (Ok x, cx', s') \<and> f x cx' s' = (Ok y, cx'', s''))"
  by (auto simp: step_bind_def split: prod.splits sum.splits)

lemma step_update_Ok: "step_update f cx s = (Ok u, cx', s') \<longleftrightarrow> cx' = f cx \<and> s' = s"
  by (auto simp: step_update_def)

lemma step_return_Ok: "step_return x cx s = (Ok y, cx', s') \<longleftrightarrow> y = x \<and> cx' = cx \<and> s' = s"
  by (auto simp: step_return_def)

lemma items_clear_item:
  "exec_items cv index items steps cx s = (Ok r, cx', s') \<Longrightarrow> items \<noteq> [] \<or> cx_item cx = None \<Longrightarrow>
   cx_item cx' = None"
proof (induction items arbitrary: index cx s r)
  case (Cons item items)
  obtain cx1 s1 r1 where "exec_items cv (Suc index) items steps (pop_iteration cx1) s1 = (Ok r1, cx', s')"
    using Cons.prems(1) by (auto simp: step_bind_Ok step_update_Ok step_return_Ok split: prod.splits)
  moreover have "cx_item (pop_iteration cx1) = None" by (simp add: pop_iteration_def)
  ultimately show ?case using Cons.IH by blast
qed (simp add: step_return_Ok)

text \<open>Property C40. An inner loop ends the outer iteration's item: after a loop that ran over at
  least one element, in an iteration of another loop or not, \<^verbatim>\<open>$item\<close> stands for null in every
  later step of the outer iteration.\<close>

theorem inner_loop_clears_item:
  assumes "exec_items cv 0 (v # vs) steps cx s = (Ok r, cx', s')"
  shows "resolve_string_value g ''$item'' cx' = (Ok JNull, cx')"
proof -
  have "cx_item cx' = None" using items_clear_item [OF assms] by simp
  then show ?thesis by (simp add: resolve_string_value_def unwrap_or_def)
qed

definition demo_env :: "command_spec \<Rightarrow> string option \<Rightarrow> memory_state command_env" where
  "demo_env spec key =
     \<lparr>cv_runtime = demo_runtime (OpCommand spec) control_allow, cv_endpoint = demo_endpoint (OpCommand spec),
      cv_spec = spec, cv_invocation = demo_call key JNull,
      cv_namespace = \<lparr>ns_tenant_id = ''acme'', ns_sor_name = ''sor''\<rparr>,
      cv_binding = \<lparr>pb_entity = ''Item'', pb_provider_id = ''main'', pb_collection = ''items''\<rparr>,
      cv_provider = memory_store (\<lambda>_. []) (\<lambda>_. Ok ())\<rparr>"

theorem inner_loop_clears_item_witness:
  "\<exists>cx'. snd (snd (exec_items (demo_env command_spec_default None) 0 [JStr ''b''] []
      (push_iteration (JStr ''a'') 0 (command_context_new ''0'' 1)) demo_state)) = demo_state \<and>
    cx_item (push_iteration (JStr ''a'') 0 (command_context_new ''0'' 1)) = Some (JStr ''a'') \<and>
    (\<forall>g. resolve_string_value g ''$item'' cx' = (Ok JNull, cx'))"
proof -
  let ?cx = "push_iteration (JStr ''a'') 0 (command_context_new ''0'' 1)"
  let ?cx' = "pop_iteration (push_iteration (JStr ''b'') 0 ?cx)"
  obtain r where "exec_items (demo_env command_spec_default None) 0 [JStr ''b''] [] ?cx demo_state =
      (Ok r, ?cx', demo_state)"
    by (simp add: step_bind_def step_update_def step_return_def)
  from inner_loop_clears_item [OF this] this show ?thesis
    by (intro exI [of _ ?cx']) (simp add: push_iteration_def)
qed

section \<open>Idempotency keys\<close>

text \<open>Two create steps of one command on the same collection share their idempotency key: the
  in-memory store answers the second with the record of the first and stores nothing, while the
  result counts two created records.\<close>

lemma command_creations_collapse:
  "let steps = [CreateStep None None None None (Some (JObj [(''id'', JStr ''a'')])),
                CreateStep None None None None (Some (JObj [(''id'', JStr ''b'')]))];
       spec = command_spec_default\<lparr>cs_steps := steps\<rparr>;
       (r, s) = invoke (demo_runtime (OpCommand spec) control_allow) (demo_call (Some ''k'') JNull) demo_state;
       out = (case r of Inr x \<Rightarrow> er_output x | _ \<Rightarrow> JNull)
   in Option.bind (jget out ''result'') (\<lambda>v. jget v ''created_count'') = Some (json_usize 2) \<and>
      map_option (map fst) (bt_get (collections (rs_stores s)) ''sorx/acme/sor/items'') = Some [''a'']"
  by code_simp

end
