(* ===== verification/Kv_Store.thy ===== *)
theory Kv_Store
  imports Memory_Store Migration_Plan
begin

text \<open>
  \<^verbatim>\<open>greentic-sorx-core/src/providers/kv.rs\<close>: the canonical store over an ordered key-value
  transaction. A transaction is an ordered map from keys to values (both byte strings, a
  character standing for a byte) in which any call may fail; which calls fail, the encodings of
  serde and the texts of decoding errors are the environment. The counters use the overflow check
  of a debug build: the addition that would wrap is the error \<^verbatim>\<open>panic\<close>.

  The helpers that \<^verbatim>\<open>kv.rs\<close> shares word for word with \<^verbatim>\<open>memory.rs\<close> (\<^verbatim>\<open>clean_key\<close>,
  \<^verbatim>\<open>index_values\<close>, \<^verbatim>\<open>matches_filter\<close>, \<^verbatim>\<open>compare_records\<close>) are those of \<open>Memory_Store\<close>.
\<close>

section \<open>Transactions\<close>

text \<open>The trait \<^verbatim>\<open>KvTxn\<close> over a transaction state \<open>'s\<close>; a call that fails is an error value.\<close>

type_synonym ('s, 'a) kv = "'s \<Rightarrow> 'a sorx_result \<times> 's"

record 's kv_txn =
  kv_get :: "string \<Rightarrow> ('s, string option) kv"
  kv_set :: "string \<Rightarrow> string \<Rightarrow> ('s, unit) kv"
  kv_clear :: "string \<Rightarrow> ('s, unit) kv"
  kv_scan :: "string \<Rightarrow> string \<Rightarrow> ('s, (string \<times> string) list) kv"

text \<open>A transaction with the encodings the operations call.\<close>

record 's kv_env = "'s kv_txn" +
  ke_utf8_error :: "string \<Rightarrow> string"
  ke_encode_record :: "entity_record \<Rightarrow> (string, string) result"
  ke_decode_record :: "string \<Rightarrow> (string, entity_record) result"
  ke_encode_event :: "event_record \<Rightarrow> (string, string) result"
  ke_encode_values :: "json list \<Rightarrow> (string, string) result"
  ke_decode_values :: "string \<Rightarrow> (string, json list) result"
  ke_decode_refs :: "string \<Rightarrow> (string, external_ref list) result"
  ke_values_text :: "json list \<Rightarrow> string"
  ke_value_text :: "json \<Rightarrow> string"

definition kv_return :: "'a \<Rightarrow> ('s, 'a) kv" where
  "kv_return x t = (Ok x, t)"

definition kv_fail :: "sorx_error \<Rightarrow> ('s, 'a) kv" where
  "kv_fail e t = (Err e, t)"

definition kv_lift :: "'a sorx_result \<Rightarrow> ('s, 'a) kv" where
  "kv_lift r t = (r, t)"

definition kv_bind :: "('s, 'a) kv \<Rightarrow> ('a \<Rightarrow> ('s, 'b) kv) \<Rightarrow> ('s, 'b) kv" where
  "kv_bind m f t = (case m t of (Err e, t') \<Rightarrow> (Err e, t') | (Ok x, t') \<Rightarrow> f x t')"

section \<open>Keys\<close>

text \<open>\<^verbatim>\<open>str::as_bytes\<close> and \<^verbatim>\<open>String::from_utf8\<close> on the modelled code points: one byte below U+0080, two from there to U+00FF.\<close>

fun utf8_bytes :: "string \<Rightarrow> string" where
  "utf8_bytes [] = []"
| "utf8_bytes (c # s) =
     (if code c < 128 then c # utf8_bytes s
      else char_of (192 + code c div 64) # char_of (128 + code c mod 64) # utf8_bytes s)"

fun utf8_decode :: "string \<Rightarrow> string option" where
  "utf8_decode [] = Some []"
| "utf8_decode (c # s) =
     (if code c < 128 then map_option ((#) c) (utf8_decode s)
      else (case s of
              [] \<Rightarrow> None
            | d # s' \<Rightarrow>
                if (code c = 194 \<or> code c = 195) \<and> 128 \<le> code d \<and> code d < 192
                then map_option ((#) (char_of ((code c - 192) * 64 + (code d - 128)))) (utf8_decode s')
                else None))"

fun kv_segments :: "string list \<Rightarrow> string" where
  "kv_segments [] = []"
| "kv_segments (s # ss) = CHR ''/'' # utf8_bytes s @ kv_segments ss"

definition kv_join :: "provider_namespace \<Rightarrow> string list \<Rightarrow> string" where
  "kv_join ns segments = utf8_bytes (key_prefix ns) @ kv_segments segments"

definition entity_key :: "provider_namespace \<Rightarrow> string \<Rightarrow> string \<Rightarrow> string" where
  "entity_key ns collection i = kv_join ns [''e'', clean_key collection, clean_key i]"

definition idem_key :: "provider_namespace \<Rightarrow> string \<Rightarrow> string \<Rightarrow> string" where
  "idem_key ns collection k = kv_join ns [''idem'', clean_key collection, clean_key k]"

definition encode_values :: "'s kv_env \<Rightarrow> json list \<Rightarrow> string" where
  "encode_values env vs = clean_key (ke_values_text env vs)"

definition uniq_key :: "'s kv_env \<Rightarrow> provider_namespace \<Rightarrow> string \<Rightarrow> string \<Rightarrow> json list \<Rightarrow> string" where
  "uniq_key env ns collection index_id vs =
     kv_join ns [''uniq'', clean_key collection, clean_key index_id, encode_values env vs]"

text \<open>\<^verbatim>\<open>{seq:020}\<close>: zero-padded to twenty digits.\<close>

definition pad20 :: "string \<Rightarrow> string" where
  "pad20 s = replicate (20 - length s) (CHR ''0'') @ s"

definition event_key :: "provider_namespace \<Rightarrow> string \<Rightarrow> u64 \<Rightarrow> string" where
  "event_key ns stream seq = kv_join ns [''ev'', clean_key stream, pad20 (show_nat (unat seq))]"

definition idseq_key :: "provider_namespace \<Rightarrow> string \<Rightarrow> string" where
  "idseq_key ns collection = kv_join ns [''idseq'', clean_key collection]"

definition evseq_key :: "provider_namespace \<Rightarrow> string \<Rightarrow> string" where
  "evseq_key ns stream = kv_join ns [''evseq'', clean_key stream]"

definition kv_subject_key :: "provider_namespace \<Rightarrow> string \<Rightarrow> string \<Rightarrow> string \<Rightarrow> string \<Rightarrow> string" where
  "kv_subject_key ns kind collection entity i =
     kv_join ns [kind, clean_key collection, clean_key entity, clean_key i]"

definition schema_key :: "provider_namespace \<Rightarrow> string" where
  "schema_key ns = kv_join ns [''meta'', ''schema_version'']"

definition migration_key :: "provider_namespace \<Rightarrow> string \<Rightarrow> string" where
  "migration_key ns i = kv_join ns [''migrations'', clean_key i]"

text \<open>\<^verbatim>\<open>prefix_end\<close> walks from the last byte: trailing \<^verbatim>\<open>0xff\<close> bytes are dropped.\<close>

fun prefix_end_rev :: "string \<Rightarrow> string" where
  "prefix_end_rev [] = [char_of (255 :: nat)]"
| "prefix_end_rev (c # cs) =
     (if c = char_of (255 :: nat) then prefix_end_rev cs else rev (char_of (code c + 1) # cs))"

definition prefix_end :: "string \<Rightarrow> string" where
  "prefix_end p = prefix_end_rev (rev p)"

definition child_range :: "provider_namespace \<Rightarrow> string list \<Rightarrow> string \<times> string" where
  "child_range ns segments = (let start = kv_join ns segments @ ''/'' in (start, prefix_end start))"

section \<open>Encoding\<close>

definition decode_failed :: "string \<Rightarrow> sorx_error" where
  "decode_failed msg = sorx_error_new ''provider_decode_failed'' (Text msg)"

definition encode_json :: "(string, string) result \<Rightarrow> string sorx_result" where
  "encode_json r =
     (case r of Err e \<Rightarrow> Err (sorx_error_new ''provider_encode_failed'' (Text e)) | Ok b \<Rightarrow> Ok b)"

definition decode_json :: "(string, 'a) result \<Rightarrow> 'a sorx_result" where
  "decode_json r = (case r of Err e \<Rightarrow> Err (decode_failed e) | Ok x \<Rightarrow> Ok x)"

fun to_le_bytes :: "nat \<Rightarrow> nat \<Rightarrow> string" where
  "to_le_bytes 0 n = []"
| "to_le_bytes (Suc k) n = char_of (n mod 256) # to_le_bytes k (n div 256)"

fun from_le_bytes :: "string \<Rightarrow> nat" where
  "from_le_bytes [] = 0"
| "from_le_bytes (c # cs) = code c + 256 * from_le_bytes cs"

definition u64_le :: "u64 \<Rightarrow> string" where
  "u64_le n = to_le_bytes 8 (unat n)"

definition decode_u64 :: "string \<Rightarrow> u64 sorx_result" where
  "decode_u64 bytes =
     (if length bytes = 8 then Ok (of_nat (from_le_bytes bytes))
      else Err (decode_failed (''a sequence counter is '' @ show_nat (length bytes) @ '' bytes, not 8'')))"

definition panic_overflow :: sorx_error where
  "panic_overflow = sorx_error_new ''panic'' (Text ''attempt to add with overflow'')"

definition u64_succ :: "u64 \<Rightarrow> u64 sorx_result" where
  "u64_succ n = (if n = - 1 then Err panic_overflow else Ok (n + 1))"

definition utf8_id :: "'s kv_env \<Rightarrow> string \<Rightarrow> string \<Rightarrow> string sorx_result" where
  "utf8_id env msg bytes =
     (case utf8_decode bytes of
        None \<Rightarrow> Err (decode_failed (msg @ ke_utf8_error env bytes))
      | Some s \<Rightarrow> Ok s)"

section \<open>Helpers\<close>

definition write_schema_version :: "'s kv_env \<Rightarrow> provider_namespace \<Rightarrow> ('s, unit) kv" where
  "write_schema_version env ns =
     kv_bind (kv_get env (schema_key ns)) (\<lambda>v.
       if v = Some ''1'' then kv_return () else kv_set env (schema_key ns) ''1'')"

fun decode_records :: "'s kv_env \<Rightarrow> (string \<times> string) list \<Rightarrow> entity_record list sorx_result" where
  "decode_records env [] = Ok []"
| "decode_records env ((k, v) # rest) =
     (case decode_json (ke_decode_record env v) of
        Err e \<Rightarrow> Err e
      | Ok r \<Rightarrow> (case decode_records env rest of Err e \<Rightarrow> Err e | Ok rs \<Rightarrow> Ok (r # rs)))"

definition scan_entities :: "'s kv_env \<Rightarrow> provider_namespace \<Rightarrow> string \<Rightarrow> ('s, entity_record list) kv" where
  "scan_entities env ns collection =
     (case child_range ns [''e'', clean_key collection] of
        (a, b) \<Rightarrow> kv_bind (kv_scan env a b) (\<lambda>kvs. kv_lift (decode_records env kvs)))"

definition auto_id :: "string \<Rightarrow> u64 \<Rightarrow> string" where
  "auto_id collection n = collection @ ''-'' @ show_nat (unat n)"

lemma u64_gap_decreases:
  fixes n :: u64
  assumes "n \<noteq> - 1"
  shows "unat (- 1 - (n + 1)) < unat (- 1 - n)"
proof -
  have ne: "- 1 - n \<noteq> 0" using assms by simp
  have "- 1 - (n + 1) = (- 1 - n) - 1" by simp
  then have "unat (- 1 - (n + 1)) = unat (- 1 - n) - 1"
    using unat_minus_one [OF ne] by (rule ssubst)
  then show ?thesis using ne by (simp add: unat_gt_0)
qed

text \<open>The loop of \<^verbatim>\<open>next_auto_id\<close>; it ends because the counter is below its maximum.\<close>

function next_free_id :: "'s kv_env \<Rightarrow> provider_namespace \<Rightarrow> string \<Rightarrow> u64 \<Rightarrow> ('s, string) kv" where
  "next_free_id env ns collection n t =
     (if n = - 1 then (Err panic_overflow, t)
      else
        (case kv_get env (entity_key ns collection (auto_id collection (n + 1))) t of
           (Err e, t') \<Rightarrow> (Err e, t')
         | (Ok (Some v), t') \<Rightarrow> next_free_id env ns collection (n + 1) t'
         | (Ok None, t') \<Rightarrow>
             kv_bind (kv_set env (idseq_key ns collection) (u64_le (n + 1)))
               (\<lambda>_. kv_return (auto_id collection (n + 1))) t'))"
  by pat_completeness auto
termination
proof (relation "measure (\<lambda>(env, ns, collection, n, t). unat (- 1 - n))")
  fix env ns collection and n :: u64 and t t' :: 's
  assume "n \<noteq> - 1"
  then have "unat (- 1 - (n + 1)) < unat (- 1 - n)" by (rule u64_gap_decreases)
  then show "((env, ns, collection, n + 1, t'), env, ns, collection, n, t)
      \<in> measure (\<lambda>(env, ns, collection, n, t). unat (- 1 - n))" by simp
qed simp

declare next_free_id.simps [simp del]

definition next_auto_id :: "'s kv_env \<Rightarrow> provider_namespace \<Rightarrow> string \<Rightarrow> ('s, string) kv" where
  "next_auto_id env ns collection =
     kv_bind (kv_get env (idseq_key ns collection)) (\<lambda>v.
     kv_bind (case v of
                Some bytes \<Rightarrow> kv_lift (decode_u64 bytes)
              | None \<Rightarrow> kv_bind (scan_entities env ns collection) (\<lambda>rs. kv_return (of_nat (length rs))))
       (next_free_id env ns collection))"

section \<open>Unique indexes\<close>

text \<open>Unlike the in-memory store, an index whose fields are missing is skipped on its own.\<close>

fun kv_find_unique_conflict ::
  "'s kv_env \<Rightarrow> provider_namespace \<Rightarrow> string \<Rightarrow> unique_index list \<Rightarrow> json \<Rightarrow> string option \<Rightarrow>
   ('s, unique_conflict option) kv" where
  "kv_find_unique_conflict env ns collection [] data current_id = kv_return None"
| "kv_find_unique_conflict env ns collection (index # indexes) data current_id =
     (case index_values data (ui_fields index) of
        None \<Rightarrow> kv_find_unique_conflict env ns collection indexes data current_id
      | Some vs \<Rightarrow>
          kv_bind (kv_get env (uniq_key env ns collection (ui_id index) vs)) (\<lambda>owner.
          case owner of
            None \<Rightarrow> kv_find_unique_conflict env ns collection indexes data current_id
          | Some bytes \<Rightarrow>
              kv_bind (kv_lift (utf8_id env ''a unique-index entry does not hold a UTF-8 id: '' bytes)) (\<lambda>owner.
              if current_id = Some owner
              then kv_find_unique_conflict env ns collection indexes data current_id
              else
                kv_bind (kv_get env (entity_key ns collection owner)) (\<lambda>found.
                case found of
                  None \<Rightarrow> kv_find_unique_conflict env ns collection indexes data current_id
                | Some rbytes \<Rightarrow>
                    kv_bind (kv_lift (decode_json (ke_decode_record env rbytes))) (\<lambda>r.
                    kv_return (Some \<lparr>uc_index = index, uc_values = vs, uc_record = r\<rparr>))))))"

fun write_unique_keys ::
  "'s kv_env \<Rightarrow> provider_namespace \<Rightarrow> string \<Rightarrow> unique_index list \<Rightarrow> entity_record \<Rightarrow> ('s, unit) kv" where
  "write_unique_keys env ns collection [] r = kv_return ()"
| "write_unique_keys env ns collection (index # indexes) r =
     (case index_values (rec_data r) (ui_fields index) of
        None \<Rightarrow> write_unique_keys env ns collection indexes r
      | Some vs \<Rightarrow>
          kv_bind (kv_set env (uniq_key env ns collection (ui_id index) vs) (utf8_bytes (rec_id r)))
            (\<lambda>_. write_unique_keys env ns collection indexes r))"

fun clear_matching :: "'s kv_env \<Rightarrow> string \<Rightarrow> (string \<times> string) list \<Rightarrow> ('s, unit) kv" where
  "clear_matching env i [] = kv_return ()"
| "clear_matching env i ((k, v) # rest) =
     (if v = utf8_bytes i then kv_bind (kv_clear env k) (\<lambda>_. clear_matching env i rest)
      else clear_matching env i rest)"

definition clear_unique_for_record :: "'s kv_env \<Rightarrow> provider_namespace \<Rightarrow> string \<Rightarrow> string \<Rightarrow> ('s, unit) kv" where
  "clear_unique_for_record env ns collection i =
     (case child_range ns [''uniq'', clean_key collection] of
        (a, b) \<Rightarrow> kv_bind (kv_scan env a b) (clear_matching env i))"

text \<open>The loop of \<^verbatim>\<open>update\<close> that releases the values a changed unique field held.\<close>

fun release_changed ::
  "'s kv_env \<Rightarrow> provider_namespace \<Rightarrow> string \<Rightarrow> entity_record \<Rightarrow> json \<Rightarrow> unique_index list \<Rightarrow> ('s, unit) kv" where
  "release_changed env ns collection r data [] = kv_return ()"
| "release_changed env ns collection r data (index # indexes) =
     (case index_values (rec_data r) (ui_fields index) of
        None \<Rightarrow> release_changed env ns collection r data indexes
      | Some old \<Rightarrow>
          if Some old \<noteq> index_values data (ui_fields index)
          then
            kv_bind (kv_get env (uniq_key env ns collection (ui_id index) old)) (\<lambda>owner.
            if owner = Some (utf8_bytes (rec_id r))
            then kv_bind (kv_clear env (uniq_key env ns collection (ui_id index) old))
                   (\<lambda>_. release_changed env ns collection r data indexes)
            else release_changed env ns collection r data indexes)
          else release_changed env ns collection r data indexes)"

section \<open>Record operations\<close>

definition kv_write_created :: "'s kv_env \<Rightarrow> create_op \<Rightarrow> string \<Rightarrow> json \<Rightarrow> ('s, entity_record) kv" where
  "kv_write_created env op i data =
     (let ns = cr_namespace op; collection = cr_collection op;
          r = \<lparr>rec_entity = cr_entity op, rec_collection = collection, rec_id = i,
               rec_data = data, rec_version = 1\<rparr>
      in kv_bind (kv_lift (encode_json (ke_encode_record env r))) (\<lambda>encoded.
         kv_bind (kv_set env (entity_key ns collection i) encoded) (\<lambda>_.
         kv_bind (case cr_idempotency_key op of
                    Some k \<Rightarrow> kv_set env (idem_key ns collection k) encoded
                  | None \<Rightarrow> kv_return ()) (\<lambda>_.
         kv_bind (write_unique_keys env ns collection (cr_unique_indexes op) r) (\<lambda>_.
         kv_return r)))))"

definition kv_create_new :: "'s kv_env \<Rightarrow> create_op \<Rightarrow> ('s, entity_record) kv" where
  "kv_create_new env op =
     (let ns = cr_namespace op; collection = cr_collection op
      in kv_bind (case value_id (cr_input op) of
                    Some i \<Rightarrow> kv_return i
                  | None \<Rightarrow> next_auto_id env ns collection) (\<lambda>i.
         let data = JObj (bt_insert ''id'' (JStr i) (object_clone (cr_input op)))
         in kv_bind (kv_find_unique_conflict env ns collection (cr_unique_indexes op) data None) (\<lambda>conflict.
            case conflict of
              Some c \<Rightarrow>
                if cr_unique_behavior op = ReturnExisting (ui_id (uc_index c)) (ui_fields (uc_index c))
                then kv_return (uc_record c)
                else kv_fail (unique_conflict_error (uc_index c) (uc_values c))
            | None \<Rightarrow> kv_write_created env op i data)))"

definition kv_create :: "'s kv_env \<Rightarrow> create_op \<Rightarrow> ('s, entity_record) kv" where
  "kv_create env op =
     kv_bind (write_schema_version env (cr_namespace op)) (\<lambda>_.
     kv_bind (case cr_idempotency_key op of
                Some k \<Rightarrow> kv_get env (idem_key (cr_namespace op) (cr_collection op) k)
              | None \<Rightarrow> kv_return None) (\<lambda>earlier.
     case earlier of
       Some bytes \<Rightarrow> kv_lift (decode_json (ke_decode_record env bytes))
     | None \<Rightarrow> kv_create_new env op))"

definition kv_get_record :: "'s kv_env \<Rightarrow> get_op \<Rightarrow> ('s, entity_record option) kv" where
  "kv_get_record env op =
     kv_bind (kv_get env (entity_key (g_namespace op) (g_collection op) (g_id op))) (\<lambda>v.
     case v of
       None \<Rightarrow> kv_return None
     | Some bytes \<Rightarrow>
         kv_bind (kv_lift (decode_json (ke_decode_record env bytes))) (\<lambda>r. kv_return (Some r)))"

definition kv_write_updated :: "'s kv_env \<Rightarrow> update_op \<Rightarrow> entity_record \<Rightarrow> json \<Rightarrow> ('s, entity_record) kv" where
  "kv_write_updated env op r data =
     (let ns = up_namespace op; collection = up_collection op;
          r' = r\<lparr>rec_data := data, rec_version := rec_version r + 1\<rparr>
      in kv_bind (release_changed env ns collection r data (up_unique_indexes op)) (\<lambda>_.
         kv_bind (kv_lift (if rec_version r = - 1 then Err panic_overflow else Ok ())) (\<lambda>_.
         kv_bind (kv_lift (encode_json (ke_encode_record env r'))) (\<lambda>encoded.
         kv_bind (kv_set env (entity_key ns collection (up_id op)) encoded) (\<lambda>_.
         kv_bind (write_unique_keys env ns collection (up_unique_indexes op) r') (\<lambda>_.
         kv_return r'))))))"

definition kv_update :: "'s kv_env \<Rightarrow> update_op \<Rightarrow> ('s, entity_record) kv" where
  "kv_update env op =
     (let ns = up_namespace op; collection = up_collection op
      in kv_bind (kv_get env (entity_key ns collection (up_id op))) (\<lambda>existing.
         case existing of
           None \<Rightarrow> kv_fail (record_not_found (up_id op) collection)
         | Some bytes \<Rightarrow>
             kv_bind (kv_lift (decode_json (ke_decode_record env bytes))) (\<lambda>r.
             let data = JObj (merged_data (rec_data r) (up_patch op) (up_id op))
             in kv_bind (kv_find_unique_conflict env ns collection (up_unique_indexes op) data (Some (up_id op)))
                  (\<lambda>conflict.
                  case conflict of
                    Some c \<Rightarrow> kv_fail (unique_conflict_error (uc_index c) (uc_values c))
                  | None \<Rightarrow> kv_write_updated env op r data))))"

definition kv_query_records :: "'s kv_env \<Rightarrow> query_op \<Rightarrow> ('s, entity_record list) kv" where
  "kv_query_records env op =
     kv_bind (scan_entities env (q_namespace op) (q_collection op)) (\<lambda>rs.
     let records = filter (\<lambda>r. matches_filter (rec_data r) (object_clone (q_filter op))) rs
     in kv_return
          (if q_order_by op = [] then sort_by (\<lambda>l r. cmp (rec_id l) (rec_id r)) records
           else sort_by (compare_records (ke_value_text env) (q_order_by op)) records))"

definition kv_delete :: "'s kv_env \<Rightarrow> delete_op \<Rightarrow> ('s, bool) kv" where
  "kv_delete env op =
     (let ekey = entity_key (del_namespace op) (del_collection op) (del_id op)
      in kv_bind (kv_get env ekey) (\<lambda>v.
         case v of
           None \<Rightarrow> kv_return False
         | Some bytes \<Rightarrow>
             kv_bind (kv_lift (decode_json (ke_decode_record env bytes))) (\<lambda>r.
             kv_bind (kv_clear env ekey) (\<lambda>_.
             kv_bind (clear_unique_for_record env (del_namespace op) (del_collection op) (rec_id r)) (\<lambda>_.
             kv_return True)))))"

section \<open>Events, references, evidence and migrations\<close>

definition kv_event :: "append_event_op \<Rightarrow> u64 \<Rightarrow> event_record" where
  "kv_event op sequence =
     (let event_id = clean_key (ae_stream op) @ ''-'' @ show_nat (unat sequence)
      in \<lparr>ev_event_id = event_id, ev_stream = ae_stream op, ev_event_type = ae_event_type op,
          ev_subject_entity = ae_subject_entity op, ev_subject_id = ae_subject_id op,
          ev_data = ae_data op, ev_envelope = event_envelope op event_id,
          ev_sequence = sequence, ev_occurred_at = ae_occurred_at op\<rparr>)"

definition kv_append_event :: "'s kv_env \<Rightarrow> append_event_op \<Rightarrow> ('s, event_record) kv" where
  "kv_append_event env op =
     (let ns = ae_namespace op; seq_key = evseq_key ns (ae_stream op)
      in kv_bind (write_schema_version env ns) (\<lambda>_.
         kv_bind (kv_get env seq_key) (\<lambda>v.
         kv_bind (kv_lift (case v of Some bytes \<Rightarrow> decode_u64 bytes | None \<Rightarrow> Ok 0)) (\<lambda>last.
         kv_bind (kv_lift (u64_succ last)) (\<lambda>sequence.
         kv_bind (kv_lift (encode_json (ke_encode_event env (kv_event op sequence)))) (\<lambda>encoded.
         kv_bind (kv_set env (event_key ns (ae_stream op) sequence) encoded) (\<lambda>_.
         kv_bind (kv_set env seq_key (u64_le sequence)) (\<lambda>_.
         kv_return (kv_event op sequence)))))))))"

definition kv_get_external_refs ::
  "'s kv_env \<Rightarrow> provider_namespace \<Rightarrow> string \<Rightarrow> string \<Rightarrow> string \<Rightarrow> ('s, external_ref list) kv" where
  "kv_get_external_refs env ns collection entity i =
     kv_bind (kv_get env (kv_subject_key ns ''xref'' collection entity i)) (\<lambda>v.
     case v of
       None \<Rightarrow> kv_return []
     | Some bytes \<Rightarrow> kv_lift (decode_json (ke_decode_refs env bytes)))"

definition kv_get_evidence ::
  "'s kv_env \<Rightarrow> provider_namespace \<Rightarrow> string \<Rightarrow> string \<Rightarrow> string \<Rightarrow> ('s, json list) kv" where
  "kv_get_evidence env ns collection entity i =
     kv_bind (kv_get env (kv_subject_key ns ''evid'' collection entity i)) (\<lambda>v.
     case v of
       None \<Rightarrow> kv_return []
     | Some bytes \<Rightarrow> kv_lift (decode_json (ke_decode_values env bytes)))"

definition kv_store_evidence :: "'s kv_env \<Rightarrow> store_evidence_op \<Rightarrow> ('s, unit) kv" where
  "kv_store_evidence env op =
     (let key = kv_subject_key (sv_namespace op) ''evid'' (sv_collection op) (sv_entity op) (sv_id op)
      in kv_bind (kv_get env key) (\<lambda>v.
         kv_bind (kv_lift (case v of None \<Rightarrow> Ok [] | Some bytes \<Rightarrow> decode_json (ke_decode_values env bytes)))
           (\<lambda>existing.
         kv_bind (kv_lift (encode_json (ke_encode_values env (existing @ [sv_evidence op])))) (\<lambda>encoded.
         kv_set env key encoded))))"

definition kv_record_migration :: "'s kv_env \<Rightarrow> provider_namespace \<Rightarrow> string \<Rightarrow> ('s, unit) kv" where
  "kv_record_migration env ns i = kv_set env (migration_key ns i) (utf8_bytes i)"

fun record_entries ::
  "'s kv_env \<Rightarrow> (string \<times> string) list \<Rightarrow> applied_migrations \<Rightarrow> applied_migrations sorx_result" where
  "record_entries env [] ap = Ok ap"
| "record_entries env ((k, v) # rest) ap =
     (case utf8_id env ''a migration ledger entry is not UTF-8: '' v of
        Err e \<Rightarrow> Err e
      | Ok i \<Rightarrow> record_entries env rest (snd (applied_record ap i)))"

definition kv_load_migrations :: "'s kv_env \<Rightarrow> provider_namespace \<Rightarrow> ('s, applied_migrations) kv" where
  "kv_load_migrations env ns =
     (case child_range ns [''migrations''] of
        (a, b) \<Rightarrow> kv_bind (kv_scan env a b) (\<lambda>kvs. kv_lift (record_entries env kvs applied_default)))"

end
