(* ===== verification/Kv_Keys.thy ===== *)
theory Kv_Keys
  imports Kv_Store "HOL-Library.Sublist"
begin

text \<open>
  The keyspace of \<^verbatim>\<open>kv.rs\<close>: encodings are injective, keys of different kinds and different
  namespaces are different, and a range scan reaches exactly the keys below its prefix.
\<close>

section \<open>Bytes\<close>

lemma code_less_256: "code c < 256"
  using of_char_mod_256 [of c] by (metis mod_less_divisor zero_less_numeral)

lemma char_eq_iff_code: "c = d \<longleftrightarrow> code c = code d" for c d :: char
  by (simp add: of_char_eq_iff)

lemma utf8_append [simp]: "utf8_bytes (s @ t) = utf8_bytes s @ utf8_bytes t"
  by (induction s) auto

lemma high_bytes:
  assumes "\<not> code c < 128"
  shows "code c div 64 = 2 \<or> code c div 64 = 3" and "(192 + code c div 64) mod 256 = 192 + code c div 64"
    and "(128 + code c mod 64) mod 256 = 128 + code c mod 64"
proof -
  show "code c div 64 = 2 \<or> code c div 64 = 3" using assms code_less_256 [of c] by linarith
  then show "(192 + code c div 64) mod 256 = 192 + code c div 64" by auto
  have "code c mod 64 < 64" by simp
  then show "(128 + code c mod 64) mod 256 = 128 + code c mod 64" by (intro mod_less) linarith
qed

lemma utf8_slash_free [simp]: "CHR ''/'' \<notin> set s \<Longrightarrow> CHR ''/'' \<notin> set (utf8_bytes s)"
  by (induction s) (auto simp: char_eq_iff_code high_bytes)

lemma utf8_decode_bytes [simp]: "utf8_decode (utf8_bytes s) = Some s"
proof (induction s)
  case (Cons c s)
  show ?case
  proof (cases "code c < 128")
    case False
    have eq: "(code c div 64) * 64 + code c mod 64 = code c" by simp
    have "char_of (code c) = c" by simp
    with Cons high_bytes [OF False] eq False show ?thesis
      by (auto simp del: char_of_char)
  qed (use Cons in simp)
qed simp

lemma utf8_eq_iff [simp]: "utf8_bytes s = utf8_bytes t \<longleftrightarrow> s = t"
  by (metis option.inject utf8_decode_bytes)

lemma length_le_bytes [simp]: "length (to_le_bytes k n) = k"
  by (induction k arbitrary: n) auto

lemma from_to_le_bytes: "n < 256 ^ k \<Longrightarrow> from_le_bytes (to_le_bytes k n) = n"
proof (induction k arbitrary: n)
  case (Suc k)
  then have "n div 256 < 256 ^ k" by (simp add: less_mult_imp_div_less mult.commute)
  with Suc.IH show ?case by simp
qed simp

lemma decode_u64_le [simp]: "decode_u64 (u64_le n) = Ok n"
proof -
  have "unat n < 256 ^ 8" using unsigned_less [of n] by simp
  then show ?thesis by (simp add: decode_u64_def u64_le_def from_to_le_bytes)
qed

section \<open>Segments\<close>

lemma slash_free_clean [simp]: "CHR ''/'' \<notin> set (clean_key s)"
  by (auto simp: clean_key_def replace_chars_def)

lemma slash_free_clean_segment [simp]: "CHR ''/'' \<notin> set (provider_clean_segment s)"
  by (auto simp: provider_clean_segment_def replace_chars_def)

definition slash_free :: "string list \<Rightarrow> bool" where
  "slash_free segs \<longleftrightarrow> (\<forall>s\<in>set segs. CHR ''/'' \<notin> set s)"

lemma slash_free_simps [simp]:
  "slash_free []" "slash_free (s # ss) \<longleftrightarrow> CHR ''/'' \<notin> set s \<and> slash_free ss"
  by (auto simp: slash_free_def)

definition ns_segments :: "provider_namespace \<Rightarrow> string list" where
  "ns_segments ns = [provider_clean_segment (ns_tenant_id ns), provider_clean_segment (ns_sor_name ns)]"

lemma slash_free_ns [simp]: "slash_free (ns_segments ns)"
  by (simp add: ns_segments_def)

lemma kv_segments_append [simp]: "kv_segments (ss @ ts) = kv_segments ss @ kv_segments ts"
  by (induction ss) auto

lemma kv_join_segments: "kv_join ns segs = ''sorx'' @ kv_segments (ns_segments ns @ segs)"
  by (simp add: kv_join_def key_prefix_def ns_segments_def)

lemma kv_segments_head: "kv_segments ss = [] \<or> hd (kv_segments ss) = CHR ''/''"
  by (cases ss) auto

lemma hd_kv_segments: "kv_segments ss \<noteq> [] \<Longrightarrow> hd (kv_segments ss) = CHR ''/''"
  using kv_segments_head by blast

lemma split_at_slash:
  assumes "CHR ''/'' \<notin> set a" "CHR ''/'' \<notin> set b"
    and "x = [] \<or> hd x = CHR ''/''" "y = [] \<or> hd y = CHR ''/''"
  shows "a @ x = b @ y \<longleftrightarrow> a = b \<and> x = y"
proof
  assume eq: "a @ x = b @ y"
  have "takeWhile ((\<noteq>) (CHR ''/'')) (c @ z) = c"
    if "CHR ''/'' \<notin> set c" "z = [] \<or> hd z = CHR ''/''" for c z
    using that by (induction c) (cases z; auto)+
  with assms eq have "a = b" by metis
  with eq show "a = b \<and> x = y" by simp
qed simp

lemma kv_segments_eq_iff:
  "slash_free ss \<Longrightarrow> slash_free ts \<Longrightarrow> kv_segments ss = kv_segments ts \<longleftrightarrow> ss = ts"
proof (induction ss arbitrary: ts)
  case Nil
  then show ?case by (cases ts) auto
next
  case (Cons s ss)
  show ?case
  proof (cases ts)
    case (Cons t ts')
    with Cons.prems Cons.IH show ?thesis
      by (simp add: split_at_slash kv_segments_head)
  qed simp
qed

text \<open>Keys are equal only when the namespace and every segment are.\<close>

lemma kv_join_eq_iff:
  "slash_free ss \<Longrightarrow> slash_free ts \<Longrightarrow>
   kv_join m ss = kv_join n ts \<longleftrightarrow> ns_segments m = ns_segments n \<and> ss = ts"
proof -
  assume "slash_free ss" "slash_free ts"
  then have "slash_free (ns_segments m @ ss)" "slash_free (ns_segments n @ ts)"
    by (auto simp: ns_segments_def)
  moreover have "length (ns_segments m) = length (ns_segments n)" by (simp add: ns_segments_def)
  ultimately show ?thesis
    by (simp add: kv_join_segments kv_segments_eq_iff del: kv_segments_append)
qed

lemmas key_defs = entity_key_def idem_key_def uniq_key_def event_key_def idseq_key_def evseq_key_def
  kv_subject_key_def schema_key_def migration_key_def encode_values_def

lemma show_nat_digits: "c \<in> set (show_nat n) \<Longrightarrow> is_ascii_digit c"
proof (induction n rule: show_nat.induct)
  case (1 n)
  have "n mod 10 < 10" by simp
  then have "(48 + n mod 10) mod 256 = 48 + n mod 10" by (intro mod_less) linarith
  with 1 show ?case
    by (subst (asm) show_nat.simps) (auto simp: is_ascii_digit_def split: if_splits)
qed

lemma slash_free_show_nat [simp]: "CHR ''/'' \<notin> set (show_nat n)"
  using show_nat_digits [of "CHR ''/''" n] by (auto simp: is_ascii_digit_def)

lemma slash_free_pad20 [simp]: "CHR ''/'' \<notin> set (pad20 (show_nat n))"
  by (auto simp: pad20_def)

lemma entity_key_eq_iff [simp]:
  "entity_key m c i = entity_key n d j \<longleftrightarrow>
     ns_segments m = ns_segments n \<and> clean_key c = clean_key d \<and> clean_key i = clean_key j"
  by (simp add: entity_key_def kv_join_eq_iff)

lemma uniq_key_eq_iff:
  "uniq_key env m c x vs = uniq_key env n d y ws \<longleftrightarrow>
     ns_segments m = ns_segments n \<and> clean_key c = clean_key d \<and> clean_key x = clean_key y \<and>
     encode_values env vs = encode_values env ws"
  by (simp add: uniq_key_def encode_values_def kv_join_eq_iff)

lemma kv_join_cong: "ns_segments m = ns_segments n \<Longrightarrow> kv_join m = kv_join n"
  by (simp add: kv_join_segments fun_eq_iff)

text \<open>No other kind of key is an entity key, so record data is changed by record operations only.\<close>

lemma entity_key_others [simp]:
  "entity_key m c i \<noteq> idem_key n d k"
  "entity_key m c i \<noteq> uniq_key env n d x vs"
  "entity_key m c i \<noteq> event_key n st q"
  "entity_key m c i \<noteq> idseq_key n d"
  "entity_key m c i \<noteq> evseq_key n st"
  "entity_key m c i \<noteq> schema_key n"
  "entity_key m c i \<noteq> migration_key n g"
  by (simp_all add: key_defs kv_join_eq_iff)

lemma uniq_key_others [simp]:
  "uniq_key env n d x vs \<noteq> idem_key m c k"
  "uniq_key env n d x vs \<noteq> idseq_key m c"
  "uniq_key env n d x vs \<noteq> schema_key m"
  "uniq_key env n d x vs \<noteq> entity_key m c i"
  by (simp_all add: key_defs kv_join_eq_iff)

lemma idem_key_others [simp]:
  "idem_key m c k \<noteq> schema_key n"
  "idem_key m c k \<noteq> idseq_key n d"
  "idem_key m c k \<noteq> entity_key n d i"
  by (simp_all add: key_defs kv_join_eq_iff)

lemma event_key_others [simp]:
  "evseq_key m st \<noteq> schema_key n"
  "event_key m st q \<noteq> schema_key n"
  "event_key m st q \<noteq> evseq_key n st'"
  by (simp_all add: key_defs kv_join_eq_iff)

section \<open>Range scans\<close>

abbreviation byte_ff :: char where "byte_ff \<equiv> char_of (255 :: nat)"

lemma prefix_end_rev_ff: "prefix_end_rev (replicate m byte_ff @ cs) = prefix_end_rev cs"
  by (induction m) auto

lemma ff_max: "c \<le> byte_ff"
proof -
  have "code c \<le> 255" using code_less_256 [of c] by linarith
  then show ?thesis by (simp add: less_eq_char_def)
qed

lemma replicate_ff_le: "replicate m byte_ff \<le> k \<longleftrightarrow> prefix (replicate m byte_ff) k"
proof (induction m arbitrary: k)
  case (Suc m)
  show ?case
  proof (cases k)
    case (Cons c k')
    have "\<not> byte_ff < c" using ff_max [of c] by simp
    with Suc Cons show ?thesis by auto
  qed simp
qed simp

lemma code_succ: "c \<noteq> byte_ff \<Longrightarrow> code (char_of (Suc (code c)) :: char) = Suc (code c)"
proof -
  assume "c \<noteq> byte_ff"
  then have "code c \<noteq> 255" by (simp add: char_eq_iff_code)
  then have "Suc (code c) < 256" using code_less_256 [of c] by linarith
  then show ?thesis by (simp add: mod_less)
qed

lemma range_below:
  assumes "c \<noteq> byte_ff"
  shows "c # replicate m byte_ff \<le> k \<and> k < [char_of (code c + 1)] \<longleftrightarrow> prefix (c # replicate m byte_ff) k"
proof (cases k)
  case (Cons d k')
  have lt: "d < char_of (code c + 1) \<longleftrightarrow> d \<le> c"
    using code_succ [OF assms] by (simp add: less_char_def less_eq_char_def less_Suc_eq_le del: of_char_of)
  consider "d < c" | "d = c" | "c < d" by (rule linorder_cases)
  then show ?thesis
    by cases (use lt replicate_ff_le [of m k'] in \<open>auto simp: Cons\<close>)
qed simp

lemma range_cons:
  "q @ p \<le> k \<and> k < q @ e \<longleftrightarrow> prefix (q @ p) k" if "\<And>k :: string. p \<le> k \<and> k < e \<longleftrightarrow> prefix p k"
proof (induction q arbitrary: k)
  case (Cons x q)
  show ?case
  proof (cases k)
    case (Cons y k')
    show ?thesis using Cons.IH [of k'] by (cases "x = y") (auto simp: Cons)
  qed simp
qed (use that in simp)

text \<open>A byte string with a byte other than \<^verbatim>\<open>0xff\<close>, cut at the last such byte.\<close>

lemma split_last_non_ff:
  assumes "list_ex (\<lambda>c. c \<noteq> byte_ff) p"
  obtains q c m where "p = q @ c # replicate m byte_ff" and "c \<noteq> byte_ff"
proof -
  let ?l = "takeWhile (\<lambda>c. c = byte_ff) (rev p)" and ?r = "dropWhile (\<lambda>c. c = byte_ff) (rev p)"
  have ne: "?r \<noteq> []" using assms by (auto simp: list_ex_iff dropWhile_eq_Nil_conv)
  have "?l = replicate (length ?l) byte_ff"
    by (rule sym, rule replicate_length_same) (auto dest: set_takeWhileD)
  then obtain m where l: "?l = replicate m byte_ff" ..
  obtain c r where r: "?r = c # r" using ne by (cases ?r) auto
  have "rev p = replicate m byte_ff @ c # r"
    using takeWhile_dropWhile_id [of "\<lambda>c. c = byte_ff" "rev p"] by (simp only: l r)
  then have "rev (rev p) = rev r @ c # replicate m byte_ff" by simp
  moreover have "c \<noteq> byte_ff" using hd_dropWhile [OF ne] by (simp add: r)
  ultimately show thesis using that by simp
qed

lemma range_exact:
  assumes "list_ex (\<lambda>c. c \<noteq> byte_ff) p"
  shows "p \<le> k \<and> k < prefix_end p \<longleftrightarrow> prefix p k"
proof -
  obtain q c m where p: "p = q @ c # replicate m byte_ff" and c: "c \<noteq> byte_ff"
    using split_last_non_ff [OF assms] .
  have "prefix_end p = q @ [char_of (code c + 1)]"
    using c by (simp add: p prefix_end_def prefix_end_rev_ff)
  then show ?thesis using range_cons [OF range_below [OF c]] by (simp add: p)
qed

lemma segments_prefix_iff:
  "slash_free ss \<Longrightarrow> slash_free ts \<Longrightarrow>
   prefix (kv_segments ss @ ''/'') (kv_segments ts) \<longleftrightarrow> strict_prefix ss ts"
proof (induction ss arbitrary: ts)
  case Nil
  then show ?case by (cases ts) auto
next
  case (Cons s ss)
  show ?case
  proof (cases ts)
    case (Cons t ts')
    have sf: "CHR ''/'' \<notin> set s" "CHR ''/'' \<notin> set t" using Cons.prems Cons by auto
    have "prefix (utf8_bytes s @ kv_segments ss @ ''/'') (utf8_bytes t @ kv_segments ts') \<longleftrightarrow>
        s = t \<and> prefix (kv_segments ss @ ''/'') (kv_segments ts')"
    proof
      assume "prefix (utf8_bytes s @ kv_segments ss @ ''/'') (utf8_bytes t @ kv_segments ts')"
      then obtain z where "utf8_bytes t @ kv_segments ts' = utf8_bytes s @ (kv_segments ss @ ''/'' @ z)"
        by (auto simp: prefix_def)
      then have "utf8_bytes t = utf8_bytes s \<and> kv_segments ts' = kv_segments ss @ ''/'' @ z"
        using sf by (subst (asm) split_at_slash) (auto simp: kv_segments_head hd_append hd_kv_segments)
      then show "s = t \<and> prefix (kv_segments ss @ ''/'') (kv_segments ts')" by simp
    qed simp
    with Cons Cons.prems Cons.IH [of ts'] show ?thesis by (auto simp: strict_prefix_def)
  qed simp
qed

text \<open>A range reaches a key exactly when the key's segments extend the range's.\<close>

lemma child_range_iff:
  assumes "slash_free ss" "slash_free ts"
  shows "fst (child_range n ss) \<le> kv_join m ts \<and> kv_join m ts < snd (child_range n ss) \<longleftrightarrow>
    ns_segments m = ns_segments n \<and> strict_prefix ss ts"
proof -
  let ?p = "kv_join n ss @ ''/''"
  have "fst (child_range n ss) \<le> kv_join m ts \<and> kv_join m ts < snd (child_range n ss) \<longleftrightarrow> prefix ?p (kv_join m ts)"
    unfolding child_range_def Let_def fst_conv snd_conv by (rule range_exact) (simp add: char_eq_iff_code)
  also have "\<dots> \<longleftrightarrow> prefix (kv_segments (ns_segments n @ ss) @ ''/'') (kv_segments (ns_segments m @ ts))"
    by (simp add: kv_join_segments)
  also have "\<dots> \<longleftrightarrow> strict_prefix (ns_segments n @ ss) (ns_segments m @ ts)"
    using assms by (intro segments_prefix_iff) (auto simp: ns_segments_def)
  also have "\<dots> \<longleftrightarrow> ns_segments m = ns_segments n \<and> strict_prefix ss ts"
    by (auto simp: ns_segments_def)
  finally show ?thesis .
qed

end
