(* ===== verification/Kv_Laws.thy ===== *)
theory Kv_Laws
  imports Kv_Keys
begin

text \<open>
  The contract of \<^verbatim>\<open>KvTxn\<close> and what the operations of \<^verbatim>\<open>kv.rs\<close> do to a transaction that meets
  it. \<open>view\<close> is the mapping from keys to values that a transaction sees; nothing is promised about
  a call that fails, because the transaction is then rolled back.
\<close>

named_theorems kv_simps "runs of the monadic combinators"

lemma kv_return_iff [kv_simps]: "kv_return x s = (Ok y, s') \<longleftrightarrow> y = x \<and> s' = s"
  by (auto simp: kv_return_def)

lemma kv_fail_iff [kv_simps]: "kv_fail e s \<noteq> (Ok y, s')"
  by (simp add: kv_fail_def)

lemma kv_lift_iff [kv_simps]: "kv_lift r s = (Ok y, s') \<longleftrightarrow> r = Ok y \<and> s' = s"
  by (auto simp: kv_lift_def)

lemma kv_bind_iff [kv_simps]:
  "kv_bind m f s = (Ok y, s') \<longleftrightarrow> (\<exists>x s1. m s = (Ok x, s1) \<and> f x s1 = (Ok y, s'))"
  by (auto simp: kv_bind_def split: prod.splits sum.splits)

lemma decode_json_iff [simp]: "decode_json r = Ok x \<longleftrightarrow> r = Ok x"
  by (cases r) (auto simp: decode_json_def)

lemma encode_json_iff [simp]: "encode_json r = Ok x \<longleftrightarrow> r = Ok x"
  by (cases r) (auto simp: encode_json_def)

locale kv_transaction =
  fixes env :: "'s kv_env" and view :: "'s \<Rightarrow> string \<rightharpoonup> string"
  assumes get_law: "kv_get env k s = (Ok v, s') \<Longrightarrow> v = view s k \<and> view s' = view s"
    and set_law: "kv_set env k w s = (Ok u, s') \<Longrightarrow> view s' = (view s)(k \<mapsto> w)"
    and clear_law: "kv_clear env k s = (Ok u, s') \<Longrightarrow> view s' = (view s)(k := None)"
    and scan_law: "kv_scan env a b s = (Ok kvs, s') \<Longrightarrow>
      view s' = view s \<and> sorted_wrt (<) (map fst kvs) \<and>
      (\<forall>k w. (k, w) \<in> set kvs \<longleftrightarrow> a \<le> k \<and> k < b \<and> view s k = Some w)"
begin

text \<open>\<open>writes K m\<close>: a successful run of \<open>m\<close> changes no key outside \<open>K\<close>.\<close>

definition writes :: "string set \<Rightarrow> ('s, 'a) kv \<Rightarrow> bool" where
  "writes K m \<longleftrightarrow> (\<forall>s x s'. m s = (Ok x, s') \<longrightarrow> (\<forall>k. k \<notin> K \<longrightarrow> view s' k = view s k))"

lemma writesD: "writes K m \<Longrightarrow> m s = (Ok x, s') \<Longrightarrow> k \<notin> K \<Longrightarrow> view s' k = view s k"
  by (auto simp: writes_def)

lemma writes_bind: "writes K m \<Longrightarrow> (\<And>x. writes K (f x)) \<Longrightarrow> writes K (kv_bind m f)"
  unfolding writes_def by (metis kv_bind_iff)

lemma writes_pure: "writes K (kv_return x)" "writes K (kv_fail e)" "writes K (kv_lift r)"
  by (auto simp: writes_def kv_simps)

lemma writes_get: "writes K (kv_get env k)"
  by (auto simp: writes_def dest: get_law)

lemma writes_scan: "writes K (kv_scan env a b)"
  by (auto simp: writes_def dest: scan_law)

lemma writes_set: "k \<in> K \<Longrightarrow> writes K (kv_set env k w)"
  by (auto simp: writes_def dest: set_law)

lemma writes_clear: "k \<in> K \<Longrightarrow> writes K (kv_clear env k)"
  by (auto simp: writes_def dest: clear_law)

lemma writes_mono: "writes K m \<Longrightarrow> K \<subseteq> L \<Longrightarrow> writes L m"
  unfolding writes_def by (meson subsetD)

lemmas writes_intros = writes_bind writes_pure writes_get writes_scan writes_set writes_clear

lemma writes_schema: "schema_key ns \<in> K \<Longrightarrow> writes K (write_schema_version env ns)"
  unfolding write_schema_version_def by (auto intro!: writes_intros)

lemma writes_scan_entities: "writes K (scan_entities env ns c)"
  unfolding scan_entities_def by (auto intro!: writes_intros split: prod.splits)

text \<open>The id found is the first above the counter whose record does not exist.\<close>

lemma next_free_Ok:
  assumes "next_free_id env ns c n s = (Ok i, s')"
  shows "\<exists>m. n < m \<and> i = auto_id c m \<and> view s (entity_key ns c i) = None \<and>
    view s' = (view s)(idseq_key ns c \<mapsto> u64_le m) \<and>
    (\<forall>j. n < j \<longrightarrow> j < m \<longrightarrow> view s (entity_key ns c (auto_id c j)) \<noteq> None)"
  using assms
proof (induction "unat (- 1 - n)" arbitrary: n s rule: less_induct)
  case less
  let ?k = "entity_key ns c (auto_id c (n + 1))"
  have n: "n \<noteq> - 1" using less.prems by (subst (asm) next_free_id.simps) auto
  have lt: "n < n + 1" using n by (metis inc_less_eq_self_iff_eq not_le)
  have mono: "j = n + 1 \<or> n + 1 < j" if "n < j" for j using inc_le [OF that] by (metis order_le_less)
  obtain v s1 where get: "kv_get env ?k s = (Ok v, s1)"
    using less.prems n by (subst (asm) next_free_id.simps) (auto split: prod.splits sum.splits)
  note laws = get_law [OF get]
  show ?case
  proof (cases v)
    case None
    have "kv_bind (kv_set env (idseq_key ns c) (u64_le (n + 1))) (\<lambda>_. kv_return (auto_id c (n + 1))) s1 = (Ok i, s')"
      using less.prems n get None by (subst (asm) next_free_id.simps) auto
    then have "view s' = (view s1)(idseq_key ns c \<mapsto> u64_le (n + 1)) \<and> i = auto_id c (n + 1)"
      by (auto simp: kv_simps dest: set_law)
    moreover have "\<not> j < n + 1" if "n < j" for j using mono [OF that] by auto
    ultimately show ?thesis using laws None lt by (intro exI [of _ "n + 1"]) auto
  next
    case (Some w)
    have "next_free_id env ns c (n + 1) s1 = (Ok i, s')"
      using less.prems n get Some by (subst (asm) next_free_id.simps) auto
    from less.hyps [OF u64_gap_decreases [OF n] this]
    obtain m where m: "n + 1 < m" "i = auto_id c m" "view s1 (entity_key ns c i) = None"
      "view s' = (view s1)(idseq_key ns c \<mapsto> u64_le m)"
      and taken: "\<And>j. n + 1 < j \<Longrightarrow> j < m \<Longrightarrow> view s1 (entity_key ns c (auto_id c j)) \<noteq> None"
      by blast
    have "view s (entity_key ns c (auto_id c j)) \<noteq> None" if "n < j" "j < m" for j
      using mono [OF that(1)] taken [OF _ that(2)] laws Some by (cases "j = n + 1") (auto dest: sym)
    moreover have "n < m" using lt m(1) by (rule less_trans)
    ultimately show ?thesis using m laws by auto
  qed
qed

lemma next_auto_Ok:
  assumes "next_auto_id env ns c s = (Ok i, s')"
  shows "view s (entity_key ns c i) = None"
    and "\<exists>w. view s' = (view s)(idseq_key ns c \<mapsto> w)"
proof -
  obtain v s1 n s2 where get: "kv_get env (idseq_key ns c) s = (Ok v, s1)"
    and seed: "(case v of Some bytes \<Rightarrow> kv_lift (decode_u64 bytes)
        | None \<Rightarrow> kv_bind (scan_entities env ns c) (\<lambda>rs. kv_return (of_nat (length rs)))) s1 = (Ok n, s2)"
    and free: "next_free_id env ns c n s2 = (Ok i, s')"
    using assms by (auto simp: next_auto_id_def kv_simps)
  have "writes {} (case v of Some bytes \<Rightarrow> kv_lift (decode_u64 bytes)
        | None \<Rightarrow> kv_bind (scan_entities env ns c) (\<lambda>rs. kv_return (of_nat (length rs))))"
    by (auto intro!: writes_intros writes_scan_entities split: option.splits)
  from writesD [OF this seed] get_law [OF get] have "view s2 = view s" by (auto simp: fun_eq_iff)
  with next_free_Ok [OF free] show "view s (entity_key ns c i) = None"
    and "\<exists>w. view s' = (view s)(idseq_key ns c \<mapsto> w)" by auto
qed

lemma writes_next_auto: "idseq_key ns c \<in> K \<Longrightarrow> writes K (next_auto_id env ns c)"
  using next_auto_Ok(2) by (fastforce simp: writes_def)

definition uniq_keys :: "string set" where
  "uniq_keys = {k. \<exists>n c x vs. k = uniq_key env n c x vs}"

lemma uniq_key_in [simp]: "uniq_key env n c x vs \<in> uniq_keys"
  by (auto simp: uniq_keys_def)

definition coll_uniq :: "provider_namespace \<Rightarrow> string \<Rightarrow> string set" where
  "coll_uniq n c = {k. \<exists>x vs. k = uniq_key env n c x vs}"

lemma coll_uniq_in [simp]: "uniq_key env n c x vs \<in> coll_uniq n c"
  by (auto simp: coll_uniq_def)

lemma coll_uniq_subset: "k \<in> coll_uniq n c \<Longrightarrow> k \<in> uniq_keys"
  by (auto simp: coll_uniq_def)

lemma uniq_keys_others [simp]:
  "entity_key n c i \<notin> uniq_keys" "idem_key n c k \<notin> uniq_keys" "idseq_key n c \<notin> uniq_keys"
  "schema_key n \<notin> uniq_keys"
  by (auto simp: uniq_keys_def dest: sym)

lemma writes_find_conflict: "writes K (kv_find_unique_conflict env ns c ixs data cur)"
proof (induction ixs)
  case (Cons ix ixs)
  then show ?case
    by (auto intro!: writes_intros split: option.splits)
qed (simp add: writes_pure)

lemma writes_unique_keys: "uniq_keys \<subseteq> K \<Longrightarrow> writes K (write_unique_keys env ns c ixs r)"
proof (induction ixs)
  case (Cons ix ixs)
  have "uniq_key env ns c (ui_id ix) vs \<in> K" for vs using Cons.prems uniq_key_in by blast
  with Cons show ?case
    by (auto intro!: writes_intros split: option.splits)
qed (simp add: writes_pure)

lemma writes_release: "uniq_keys \<subseteq> K \<Longrightarrow> writes K (release_changed env ns c r data ixs)"
proof (induction ixs)
  case (Cons ix ixs)
  have "uniq_key env ns c (ui_id ix) vs \<in> K" for vs using Cons.prems uniq_key_in by blast
  with Cons show ?case
    by (auto intro!: writes_intros split: option.splits)
qed (simp add: writes_pure)

section \<open>Creation\<close>

lemma get_same: "kv_get env k s = (Ok v, s') \<Longrightarrow> view s' = view s"
  by (drule get_law) simp

lemma find_conflict_view: "kv_find_unique_conflict env ns c ixs data cur s = (Ok u, s') \<Longrightarrow> view s' = view s"
  using writesD [OF writes_find_conflict [of "{}"]] by (auto simp: fun_eq_iff)

text \<open>One index: either the search goes on and the indexed value is unowned, owned by the record
  itself or owned by a record that no longer exists, or a stored record is the conflict.\<close>

definition index_free :: "'s \<Rightarrow> provider_namespace \<Rightarrow> string \<Rightarrow> string option \<Rightarrow> json \<Rightarrow> unique_index \<Rightarrow> bool" where
  "index_free s ns c cur data x \<longleftrightarrow>
     (\<forall>vs i. index_values data (ui_fields x) = Some vs \<longrightarrow>
        view s (uniq_key env ns c (ui_id x) vs) = Some (utf8_bytes i) \<longrightarrow>
        cur = Some i \<or> view s (entity_key ns c i) = None)"

lemma find_conflict_step:
  assumes "kv_find_unique_conflict env ns c (x # ixs) data cur s = (Ok u, s')"
  shows "(\<exists>s1. view s1 = view s \<and> kv_find_unique_conflict env ns c ixs data cur s1 = (Ok u, s') \<and>
            index_free s ns c cur data x) \<or>
         (\<exists>i b w. u = Some w \<and> view s (entity_key ns c i) = Some b \<and> ke_decode_record env b = Ok (uc_record w))"
proof (cases "index_values data (ui_fields x)")
  case None
  with assms show ?thesis by (auto simp: index_free_def)
next
  case (Some vs)
  obtain v s1 where get: "kv_get env (uniq_key env ns c (ui_id x) vs) s = (Ok v, s1)"
    using assms Some by (auto simp: kv_simps)
  note g = get_law [OF get]
  show ?thesis
  proof (cases v)
    case None
    with assms Some get g show ?thesis by (auto simp: kv_simps index_free_def)
  next
    case own: (Some ob)
    obtain j where j: "utf8_decode ob = Some j"
      using assms Some get own by (auto simp: kv_simps utf8_id_def split: option.splits)
    have owner: "i = j" if "view s (uniq_key env ns c (ui_id x) vs) = Some (utf8_bytes i)" for i
      using that j g own by auto
    show ?thesis
    proof (cases "cur = Some j")
      case True
      then have "index_free s ns c cur data x" using Some owner by (auto simp: index_free_def)
      moreover have "kv_find_unique_conflict env ns c ixs data cur s1 = (Ok u, s')"
        using assms Some get own j True by (simp add: kv_simps utf8_id_def)
      ultimately show ?thesis using g by auto
    next
      case False
      obtain f s2 where getf: "kv_get env (entity_key ns c j) s1 = (Ok f, s2)"
        using assms Some get own j False by (auto simp: kv_simps utf8_id_def)
      note gf = get_law [OF getf]
      show ?thesis
      proof (cases f)
        case None
        then have "index_free s ns c cur data x" using Some owner g gf by (auto simp: index_free_def)
        moreover have "kv_find_unique_conflict env ns c ixs data cur s2 = (Ok u, s')"
          using assms \<open>index_values data (ui_fields x) = Some vs\<close> get own j False getf None
          by (simp add: kv_simps utf8_id_def)
        ultimately show ?thesis using g gf by auto
      next
        case (Some rb)
        then have "\<exists>r. u = Some \<lparr>uc_index = x, uc_values = vs, uc_record = r\<rparr> \<and> ke_decode_record env rb = Ok r"
          using assms \<open>index_values data (ui_fields x) = Some vs\<close> get own j False getf
          by (auto simp: kv_simps utf8_id_def)
        moreover have "view s (entity_key ns c j) = Some rb" using g gf Some by simp
        ultimately show ?thesis by auto
      qed
    qed
  qed
qed

lemma index_free_view: "view s1 = view s \<Longrightarrow> index_free s1 = index_free s"
  by (simp add: index_free_def fun_eq_iff)

lemma no_conflict:
  "kv_find_unique_conflict env ns c ixs data cur s = (Ok None, s') \<Longrightarrow> list_all (index_free s ns c cur data) ixs"
proof (induction ixs arbitrary: s)
  case (Cons x ixs)
  from find_conflict_step [OF Cons.prems] obtain s1 where v: "view s1 = view s"
    and "kv_find_unique_conflict env ns c ixs data cur s1 = (Ok None, s')"
    and "index_free s ns c cur data x" by blast
  with Cons.IH [of s1] index_free_view [OF v] show ?case by simp
qed simp

lemma conflict_stored:
  "kv_find_unique_conflict env ns c ixs data cur s = (Ok (Some w), s') \<Longrightarrow>
   \<exists>i b. view s (entity_key ns c i) = Some b \<and> ke_decode_record env b = Ok (uc_record w)"
proof (induction ixs arbitrary: s)
  case (Cons x ixs)
  from find_conflict_step [OF Cons.prems] show ?case
  proof (elim disjE exE conjE)
    fix s1
    assume "view s1 = view s" and "kv_find_unique_conflict env ns c ixs data cur s1 = (Ok (Some w), s')"
    then show ?thesis using Cons.IH [of s1] by simp
  qed auto
qed (simp add: kv_simps)

text \<open>What a successful creation does: it replays an earlier one, answers with the record that
  holds the unique value, or writes a new record.\<close>

lemma schema_view:
  assumes "write_schema_version env ns s = (Ok u, s')" and "k \<noteq> schema_key ns"
  shows "view s' k = view s k"
  using writesD [OF writes_schema [of ns "{schema_key ns}"] assms(1)] assms(2) by simp

lemma create_cases:
  assumes "kv_create env op s = (Ok r, s')"
  obtains (replayed) k b where "cr_idempotency_key op = Some k"
      "view s (idem_key (cr_namespace op) (cr_collection op) k) = Some b" "ke_decode_record env b = Ok r"
      "\<And>k. k \<noteq> schema_key (cr_namespace op) \<Longrightarrow> view s' k = view s k"
  | (existing) i b where "view s (entity_key (cr_namespace op) (cr_collection op) i) = Some b"
      "ke_decode_record env b = Ok r"
      "\<And>k. k \<noteq> schema_key (cr_namespace op) \<Longrightarrow> k \<noteq> idseq_key (cr_namespace op) (cr_collection op) \<Longrightarrow>
         view s' k = view s k"
  | (created) i s1 s2 where
      "\<And>k. k \<noteq> schema_key (cr_namespace op) \<Longrightarrow> k \<noteq> idseq_key (cr_namespace op) (cr_collection op) \<Longrightarrow>
         view s1 k = view s k"
      "value_id (cr_input op) = Some i \<or>
         value_id (cr_input op) = None \<and> view s (entity_key (cr_namespace op) (cr_collection op) i) = None"
      "list_all (index_free s1 (cr_namespace op) (cr_collection op) None
         (JObj (bt_insert ''id'' (JStr i) (object_clone (cr_input op))))) (cr_unique_indexes op)"
      "view s2 = view s1"
      "kv_write_created env op i (JObj (bt_insert ''id'' (JStr i) (object_clone (cr_input op)))) s2 = (Ok r, s')"
proof -
  let ?ns = "cr_namespace op" and ?c = "cr_collection op"
  let ?id = "case value_id (cr_input op) of Some i \<Rightarrow> kv_return i | None \<Rightarrow> next_auto_id env ?ns ?c"
  let ?data = "\<lambda>i. JObj (bt_insert ''id'' (JStr i) (object_clone (cr_input op)))"
  obtain u sa e sb where schema: "write_schema_version env ?ns s = (Ok u, sa)"
    and earlier: "(case cr_idempotency_key op of
        Some k \<Rightarrow> kv_get env (idem_key ?ns ?c k) | None \<Rightarrow> kv_return None) sa = (Ok e, sb)"
    and rest: "(case e of Some bytes \<Rightarrow> kv_lift (decode_json (ke_decode_record env bytes))
       | None \<Rightarrow> kv_create_new env op) sb = (Ok r, s')"
    using assms by (auto simp: kv_create_def kv_simps)
  note sv = schema_view [OF schema]
  have sb: "view sb = view sa"
    using earlier by (auto simp: kv_simps split: option.splits dest: get_law)
  show thesis
  proof (cases e)
    case (Some b)
    then obtain k where k: "cr_idempotency_key op = Some k" "view sa (idem_key ?ns ?c k) = Some b"
      using earlier by (auto simp: kv_simps split: option.splits dest: get_law)
    have "s' = sb" "ke_decode_record env b = Ok r" using rest Some by (auto simp: kv_simps)
    with k sb sv show thesis by (intro replayed [of k b]) auto
  next
    case None
    obtain i s1 w s2 where i: "?id sb = (Ok i, s1)"
      and w: "kv_find_unique_conflict env ?ns ?c (cr_unique_indexes op) (?data i) None s1 = (Ok w, s2)"
      and fin: "(case w of Some c \<Rightarrow>
            if cr_unique_behavior op = ReturnExisting (ui_id (uc_index c)) (ui_fields (uc_index c))
            then kv_return (uc_record c) else kv_fail (unique_conflict_error (uc_index c) (uc_values c))
          | None \<Rightarrow> kv_write_created env op i (?data i)) s2 = (Ok r, s')"
      using rest None by (auto simp: kv_create_new_def Let_def kv_simps)
    have s1: "view s1 k = view s k" if "k \<noteq> schema_key ?ns" "k \<noteq> idseq_key ?ns ?c" for k
      using i that sv [OF that(1)] sb by (auto simp: kv_simps split: option.splits dest!: next_auto_Ok(2))
    have idc: "value_id (cr_input op) = Some i \<or>
        value_id (cr_input op) = None \<and> view s (entity_key ?ns ?c i) = None"
      using i sb sv by (auto simp: kv_simps split: option.splits dest!: next_auto_Ok(1))
    note s2 = find_conflict_view [OF w]
    show thesis
    proof (cases w)
      case None
      then have "list_all (index_free s1 ?ns ?c None (?data i)) (cr_unique_indexes op)"
        using no_conflict w by simp
      with s1 idc s2 fin None show thesis by (intro created [of s1 i s2]) auto
    next
      case (Some cf)
      obtain j b where "view s1 (entity_key ?ns ?c j) = Some b" "ke_decode_record env b = Ok (uc_record cf)"
        using conflict_stored w Some by blast
      moreover have "s' = s2" "r = uc_record cf"
        using fin Some by (auto simp: kv_simps split: if_splits)
      ultimately show thesis using s1 s2 by (intro existing [of j b]) auto
    qed
  qed
qed

section \<open>Unique entries\<close>

definition indexed :: "provider_namespace \<Rightarrow> string \<Rightarrow> unique_index list \<Rightarrow> json \<Rightarrow> string set" where
  "indexed ns c ixs data =
     {k. \<exists>ix vs. ix \<in> set ixs \<and> index_values data (ui_fields ix) = Some vs \<and> k = uniq_key env ns c (ui_id ix) vs}"

lemma indexed_simps [simp]:
  "indexed ns c [] data = {}"
  "indexed ns c (ix # ixs) data =
     (case index_values data (ui_fields ix) of None \<Rightarrow> {} | Some vs \<Rightarrow> {uniq_key env ns c (ui_id ix) vs}) \<union>
     indexed ns c ixs data"
  by (auto simp: indexed_def split: option.splits)

lemma indexed_coll: "k \<in> indexed ns c ixs data \<Longrightarrow> k \<in> coll_uniq ns c"
  by (auto simp: indexed_def)

lemma unique_keys_written:
  "write_unique_keys env ns c ixs r s = (Ok u, s') \<Longrightarrow>
   view s' k = (if k \<in> indexed ns c ixs (rec_data r) then Some (utf8_bytes (rec_id r)) else view s k)"
proof (induction ixs arbitrary: s)
  case (Cons ix ixs)
  show ?case
  proof (cases "index_values (rec_data r) (ui_fields ix)")
    case None
    with Cons show ?thesis by simp
  next
    case (Some vs)
    then obtain u1 s1 where "kv_set env (uniq_key env ns c (ui_id ix) vs) (utf8_bytes (rec_id r)) s = (Ok u1, s1)"
      and "write_unique_keys env ns c ixs r s1 = (Ok u, s')"
      using Cons.prems by (auto simp: kv_simps)
    with Cons.IH [of s1] set_law Some show ?thesis by auto
  qed
qed (simp add: kv_simps)

lemma create_written:
  assumes "kv_write_created env op i data s = (Ok r, s')"
  shows "r = \<lparr>rec_entity = cr_entity op, rec_collection = cr_collection op, rec_id = i,
               rec_data = data, rec_version = 1\<rparr>"
    and "\<exists>b. ke_encode_record env r = Ok b \<and>
      view s' (entity_key (cr_namespace op) (cr_collection op) i) = Some b \<and>
      (\<forall>k. cr_idempotency_key op = Some k \<longrightarrow>
         view s' (idem_key (cr_namespace op) (cr_collection op) k) = Some b)"
    and "\<And>k. k \<in> uniq_keys \<Longrightarrow> view s' k =
      (if k \<in> indexed (cr_namespace op) (cr_collection op) (cr_unique_indexes op) data
       then Some (utf8_bytes i) else view s k)"
    and "writes (uniq_keys \<union> {entity_key (cr_namespace op) (cr_collection op) i} \<union>
           {idem_key (cr_namespace op) (cr_collection op) k | k. cr_idempotency_key op = Some k})
         (kv_write_created env op i data)"
proof -
  let ?ns = "cr_namespace op" and ?c = "cr_collection op"
  let ?r = "\<lparr>rec_entity = cr_entity op, rec_collection = ?c, rec_id = i, rec_data = data, rec_version = 1\<rparr>"
  let ?idem = "\<lambda>b. case cr_idempotency_key op of
     Some k \<Rightarrow> kv_set env (idem_key ?ns ?c k) b | None \<Rightarrow> kv_return ()"
  obtain b u1 s1 u2 s2 u3 where enc: "ke_encode_record env ?r = Ok b"
    and set: "kv_set env (entity_key ?ns ?c i) b s = (Ok u1, s1)"
    and idem: "?idem b s1 = (Ok u2, s2)"
    and uniq: "write_unique_keys env ?ns ?c (cr_unique_indexes op) ?r s2 = (Ok u3, s')"
    and r: "r = ?r"
    using assms by (auto simp: kv_write_created_def kv_simps Let_def)
  show "r = ?r" by (rule r)
  have frame: "view s' k = view s2 k" if "k \<notin> uniq_keys" for k
    using writesD [OF writes_unique_keys [OF subset_refl] uniq that] .
  have "view s2 (entity_key ?ns ?c i) = Some b" and
    "\<forall>k. cr_idempotency_key op = Some k \<longrightarrow> view s2 (idem_key ?ns ?c k) = Some b"
    using idem set_law [OF set] by (auto simp: kv_simps split: option.splits dest: set_law)
  then show "\<exists>b. ke_encode_record env r = Ok b \<and> view s' (entity_key ?ns ?c i) = Some b \<and>
      (\<forall>k. cr_idempotency_key op = Some k \<longrightarrow> view s' (idem_key ?ns ?c k) = Some b)"
    using enc r by (simp add: frame)
  have "view s2 k = view s k" if "k \<in> uniq_keys" for k
    using that idem set_law [OF set] uniq_keys_others
    by (auto simp: kv_simps split: option.splits dest!: set_law)
  then show "view s' k = (if k \<in> indexed ?ns ?c (cr_unique_indexes op) data then Some (utf8_bytes i) else view s k)"
    if "k \<in> uniq_keys" for k
    using unique_keys_written [OF uniq] that by simp
  show "writes (uniq_keys \<union> {entity_key ?ns ?c i} \<union>
      {idem_key ?ns ?c k | k. cr_idempotency_key op = Some k}) (kv_write_created env op i data)"
    unfolding kv_write_created_def Let_def
    by (auto intro!: writes_intros writes_unique_keys split: option.splits)
qed

text \<open>\<open>released i K s s'\<close>: the step from \<open>s\<close> to \<open>s'\<close> removes entries of \<open>K\<close> that hold the id \<open>i\<close>.\<close>

definition released :: "string \<Rightarrow> string set \<Rightarrow> 's \<Rightarrow> 's \<Rightarrow> bool" where
  "released i K s s' \<longleftrightarrow>
     (\<forall>k. view s' k = view s k \<or> k \<in> K \<and> view s k = Some (utf8_bytes i) \<and> view s' k = None)"

lemma released_refl: "view s' = view s \<Longrightarrow> released i K s s'"
  by (simp add: released_def)

lemma released_trans: "released i K s s1 \<Longrightarrow> released i K s1 s2 \<Longrightarrow> released i K s s2"
  unfolding released_def by metis

lemma released_clear:
  "k \<in> K \<Longrightarrow> view s k = Some (utf8_bytes i) \<Longrightarrow> kv_clear env k s = (Ok u, s') \<Longrightarrow> released i K s s'"
  by (drule clear_law) (auto simp: released_def)

lemma changed_released:
  "release_changed env ns c r data ixs s = (Ok u, s') \<Longrightarrow> released (rec_id r) (coll_uniq ns c) s s'"
proof (induction ixs arbitrary: s)
  case (Cons ix ixs)
  show ?case
  proof (cases "\<exists>old. index_values (rec_data r) (ui_fields ix) = Some old \<and>
      Some old \<noteq> index_values data (ui_fields ix)")
    case False
    then have "release_changed env ns c r data ixs s = (Ok u, s')"
      using Cons.prems by (auto split: option.splits)
    then show ?thesis by (rule Cons.IH)
  next
    case True
    then obtain old where old: "index_values (rec_data r) (ui_fields ix) = Some old"
      "Some old \<noteq> index_values data (ui_fields ix)" by blast
    let ?k = "uniq_key env ns c (ui_id ix) old"
    obtain v s1 where get: "kv_get env ?k s = (Ok v, s1)"
      using Cons.prems old by (auto simp: kv_simps)
    have step: "(if v = Some (utf8_bytes (rec_id r))
        then kv_bind (kv_clear env ?k) (\<lambda>_. release_changed env ns c r data ixs)
        else release_changed env ns c r data ixs) s1 = (Ok u, s')"
      using Cons.prems old get by (simp add: kv_simps)
    note g = get_law [OF get]
    have s1: "released (rec_id r) (coll_uniq ns c) s s1" using g by (simp add: released_refl)
    show ?thesis
    proof (cases "v = Some (utf8_bytes (rec_id r))")
      case True
      then obtain u2 s2 where clear: "kv_clear env ?k s1 = (Ok u2, s2)"
        and rest: "release_changed env ns c r data ixs s2 = (Ok u, s')"
        using step by (auto simp: kv_simps)
      have "view s1 ?k = Some (utf8_bytes (rec_id r))" using True g by simp
      from released_clear [OF coll_uniq_in this clear] Cons.IH [OF rest] s1 show ?thesis
        by (blast intro: released_trans)
    next
      case False
      with step Cons.IH [of s1] s1 show ?thesis by (auto intro: released_trans)
    qed
  qed
qed (simp add: kv_simps released_refl)

lemma matching_released:
  assumes "clear_matching env i kvs s = (Ok u, s')" and "fst ` set kvs \<subseteq> K"
    and "\<And>k v. (k, v) \<in> set kvs \<Longrightarrow> view s k = Some v" and "distinct (map fst kvs)"
  shows "released i K s s'"
  using assms
proof (induction kvs arbitrary: s)
  case (Cons kv kvs)
  obtain k v where kv: "kv = (k, v)" by fastforce
  show ?case
  proof (cases "v = utf8_bytes i")
    case True
    then obtain u1 s1 where clear: "kv_clear env k s = (Ok u1, s1)"
      and rest: "clear_matching env i kvs s1 = (Ok u, s')"
      using Cons.prems(1) kv by (auto simp: kv_simps)
    have "released i K s s1"
      using clear True Cons.prems(2,3) kv by (intro released_clear [of k]) auto
    moreover have "released i K s1 s'"
    proof (rule Cons.IH [OF rest])
      show "view s1 j = Some w" if "(j, w) \<in> set kvs" for j w
        using that clear_law [OF clear] Cons.prems(3,4) kv by force
    qed (use Cons.prems kv in auto)
    ultimately show ?thesis by (rule released_trans)
  next
    case False
    with Cons.prems kv show ?thesis by (intro Cons.IH) auto
  qed
qed (simp add: kv_simps released_refl)

section \<open>Update and deletion\<close>

lemma update_cases:
  assumes "kv_update env op s = (Ok r', s')"
  obtains b r data b' where
    "view s (entity_key (up_namespace op) (up_collection op) (up_id op)) = Some b"
    "ke_decode_record env b = Ok r"
    "data = JObj (merged_data (rec_data r) (up_patch op) (up_id op))"
    "r' = r\<lparr>rec_data := data, rec_version := rec_version r + 1\<rparr>"
    "list_all (index_free s (up_namespace op) (up_collection op) (Some (up_id op)) data) (up_unique_indexes op)"
    "ke_encode_record env r' = Ok b'"
    "\<exists>s1 s2. released (rec_id r) (coll_uniq (up_namespace op) (up_collection op)) s s1 \<and>
       view s2 = (view s1)(entity_key (up_namespace op) (up_collection op) (up_id op) \<mapsto> b') \<and>
       (\<forall>k. view s' k = (if k \<in> indexed (up_namespace op) (up_collection op) (up_unique_indexes op) data
                         then Some (utf8_bytes (rec_id r)) else view s2 k))"
proof -
  let ?ns = "up_namespace op" and ?c = "up_collection op"
  let ?k = "entity_key ?ns ?c (up_id op)"
  obtain v sa where get: "kv_get env ?k s = (Ok v, sa)"
    using assms by (auto simp: kv_update_def Let_def kv_simps)
  note ga = get_law [OF get]
  obtain b where v: "v = Some b"
    using assms get by (cases v) (auto simp: kv_update_def Let_def kv_simps)
  obtain r where dec: "ke_decode_record env b = Ok r"
    using assms get v by (auto simp: kv_update_def Let_def kv_simps)
  let ?data = "JObj (merged_data (rec_data r) (up_patch op) (up_id op))"
  obtain w sb where w: "kv_find_unique_conflict env ?ns ?c (up_unique_indexes op) ?data (Some (up_id op)) sa = (Ok w, sb)"
    and fin: "(case w of Some x \<Rightarrow> kv_fail (unique_conflict_error (uc_index x) (uc_values x))
       | None \<Rightarrow> kv_write_updated env op r ?data) sb = (Ok r', s')"
    using assms get v dec by (auto simp: kv_update_def Let_def kv_simps)
  have wn: "w = None" using fin by (cases w) (auto simp: kv_simps)
  note gb = find_conflict_view [OF w]
  let ?r = "r\<lparr>rec_data := ?data, rec_version := rec_version r + 1\<rparr>"
  obtain u1 s1 b' u2 s2 u3 where rel: "release_changed env ?ns ?c r ?data (up_unique_indexes op) sb = (Ok u1, s1)"
    and enc: "ke_encode_record env ?r = Ok b'"
    and set: "kv_set env ?k b' s1 = (Ok u2, s2)"
    and uniq: "write_unique_keys env ?ns ?c (up_unique_indexes op) ?r s2 = (Ok u3, s')"
    and r': "r' = ?r"
    using fin wn by (auto simp: kv_write_updated_def Let_def kv_simps)
  have free: "list_all (index_free s ?ns ?c (Some (up_id op)) ?data) (up_unique_indexes op)"
    using no_conflict [of ?ns ?c _ ?data _ sa sb] w wn index_free_view [of sa s] ga by simp
  have "released (rec_id r) (coll_uniq ?ns ?c) s s1"
    using changed_released [OF rel] ga gb by (auto intro: released_trans released_refl)
  moreover note set_law [OF set]
  moreover have "\<forall>k. view s' k = (if k \<in> indexed ?ns ?c (up_unique_indexes op) ?data
      then Some (utf8_bytes (rec_id r)) else view s2 k)"
    using unique_keys_written [OF uniq] by simp
  moreover have "view s ?k = Some b" using ga v by simp
  ultimately show thesis using that [of b r ?data b'] dec r' free enc by blast
qed

lemma delete_cases:
  assumes "kv_delete env op s = (Ok d, s')"
  obtains (absent) "\<not> d" "view s (entity_key (del_namespace op) (del_collection op) (del_id op)) = None"
      "view s' = view s"
  | (deleted) b r s1 where "d"
      "view s (entity_key (del_namespace op) (del_collection op) (del_id op)) = Some b"
      "ke_decode_record env b = Ok r"
      "view s1 = (view s)(entity_key (del_namespace op) (del_collection op) (del_id op) := None)"
      "released (rec_id r) {k. fst (child_range (del_namespace op) [''uniq'', clean_key (del_collection op)]) \<le> k \<and>
          k < snd (child_range (del_namespace op) [''uniq'', clean_key (del_collection op)])} s1 s'"
proof -
  let ?ns = "del_namespace op" and ?c = "del_collection op"
  let ?k = "entity_key ?ns ?c (del_id op)" and ?rg = "child_range ?ns [''uniq'', clean_key ?c]"
  obtain v sa where get: "kv_get env ?k s = (Ok v, sa)"
    using assms by (auto simp: kv_delete_def Let_def kv_simps)
  note ga = get_law [OF get]
  show thesis
  proof (cases v)
    case None
    then have "\<not> d" "s' = sa" using assms get by (auto simp: kv_delete_def Let_def kv_simps)
    then show thesis using absent ga None by simp
  next
    case (Some b)
    obtain r u1 s1 kvs s2 u3 where dec: "ke_decode_record env b = Ok r"
      and clear: "kv_clear env ?k sa = (Ok u1, s1)"
      and scan: "kv_scan env (fst ?rg) (snd ?rg) s1 = (Ok kvs, s2)"
      and match: "clear_matching env (rec_id r) kvs s2 = (Ok u3, s')" and d: "d"
      using assms get Some
      by (auto simp: kv_delete_def clear_unique_for_record_def case_prod_beta Let_def kv_simps)
    note sc = scan_law [OF scan]
    have "released (rec_id r) {k. fst ?rg \<le> k \<and> k < snd ?rg} s2 s'"
    proof (rule matching_released [OF match])
      show "fst ` set kvs \<subseteq> {k. fst ?rg \<le> k \<and> k < snd ?rg}" using sc by auto
      show "view s2 k = Some w" if "(k, w) \<in> set kvs" for k w using that sc by auto
      show "distinct (map fst kvs)" using sc by (simp add: strict_sorted_iff)
    qed
    then have "released (rec_id r) {k. fst ?rg \<le> k \<and> k < snd ?rg} s1 s'"
      using sc by (simp add: released_def)
    then show thesis using deleted [of b r s1] d dec ga Some clear_law [OF clear] by simp
  qed
qed

end

end
