(* ===== verification/Kv_Unique.thy ===== *)
theory Kv_Unique
  imports Kv_Laws
begin

text \<open>
  The unique-index guarantee of the key-value store: a step relation over successful operations
  and the invariant that every live record owns the entries of its indexed values, so that no two
  live records of a collection share one.
\<close>

text \<open>Successful operations that name the indexes \<open>ixs\<close> whenever they touch collection \<open>c\<close> of
  namespace \<open>ns\<close>.\<close>

definition same_collection :: "provider_namespace \<Rightarrow> string \<Rightarrow> provider_namespace \<Rightarrow> string \<Rightarrow> bool" where
  "same_collection ns c ns' c' \<longleftrightarrow> ns_segments ns = ns_segments ns' \<and> clean_key c = clean_key c'"

inductive kv_step ::
  "'s kv_env \<Rightarrow> provider_namespace \<Rightarrow> string \<Rightarrow> unique_index list \<Rightarrow> 's \<Rightarrow> 's \<Rightarrow> bool"
  for env ns c ixs where
  step_create: "kv_create env op s = (Ok r, s') \<Longrightarrow>
    (same_collection ns c (cr_namespace op) (cr_collection op) \<Longrightarrow> cr_unique_indexes op = ixs) \<Longrightarrow>
    kv_step env ns c ixs s s'"
| step_update: "kv_update env uop s = (Ok r, s') \<Longrightarrow>
    (same_collection ns c (up_namespace uop) (up_collection uop) \<Longrightarrow> up_unique_indexes uop = ixs) \<Longrightarrow>
    kv_step env ns c ixs s s'"
| step_delete: "kv_delete env dop s = (Ok d, s') \<Longrightarrow> kv_step env ns c ixs s s'"
| step_event: "kv_append_event env eop s = (Ok e, s') \<Longrightarrow> kv_step env ns c ixs s s'"
| step_evidence: "kv_store_evidence env vop s = (Ok u, s') \<Longrightarrow> kv_step env ns c ixs s s'"
| step_migration: "kv_record_migration env mns i s = (Ok u, s') \<Longrightarrow> kv_step env ns c ixs s s'"

text \<open>An encoded record can be read back.\<close>

definition codec_ok :: "(entity_record \<Rightarrow> (string, string) result) \<Rightarrow> (string \<Rightarrow> (string, entity_record) result) \<Rightarrow> bool" where
  "codec_ok enc dec \<longleftrightarrow> (\<forall>r b. enc r = Ok b \<longrightarrow> dec b = Ok r)"

lemma codec_okD: "codec_ok enc dec \<Longrightarrow> enc r = Ok b \<Longrightarrow> dec b = Ok r"
  by (simp add: codec_ok_def)

context kv_transaction
begin

definition owns_entries :: "provider_namespace \<Rightarrow> string \<Rightarrow> unique_index list \<Rightarrow> 's \<Rightarrow> string \<Rightarrow> entity_record \<Rightarrow> bool" where
  "owns_entries ns c ixs s i r \<longleftrightarrow>
     clean_key (rec_id r) = clean_key i \<and>
     (\<forall>k\<in>indexed ns c ixs (rec_data r). view s k = Some (utf8_bytes (rec_id r)))"

definition unique_inv :: "provider_namespace \<Rightarrow> string \<Rightarrow> unique_index list \<Rightarrow> 's \<Rightarrow> bool" where
  "unique_inv ns c ixs s \<longleftrightarrow>
     (\<forall>i b. view s (entity_key ns c i) = Some b \<longrightarrow>
        (\<exists>r. ke_decode_record env b = Ok r \<and> owns_entries ns c ixs s i r))"

lemma unique_inv_live:
  assumes "unique_inv ns c ixs s" "view s (entity_key ns c i) = Some b" "ke_decode_record env b = Ok r"
  shows "owns_entries ns c ixs s i r"
  using assms by (fastforce simp: unique_inv_def)

lemma same_collection_keys:
  assumes "same_collection ns c ns' c'"
  shows "entity_key ns c = entity_key ns' c'" and "uniq_key env ns c = uniq_key env ns' c'"
proof -
  have sc: "ns_segments ns = ns_segments ns'" "clean_key c = clean_key c'"
    using assms unfolding same_collection_def by blast+
  note eq = kv_join_cong [OF sc(1)] sc(2)
  show "entity_key ns c = entity_key ns' c'" by (intro ext) (simp only: entity_key_def eq)
  show "uniq_key env ns c = uniq_key env ns' c'" by (intro ext) (simp only: uniq_key_def eq)
qed

lemma same_collection_sets:
  assumes "same_collection ns c ns' c'"
  shows "indexed ns c = indexed ns' c'" and "coll_uniq ns c = coll_uniq ns' c'"
    and "index_free s ns c = index_free s ns' c'"
proof -
  note keys = same_collection_keys [OF assms]
  show "indexed ns c = indexed ns' c'" by (intro ext) (simp only: indexed_def keys)
  show "coll_uniq ns c = coll_uniq ns' c'" by (simp only: coll_uniq_def keys)
  show "index_free s ns c = index_free s ns' c'" by (intro ext) (simp only: index_free_def keys)
qed

lemma coll_uniq_disjoint:
  "\<not> same_collection ns c ns' c' \<Longrightarrow> k \<in> coll_uniq ns c \<Longrightarrow> k \<notin> coll_uniq ns' c'"
  by (auto simp: coll_uniq_def uniq_key_eq_iff same_collection_def)

text \<open>A step that keeps the entity keys and the unique entries keeps the invariant.\<close>

lemma unique_inv_frame:
  assumes "unique_inv ns c ixs s" and "\<And>i. view s' (entity_key ns c i) = view s (entity_key ns c i)"
    and "\<And>k. k \<in> coll_uniq ns c \<Longrightarrow> view s' k = view s k"
  shows "unique_inv ns c ixs s'"
  unfolding unique_inv_def
proof (intro allI impI)
  fix i b
  assume "view s' (entity_key ns c i) = Some b"
  then obtain r where "ke_decode_record env b = Ok r" "owns_entries ns c ixs s i r"
    using assms(1,2) by (metis unique_inv_def)
  moreover have "view s' k = view s k" if "k \<in> indexed ns c ixs (rec_data r)" for k
    using that indexed_coll assms(3) by blast
  ultimately show "\<exists>r. ke_decode_record env b = Ok r \<and> owns_entries ns c ixs s' i r"
    by (auto simp: owns_entries_def)
qed

text \<open>Writing one record: other live records keep their entries, because the check for conflicts
  found their values unowned.\<close>

lemma unique_inv_write:
  assumes inv: "unique_inv ns c ixs s"
    and free: "list_all (index_free s ns c cur (rec_data r)) ixs"
    and cur: "\<And>j. cur = Some j \<Longrightarrow> clean_key j = clean_key i"
    and r: "ke_decode_record env b = Ok r" "clean_key (rec_id r) = clean_key i"
    and s': "view s' (entity_key ns c i) = Some b"
      "\<And>j. clean_key j \<noteq> clean_key i \<Longrightarrow> view s' (entity_key ns c j) = view s (entity_key ns c j)"
      "\<And>k. k \<in> indexed ns c ixs (rec_data r) \<Longrightarrow> view s' k = Some (utf8_bytes (rec_id r))"
      "\<And>k. k \<in> coll_uniq ns c \<Longrightarrow> k \<notin> indexed ns c ixs (rec_data r) \<Longrightarrow>
         view s' k = view s k \<or> (\<exists>j. clean_key j = clean_key i \<and> view s k = Some (utf8_bytes j))"
  shows "unique_inv ns c ixs s'"
  unfolding unique_inv_def
proof (intro allI impI)
  fix j w
  assume w: "view s' (entity_key ns c j) = Some w"
  show "\<exists>r. ke_decode_record env w = Ok r \<and> owns_entries ns c ixs s' j r"
  proof (cases "clean_key j = clean_key i")
    case True
    then have "entity_key ns c j = entity_key ns c i" by simp
    with w s'(1) have "w = b" by simp
    with True r s'(3) show ?thesis by (auto simp: owns_entries_def)
  next
    case False
    then have wj: "view s (entity_key ns c j) = Some w" using w s'(2) by simp
    with inv obtain q where q: "ke_decode_record env w = Ok q" "owns_entries ns c ixs s j q"
      by (auto simp: unique_inv_def)
    have qj: "clean_key (rec_id q) = clean_key j" using q(2) by (simp add: owns_entries_def)
    then have live: "view s (entity_key ns c (rec_id q)) = Some w"
      using wj by (metis entity_key_eq_iff)
    have "view s' k = view s k" if k: "k \<in> indexed ns c ixs (rec_data q)" for k
    proof -
      have own: "view s k = Some (utf8_bytes (rec_id q))" using k q(2) by (simp add: owns_entries_def)
      have "k \<notin> indexed ns c ixs (rec_data r)"
      proof
        assume "k \<in> indexed ns c ixs (rec_data r)"
        then obtain ix vs where "ix \<in> set ixs" "index_values (rec_data r) (ui_fields ix) = Some vs"
          "k = uniq_key env ns c (ui_id ix) vs" by (auto simp: indexed_def)
        with free own live have "cur = Some (rec_id q)" by (auto simp: list_all_iff index_free_def)
        with cur qj False show False by auto
      qed
      moreover have "k \<in> coll_uniq ns c" using k indexed_coll by blast
      ultimately show ?thesis using s'(4) [of k] own qj False by auto
    qed
    with q show ?thesis by (auto simp: owns_entries_def)
  qed
qed

lemma unique_inv_same:
  "same_collection ns c ns' c' \<Longrightarrow> unique_inv ns c ixs s \<longleftrightarrow> unique_inv ns' c' ixs s"
  by (simp only: unique_inv_def owns_entries_def same_collection_sets same_collection_keys)

lemma coll_uniq_others [simp]:
  "schema_key n \<notin> coll_uniq ns c" "idseq_key n d \<notin> coll_uniq ns c" "idem_key n d k \<notin> coll_uniq ns c"
  "entity_key n d i \<notin> coll_uniq ns c"
  using uniq_keys_others coll_uniq_subset by blast+

lemma coll_uniq_neq:
  assumes "k \<in> coll_uniq ns c"
  shows "k \<noteq> schema_key n" "k \<noteq> idseq_key n d" "k \<noteq> idem_key n d i" "k \<noteq> entity_key n d j"
  using assms coll_uniq_others by blast+

lemma entity_not_indexed [simp]: "entity_key n d j \<notin> indexed ns c ixs data"
  using indexed_coll coll_uniq_others(4) by blast

lemma released_keep: "released i K s s' \<Longrightarrow> k \<notin> K \<Longrightarrow> view s' k = view s k"
  unfolding released_def by blast

lemma writes_unique_inv:
  assumes "writes K m" and "m s = (Ok x, s')" and "unique_inv ns c ixs s"
    and "\<And>i. entity_key ns c i \<notin> K" and "K \<inter> coll_uniq ns c = {}"
  shows "unique_inv ns c ixs s'"
  using assms(3)
proof (rule unique_inv_frame)
  show "view s' (entity_key ns c i) = view s (entity_key ns c i)" for i
    using writesD [OF assms(1,2)] assms(4) by simp
  show "view s' k = view s k" if "k \<in> coll_uniq ns c" for k
    using writesD [OF assms(1,2)] assms(5) that by blast
qed

section \<open>Every operation keeps the invariant\<close>

lemma create_unique_inv:
  assumes codec: "codec_ok (ke_encode_record env) (ke_decode_record env)"
    and run: "kv_create env op s = (Ok r, s')" and inv: "unique_inv ns c ixs s"
    and same: "same_collection ns c (cr_namespace op) (cr_collection op) \<Longrightarrow> cr_unique_indexes op = ixs"
  shows "unique_inv ns c ixs s'"
  using run
proof (cases rule: create_cases)
  case (replayed k b)
  show ?thesis by (rule unique_inv_frame [OF inv]) (auto simp: replayed(4) coll_uniq_neq)
next
  case (existing i b)
  show ?thesis by (rule unique_inv_frame [OF inv]) (auto simp: existing(3) coll_uniq_neq)
next
  case (created i s1 s2)
  let ?ns = "cr_namespace op" and ?c = "cr_collection op"
  note wr = create_written [OF created(5)]
  have inv2: "unique_inv ns c ixs s2"
    by (rule unique_inv_frame [OF inv]) (auto simp: created(1,4) coll_uniq_neq)
  obtain b where b: "ke_encode_record env r = Ok b" "view s' (entity_key ?ns ?c i) = Some b"
    using wr(2) by blast
  have keep: "view s' (entity_key n d j) = view s2 (entity_key n d j)"
    if "entity_key n d j \<noteq> entity_key ?ns ?c i" for n d j
    using writesD [OF wr(4) created(5)] that by auto
  show ?thesis
  proof (cases "same_collection ns c ?ns ?c")
    case True
    let ?data = "JObj (bt_insert ''id'' (JStr i) (object_clone (cr_input op)))"
    have data: "rec_data r = ?data" "rec_id r = i" using wr(1) by simp_all
    have "unique_inv ?ns ?c ixs s'"
    proof (rule unique_inv_write [where s = s2 and cur = None and r = r and i = i and b = b])
      show "unique_inv ?ns ?c ixs s2" using inv2 unique_inv_same [OF True] by simp
      show "list_all (index_free s2 ?ns ?c None (rec_data r)) ixs"
        using created(3) same [OF True] data index_free_view [OF created(4)] by simp
      show "ke_decode_record env b = Ok r" by (rule codec_okD [OF codec b(1)])
      show "view s' (entity_key ?ns ?c j) = view s2 (entity_key ?ns ?c j)"
        if "clean_key j \<noteq> clean_key i" for j using keep that by simp
      show "view s' k = Some (utf8_bytes (rec_id r))" if "k \<in> indexed ?ns ?c ixs (rec_data r)" for k
        using wr(3) [OF coll_uniq_subset [OF indexed_coll [OF that]]] that same [OF True] data by auto
      show "view s' k = view s2 k \<or> (\<exists>j. clean_key j = clean_key i \<and> view s2 k = Some (utf8_bytes j))"
        if "k \<in> coll_uniq ?ns ?c" "k \<notin> indexed ?ns ?c ixs (rec_data r)" for k
        using wr(3) [of k] that same [OF True] data coll_uniq_subset by auto
    qed (use data b in auto)
    then show ?thesis using unique_inv_same [OF True] by simp
  next
    case False
    show ?thesis
    proof (rule unique_inv_frame [OF inv2])
      show "view s' (entity_key ns c j) = view s2 (entity_key ns c j)" for j
        using keep False by (auto simp: same_collection_def)
      show "view s' k = view s2 k" if "k \<in> coll_uniq ns c" for k
        using wr(3) [of k] coll_uniq_subset [OF that] coll_uniq_disjoint [OF False that] indexed_coll by auto
    qed
  qed
qed

lemma update_unique_inv:
  assumes codec: "codec_ok (ke_encode_record env) (ke_decode_record env)"
    and run: "kv_update env op s = (Ok r', s')" and inv: "unique_inv ns c ixs s"
    and same: "same_collection ns c (up_namespace op) (up_collection op) \<Longrightarrow> up_unique_indexes op = ixs"
  shows "unique_inv ns c ixs s'"
  using run
proof (cases rule: update_cases)
  case (1 b r data b')
  let ?ns = "up_namespace op" and ?c = "up_collection op"
  let ?k = "entity_key ?ns ?c (up_id op)"
  obtain s1 s2 where rel: "released (rec_id r) (coll_uniq ?ns ?c) s s1" and s2: "view s2 = (view s1)(?k \<mapsto> b')"
    and s': "\<And>k. view s' k = (if k \<in> indexed ?ns ?c (up_unique_indexes op) data
      then Some (utf8_bytes (rec_id r)) else view s2 k)"
    using 1(7) by blast
  have data: "rec_data r' = data" "rec_id r' = rec_id r" using 1(4) by simp_all
  have ent: "view s' (entity_key n d j) = (if entity_key n d j = ?k then Some b' else view s (entity_key n d j))" for n d j
    using released_keep [OF rel, of "entity_key n d j"] by (simp add: s' s2 del: entity_key_eq_iff)
  show ?thesis
  proof (cases "same_collection ns c ?ns ?c")
    case True
    have inv': "unique_inv ?ns ?c ixs s" using inv unique_inv_same [OF True] by simp
    have rid: "clean_key (rec_id r) = clean_key (up_id op)"
      using unique_inv_live [OF inv' 1(1,2)] by (simp add: owns_entries_def)
    have "unique_inv ?ns ?c ixs s'"
    proof (rule unique_inv_write [where s = s and cur = "Some (up_id op)" and r = r' and i = "up_id op" and b = b'])
      show "list_all (index_free s ?ns ?c (Some (up_id op)) (rec_data r')) ixs"
        using 1(5) same [OF True] data by simp
      show "ke_decode_record env b' = Ok r'" by (rule codec_okD [OF codec 1(6)])
      show "view s' (entity_key ?ns ?c j) = view s (entity_key ?ns ?c j)"
        if "clean_key j \<noteq> clean_key (up_id op)" for j using ent that by simp
      show "view s' k = Some (utf8_bytes (rec_id r'))" if "k \<in> indexed ?ns ?c ixs (rec_data r')" for k
        using s' that same [OF True] data by simp
      show "view s' k = view s k \<or> (\<exists>j. clean_key j = clean_key (up_id op) \<and> view s k = Some (utf8_bytes j))"
        if "k \<in> coll_uniq ?ns ?c" "k \<notin> indexed ?ns ?c ixs (rec_data r')" for k
        using s' s2 rel that same [OF True] data rid coll_uniq_neq(4) [OF that(1)]
        by (auto simp: released_def)
    qed (use inv' rid data ent in auto)
    then show ?thesis using unique_inv_same [OF True] by simp
  next
    case False
    show ?thesis
    proof (rule unique_inv_frame [OF inv])
      show "view s' (entity_key ns c j) = view s (entity_key ns c j)" for j
        using ent False by (auto simp: same_collection_def)
      show "view s' k = view s k" if "k \<in> coll_uniq ns c" for k
        using s' s2 rel coll_uniq_disjoint [OF False that] indexed_coll coll_uniq_neq(4) [OF that]
        by (auto simp: released_def)
    qed
  qed
qed

lemma delete_unique_inv:
  assumes run: "kv_delete env op s = (Ok d, s')" and inv: "unique_inv ns c ixs s"
  shows "unique_inv ns c ixs s'"
  using run
proof (cases rule: delete_cases)
  case absent
  show ?thesis by (rule unique_inv_frame [OF inv]) (simp_all add: absent)
next
  case (deleted b r s1)
  let ?ns = "del_namespace op" and ?c = "del_collection op"
  let ?k = "entity_key ?ns ?c (del_id op)" and ?rg = "child_range ?ns [''uniq'', clean_key ?c]"
  have ent: "view s' (entity_key n e j) = (if entity_key n e j = ?k then None else view s (entity_key n e j))" for n e j
  proof -
    have "\<not> (fst ?rg \<le> entity_key n e j \<and> entity_key n e j < snd ?rg)"
      unfolding entity_key_def by (subst child_range_iff) simp_all
    then show ?thesis
      using released_keep [OF deleted(5), of "entity_key n e j"] deleted(4) by (simp del: entity_key_eq_iff)
  qed
  have uniq: "view s' k = view s k \<or>
      same_collection ns c ?ns ?c \<and> view s k = Some (utf8_bytes (rec_id r))" if kin: "k \<in> coll_uniq ns c" for k
  proof -
    obtain x vs where k: "k = kv_join ns [''uniq'', clean_key c, clean_key x, encode_values env vs]"
      using kin unfolding coll_uniq_def uniq_key_def by blast
    have "fst ?rg \<le> k \<and> k < snd ?rg \<longleftrightarrow> same_collection ns c ?ns ?c"
      unfolding k by (subst child_range_iff) (auto simp: encode_values_def same_collection_def strict_prefix_def)
    moreover have "view s' k = view s1 k \<or> (fst ?rg \<le> k \<and> k < snd ?rg) \<and> view s1 k = Some (utf8_bytes (rec_id r))"
      using deleted(5) unfolding released_def by blast
    moreover have "view s1 k = view s k" using deleted(4) coll_uniq_neq(4) [OF kin] by simp
    ultimately show ?thesis by metis
  qed
  show ?thesis
    unfolding unique_inv_def
  proof (intro allI impI)
    fix j w
    assume "view s' (entity_key ns c j) = Some w"
    then have ne: "entity_key ns c j \<noteq> ?k" and "view s (entity_key ns c j) = Some w"
      using ent by (auto simp del: entity_key_eq_iff split: if_splits)
    then obtain q where q: "ke_decode_record env w = Ok q" "owns_entries ns c ixs s j q"
      using inv by (auto simp: unique_inv_def)
    have "view s' k = view s k" if k: "k \<in> indexed ns c ixs (rec_data q)" for k
    proof (rule ccontr)
      assume "view s' k \<noteq> view s k"
      with uniq [OF indexed_coll [OF k]] have sc: "same_collection ns c ?ns ?c"
        and own: "view s k = Some (utf8_bytes (rec_id r))" by auto
      have "rec_id q = rec_id r" using own q(2) k by (simp add: owns_entries_def)
      moreover have "clean_key (rec_id r) = clean_key (del_id op)"
        using unique_inv_live [OF _ deleted(2,3)] inv unique_inv_same [OF sc] by (simp add: owns_entries_def)
      ultimately show False using q(2) ne sc by (simp add: owns_entries_def same_collection_def)
    qed
    with q show "\<exists>r. ke_decode_record env w = Ok r \<and> owns_entries ns c ixs s' j r"
      by (auto simp: owns_entries_def)
  qed
qed

lemma step_unique_inv:
  assumes codec: "codec_ok (ke_encode_record env) (ke_decode_record env)"
    and "kv_step env ns c ixs s s'" and inv: "unique_inv ns c ixs s"
  shows "unique_inv ns c ixs s'"
  using assms(2)
proof cases
  case (step_create op r)
  then show ?thesis by (intro create_unique_inv [OF codec _ inv]) auto
next
  case (step_update op r)
  then show ?thesis by (intro update_unique_inv [OF codec _ inv]) auto
next
  case (step_delete op d)
  then show ?thesis by (intro delete_unique_inv [OF _ inv])
next
  case (step_event op e)
  have w: "writes (range schema_key \<union> {event_key n st q |n st q. True} \<union> {evseq_key n st |n st. True})
    (kv_append_event env op)"
    unfolding kv_append_event_def Let_def by (auto intro!: writes_intros writes_schema)
  show ?thesis
    by (rule writes_unique_inv [OF w step_event inv]) (auto simp: coll_uniq_def key_defs kv_join_eq_iff)
next
  case (step_evidence op u)
  have w: "writes {kv_subject_key n ''evid'' d e i |n d e i. True} (kv_store_evidence env op)"
    unfolding kv_store_evidence_def Let_def by (auto intro!: writes_intros)
  show ?thesis
    by (rule writes_unique_inv [OF w step_evidence inv]) (auto simp: coll_uniq_def key_defs kv_join_eq_iff)
next
  case (step_migration n i u)
  have w: "writes {migration_key n i |n i. True} (kv_record_migration env n i)"
    unfolding kv_record_migration_def by (auto intro!: writes_intros)
  show ?thesis
    by (rule writes_unique_inv [OF w step_migration inv]) (auto simp: coll_uniq_def key_defs kv_join_eq_iff)
qed

text \<open>Live records that agree on the values of an index are the same record.\<close>

lemma unique_inv_records:
  assumes inv: "unique_inv ns c ixs s" and ix: "ix \<in> set ixs"
    and i: "view s (entity_key ns c i) = Some b" "ke_decode_record env b = Ok r"
    and j: "view s (entity_key ns c j) = Some d" "ke_decode_record env d = Ok q"
    and vs: "index_values (rec_data r) (ui_fields ix) = Some vs" "index_values (rec_data q) (ui_fields ix) = Some vs"
  shows "r = q"
proof -
  let ?k = "uniq_key env ns c (ui_id ix) vs"
  have "?k \<in> indexed ns c ixs (rec_data r)" "?k \<in> indexed ns c ixs (rec_data q)"
    using ix vs by (auto simp: indexed_def)
  then have "rec_id r = rec_id q" and "clean_key i = clean_key j"
    using unique_inv_live [OF inv i] unique_inv_live [OF inv j] by (auto simp: owns_entries_def)
  then have "entity_key ns c i = entity_key ns c j" by simp
  with i j show ?thesis by simp
qed

end

end
