(* ===== verification/Postgres.thy ===== *)
theory Postgres
  imports Kv_Unique
begin

text \<open>
  \<^verbatim>\<open>greentic-sorx-core/src/providers/postgres.rs\<close>: the configuration of the Postgres store, its
  connection, and \<^verbatim>\<open>transact\<close>, which runs an operation of \<open>Kv_Store\<close> in one serializable
  transaction and retries it.

  The database driver is outside: an attempt is given by the committed table it sees, by what the
  driver answers to the start of the transaction, to every statement and to the commit, and by the
  clock. Serializable isolation is modelled by the attempt running on one table and leaving one.
\<close>

section \<open>Configuration\<close>

record postgres_config =
  pc_url_env :: "string option"
  pc_url_file :: "string option"
  pc_ca_file :: "string option"
  pc_pool_size :: "u32 option"
  pc_config_ref :: "string option"

definition DEFAULT_URL_ENV :: string where
  "DEFAULT_URL_ENV = ''SORX_POSTGRES_URL''"

definition CA_FILE_ENV :: string where
  "CA_FILE_ENV = ''SORX_POSTGRES_CA_FILE''"

definition DEFAULT_POOL_SIZE :: u32 where
  "DEFAULT_POOL_SIZE = 8"

definition CONFIG_KEYS :: "string list" where
  "CONFIG_KEYS = [''url_env'', ''url_file'', ''ca_file'', ''pool_size'']"

definition pg_error :: "string \<Rightarrow> sorx_error" where
  "pg_error message = sorx_error_new ''provider_postgres_error'' (Text message)"

definition config_kind :: "json \<Rightarrow> string" where
  "config_kind v =
     (case v of JStr _ \<Rightarrow> ''a string'' | JArr _ \<Rightarrow> ''an array'' | JNum _ \<Rightarrow> ''a number'' | _ \<Rightarrow> ''a boolean'')"

definition config_object :: "json option \<Rightarrow> json_map sorx_result" where
  "config_object config =
     (case config of
        None \<Rightarrow> Ok []
      | Some JNull \<Rightarrow> Ok []
      | Some (JObj obj) \<Rightarrow> Ok obj
      | Some other \<Rightarrow> Err (pg_error (''the postgres store's `config` must be an object, not '' @ config_kind other)))"

definition config_text :: "json_map \<Rightarrow> string \<Rightarrow> string option sorx_result" where
  "config_text obj key =
     (case bt_get obj key of
        None \<Rightarrow> Ok None
      | Some JNull \<Rightarrow> Ok None
      | Some v \<Rightarrow>
          (case v of
             JStr s \<Rightarrow>
               if trim s \<noteq> [] then Ok (Some (trim s))
               else Err (pg_error (''the postgres store's `'' @ key @ ''` must be a non-empty string''))
           | _ \<Rightarrow> Err (pg_error (''the postgres store's `'' @ key @ ''` must be a non-empty string''))))"

definition config_pool_size :: "json_map \<Rightarrow> u32 option sorx_result" where
  "config_pool_size obj =
     (case bt_get obj ''pool_size'' of
        None \<Rightarrow> Ok None
      | Some JNull \<Rightarrow> Ok None
      | Some v \<Rightarrow>
          (case as_u64 v of
             Some n \<Rightarrow>
               if unat n < 2 ^ 32 \<and> 0 < unat n then Ok (Some (of_nat (unat n)))
               else Err (pg_error ''the postgres store's `pool_size` must be a positive integer'')
           | None \<Rightarrow> Err (pg_error ''the postgres store's `pool_size` must be a positive integer'')))"

definition postgres_config_from_parts :: "string option \<Rightarrow> json option \<Rightarrow> postgres_config sorx_result" where
  "postgres_config_from_parts config_ref config =
     (case config_object config of
        Err e \<Rightarrow> Err e
      | Ok obj \<Rightarrow>
          (case find (\<lambda>k. k \<notin> set CONFIG_KEYS) (map fst obj) of
             Some unknown \<Rightarrow>
               Err (pg_error (''the postgres store does not know the config key `'' @ unknown @
                 ''` (known: url_env, url_file, ca_file, pool_size)''))
           | None \<Rightarrow>
               (case config_pool_size obj of
                  Err e \<Rightarrow> Err e
                | Ok pool \<Rightarrow>
                    (case config_text obj ''url_env'' of
                       Err e \<Rightarrow> Err e
                     | Ok url_env \<Rightarrow>
                         (case config_text obj ''url_file'' of
                            Err e \<Rightarrow> Err e
                          | Ok url_file \<Rightarrow>
                              (case config_text obj ''ca_file'' of
                                 Err e \<Rightarrow> Err e
                               | Ok ca_file \<Rightarrow>
                                   Ok \<lparr>pc_url_env = url_env, pc_url_file = url_file, pc_ca_file = ca_file,
                                       pc_pool_size = pool, pc_config_ref = config_ref\<rparr>))))))"

text \<open>\<^verbatim>\<open>std::env::var\<close> and \<^verbatim>\<open>std::fs::read_to_string\<close>.\<close>

datatype env_value = VarSet string | VarNotPresent | VarNotUnicode

definition resolve_url ::
  "(string \<Rightarrow> (string, string) result) \<Rightarrow> (string \<Rightarrow> env_value) \<Rightarrow> postgres_config \<Rightarrow> string sorx_result" where
  "resolve_url read var c =
     (case pc_url_file c of
        Some path \<Rightarrow>
          (case read path of
             Err e \<Rightarrow> Err (pg_error (''cannot read the Postgres URL file `'' @ path @ ''`: '' @ e))
           | Ok raw \<Rightarrow>
               if trim raw = [] then Err (pg_error (''the Postgres URL file `'' @ path @ ''` is empty''))
               else Ok (trim raw))
      | None \<Rightarrow>
          let name = unwrap_or (pc_url_env c) DEFAULT_URL_ENV;
              missing = Err (pg_error (''the postgres store needs a connection string in the environment variable `''
                @ name @ ''` (or name a file with `url_file`)''))
          in (case var name of
                VarSet url \<Rightarrow> if trim url \<noteq> [] then Ok (trim url) else missing
              | VarNotUnicode \<Rightarrow>
                  Err (pg_error (''the environment variable `'' @ name @ ''` is set but is not valid Unicode''))
              | VarNotPresent \<Rightarrow> missing))"

definition resolve_ca_file :: "(string \<Rightarrow> env_value) \<Rightarrow> postgres_config \<Rightarrow> string option" where
  "resolve_ca_file var c =
     opt_or (pc_ca_file c)
       (case var CA_FILE_ENV of VarSet v \<Rightarrow> if trim v \<noteq> [] then Some (trim v) else None | _ \<Rightarrow> None)"

section \<open>Driver errors\<close>

text \<open>\<^verbatim>\<open>postgres::Error\<close>: the message and SQLSTATE of a server error, or the driver's text.\<close>

datatype driver_error = ServerError (de_message: string) (de_code: string) | OtherError string

definition describe_error :: "driver_error \<Rightarrow> string" where
  "describe_error e =
     (case e of
        ServerError message sqlstate \<Rightarrow> message @ '' (SQLSTATE '' @ sqlstate @ '')''
      | OtherError s \<Rightarrow> s)"

definition is_retryable :: "driver_error \<Rightarrow> bool" where
  "is_retryable e = (case e of ServerError m c \<Rightarrow> c = ''40001'' \<or> c = ''40P01'' | OtherError s \<Rightarrow> False)"

datatype pg_failure = SorxFailure sorx_error | RetryFailure message | DbFailure string | CommitUnknown string

definition failure_from_db :: "driver_error \<Rightarrow> pg_failure" where
  "failure_from_db e =
     (if is_retryable e then RetryFailure (Text (describe_error e)) else DbFailure (describe_error e))"

definition failure_from_commit :: "driver_error \<Rightarrow> pg_failure" where
  "failure_from_commit e =
     (case e of OtherError s \<Rightarrow> CommitUnknown (describe_error e) | _ \<Rightarrow> failure_from_db e)"

definition RETRYABLE_CODE :: string where
  "RETRYABLE_CODE = ''provider_postgres_retryable''"

definition pg_txn_error :: "driver_error \<Rightarrow> sorx_error" where
  "pg_txn_error e =
     (if is_retryable e then sorx_error_new RETRYABLE_CODE (Text (describe_error e))
      else pg_error (''Postgres query failed: '' @ describe_error e))"

section \<open>The transaction\<close>

text \<open>The table \<^verbatim>\<open>sorx_kv\<close>: rows ordered by their primary key.\<close>

typedef kv_table = "{t :: (string, string) btree. bt_wf t}"
  morphisms rows Table
  by (rule exI [of _ "[]"]) simp

setup_lifting type_definition_kv_table

lift_definition table_empty :: kv_table is "[]" by simp

lift_definition table_get :: "kv_table \<Rightarrow> string \<Rightarrow> string option" is bt_get .

lift_definition table_upsert :: "string \<Rightarrow> string \<Rightarrow> kv_table \<Rightarrow> kv_table" is bt_insert by simp

lift_definition table_delete :: "string \<Rightarrow> kv_table \<Rightarrow> kv_table" is bt_remove by simp

lift_definition table_range :: "string \<Rightarrow> string \<Rightarrow> kv_table \<Rightarrow> (string \<times> string) list" is
  "\<lambda>a b t. filter (\<lambda>kv. a \<le> fst kv \<and> fst kv < b) t" .

datatype kv_call = KvGet string | KvSet string string | KvClear string | KvScan string string

record kv_codec =
  kc_utf8_error :: "string \<Rightarrow> string"
  kc_encode_record :: "entity_record \<Rightarrow> (string, string) result"
  kc_decode_record :: "string \<Rightarrow> (string, entity_record) result"
  kc_encode_event :: "event_record \<Rightarrow> (string, string) result"
  kc_encode_values :: "json list \<Rightarrow> (string, string) result"
  kc_decode_values :: "string \<Rightarrow> (string, json list) result"
  kc_decode_refs :: "string \<Rightarrow> (string, external_ref list) result"
  kc_values_text :: "json list \<Rightarrow> string"
  kc_value_text :: "json \<Rightarrow> string"

type_synonym sql_faults = "kv_table \<Rightarrow> kv_call \<Rightarrow> driver_error option"

definition pg_statement :: "sql_faults \<Rightarrow> kv_call \<Rightarrow> (kv_table \<Rightarrow> 'a \<times> kv_table) \<Rightarrow> (kv_table, 'a) kv" where
  "pg_statement faults call f t =
     (case faults t call of
        Some e \<Rightarrow> (Err (pg_txn_error e), t)
      | None \<Rightarrow> (case f t of (x, t') \<Rightarrow> (Ok x, t')))"

definition pg_env :: "kv_codec \<Rightarrow> sql_faults \<Rightarrow> kv_table kv_env" where
  "pg_env cd faults =
     \<lparr>kv_get = \<lambda>k. pg_statement faults (KvGet k) (\<lambda>t. (table_get t k, t)),
      kv_set = \<lambda>k v. pg_statement faults (KvSet k v) (\<lambda>t. ((), table_upsert k v t)),
      kv_clear = \<lambda>k. pg_statement faults (KvClear k) (\<lambda>t. ((), table_delete k t)),
      kv_scan = \<lambda>a b. pg_statement faults (KvScan a b) (\<lambda>t. (table_range a b t, t)),
      ke_utf8_error = kc_utf8_error cd, ke_encode_record = kc_encode_record cd,
      ke_decode_record = kc_decode_record cd, ke_encode_event = kc_encode_event cd,
      ke_encode_values = kc_encode_values cd, ke_decode_values = kc_decode_values cd,
      ke_decode_refs = kc_decode_refs cd, ke_values_text = kc_values_text cd,
      ke_value_text = kc_value_text cd\<rparr>"

text \<open>The answer to a commit; a failure says whether the server had applied it all the same.\<close>

datatype commit_outcome = Committed | CommitFailed driver_error bool

record pg_attempt =
  pa_table :: kv_table
  pa_start :: "driver_error option"
  pa_faults :: sql_faults
  pa_commit :: commit_outcome
  pa_elapsed :: nat
  pa_elapsed_text :: string

text \<open>One attempt: its outcome and the committed table after it. An aborted transaction leaves the
  table as it was; so does a failed commit that the server answered.\<close>

definition pg_attempt_run ::
  "kv_codec \<Rightarrow> (kv_table kv_env \<Rightarrow> (kv_table, 'a) kv) \<Rightarrow> pg_attempt \<Rightarrow> (pg_failure, 'a) result \<times> kv_table" where
  "pg_attempt_run cd body a =
     (case pa_start a of
        Some e \<Rightarrow> (Err (failure_from_db e), pa_table a)
      | None \<Rightarrow>
          (case body (pg_env cd (pa_faults a)) (pa_table a) of
             (Err e, t) \<Rightarrow>
               (Err (if err_code e = RETRYABLE_CODE then RetryFailure (err_message e) else SorxFailure e), pa_table a)
           | (Ok v, t) \<Rightarrow>
               (case pa_commit a of
                  Committed \<Rightarrow> (Ok v, t)
                | CommitFailed e was_applied \<Rightarrow>
                    (Err (failure_from_commit e),
                     case e of OtherError _ \<Rightarrow> if was_applied then t else pa_table a | _ \<Rightarrow> pa_table a))))"

text \<open>Milliseconds.\<close>

definition RETRY_BUDGET :: nat where
  "RETRY_BUDGET = 10000"

definition gave_up :: "nat \<Rightarrow> string \<Rightarrow> message \<Rightarrow> sorx_error" where
  "gave_up attempt elapsed reason =
     sorx_error_new ''provider_postgres_error''
       (Around (''Postgres transaction kept conflicting with concurrent writers ('' @ show_nat attempt @
          '' attempts over '' @ elapsed @ ''; last: '') reason '')'')"

definition commit_unknown :: "string \<Rightarrow> sorx_error" where
  "commit_unknown message =
     sorx_error_new ''provider_postgres_commit_unknown''
       (Text (''the connection failed while committing, so the write may or may not have been applied; check before retrying: ''
          @ message))"

text \<open>The retry loop from attempt number \<open>n\<close>; \<open>world\<close> is what each attempt will meet. The counter
  of attempts is a \<^verbatim>\<open>u32\<close> that the budget keeps far from its bound.\<close>

partial_function (option) transact_from ::
  "kv_codec \<Rightarrow> (nat \<Rightarrow> pg_attempt) \<Rightarrow> (kv_table kv_env \<Rightarrow> (kv_table, 'a) kv) \<Rightarrow> nat \<Rightarrow>
   ('a sorx_result \<times> kv_table) option" where
  [code]: "transact_from cd world body n =
     (case pg_attempt_run cd body (world n) of
        (Ok v, t) \<Rightarrow> Some (Ok v, t)
      | (Err (SorxFailure e), t) \<Rightarrow> Some (Err e, t)
      | (Err (RetryFailure reason), t) \<Rightarrow>
          if pa_elapsed (world n) \<ge> RETRY_BUDGET
          then Some (Err (gave_up n (pa_elapsed_text (world n)) reason), t)
          else transact_from cd world body (n + 1)
      | (Err (DbFailure message), t) \<Rightarrow> Some (Err (pg_error (''Postgres transaction failed: '' @ message)), t)
      | (Err (CommitUnknown message), t) \<Rightarrow> Some (Err (commit_unknown message), t))"

datatype tokio_context = NoRuntime | CurrentThread | MultiThread

definition run_blocking :: "tokio_context \<Rightarrow> 't \<Rightarrow> ('a sorx_result \<times> 't) option \<Rightarrow> ('a sorx_result \<times> 't) option" where
  "run_blocking cx t work =
     (if cx = CurrentThread
      then Some (Err (pg_error ''the postgres store requires a multi-thread Tokio runtime; it cannot run inside a current-thread runtime''), t)
      else work)"

text \<open>What one call of the store meets: the table at the time, the calling context, the pool and the
  attempts, numbered from one.\<close>

record pg_world =
  pw_table :: kv_table
  pw_context :: tokio_context
  pw_pool :: "string option"
  pw_attempt :: "nat \<Rightarrow> pg_attempt"

definition transact ::
  "kv_codec \<Rightarrow> pg_world \<Rightarrow> (kv_table kv_env \<Rightarrow> (kv_table, 'a) kv) \<Rightarrow> ('a sorx_result \<times> kv_table) option" where
  "transact cd w body =
     run_blocking (pw_context w) (pw_table w)
       (case pw_pool w of
          Some e \<Rightarrow> Some (Err (pg_error (''no Postgres connection available: '' @ e)), pw_table w)
        | None \<Rightarrow> transact_from cd (pw_attempt w) body 1)"

section \<open>The store\<close>

definition map_ok :: "('a \<Rightarrow> 'b) \<Rightarrow> ('a sorx_result \<times> 't) option \<Rightarrow> ('b sorx_result \<times> 't) option" where
  "map_ok f r = map_option (\<lambda>(x, t). (map_sum id f x, t)) r"

definition pg_create :: "kv_codec \<Rightarrow> pg_world \<Rightarrow> create_op \<Rightarrow> (entity_record sorx_result \<times> kv_table) option" where
  "pg_create cd w op = transact cd w (\<lambda>env. kv_create env op)"

definition pg_get :: "kv_codec \<Rightarrow> pg_world \<Rightarrow> get_op \<Rightarrow> (entity_record option sorx_result \<times> kv_table) option" where
  "pg_get cd w op = transact cd w (\<lambda>env. kv_get_record env op)"

definition pg_update :: "kv_codec \<Rightarrow> pg_world \<Rightarrow> update_op \<Rightarrow> (entity_record sorx_result \<times> kv_table) option" where
  "pg_update cd w op = transact cd w (\<lambda>env. kv_update env op)"

definition pg_query :: "kv_codec \<Rightarrow> pg_world \<Rightarrow> query_op \<Rightarrow> (entity_record list sorx_result \<times> kv_table) option" where
  "pg_query cd w op = transact cd w (\<lambda>env. kv_query_records env op)"

definition pg_delete :: "kv_codec \<Rightarrow> pg_world \<Rightarrow> delete_op \<Rightarrow> (bool sorx_result \<times> kv_table) option" where
  "pg_delete cd w op = transact cd w (\<lambda>env. kv_delete env op)"

definition pg_append_event ::
  "kv_codec \<Rightarrow> pg_world \<Rightarrow> append_event_op \<Rightarrow> (event_record sorx_result \<times> kv_table) option" where
  "pg_append_event cd w op = transact cd w (\<lambda>env. kv_append_event env op)"

definition pg_query_index ::
  "kv_codec \<Rightarrow> pg_world \<Rightarrow> index_query_op \<Rightarrow> (entity_record list sorx_result \<times> kv_table) option" where
  "pg_query_index cd w op =
     pg_query cd w \<lparr>q_namespace = iq_namespace op, q_entity = iq_entity op, q_collection = iq_collection op,
                    q_filter = iq_filter op, q_order_by = []\<rparr>"

definition pg_traverse ::
  "kv_codec \<Rightarrow> pg_world \<Rightarrow> traverse_op \<Rightarrow> (entity_record list sorx_result \<times> kv_table) option" where
  "pg_traverse cd w op =
     map_ok (\<lambda>r. case r of None \<Rightarrow> [] | Some x \<Rightarrow> [x])
       (pg_get cd w \<lparr>g_namespace = tv_namespace op, g_entity = tv_root_entity op,
                    g_collection = tv_root_collection op, g_id = tv_root_id op\<rparr>)"

definition pg_get_external_refs ::
  "kv_codec \<Rightarrow> pg_world \<Rightarrow> external_refs_op \<Rightarrow> (external_ref list sorx_result \<times> kv_table) option" where
  "pg_get_external_refs cd w op =
     transact cd w (\<lambda>env. kv_get_external_refs env (xo_namespace op) (xo_collection op) (xo_entity op) (xo_id op))"

definition pg_store_evidence ::
  "kv_codec \<Rightarrow> pg_world \<Rightarrow> store_evidence_op \<Rightarrow> (unit sorx_result \<times> kv_table) option" where
  "pg_store_evidence cd w op = transact cd w (\<lambda>env. kv_store_evidence env op)"

definition pg_get_evidence ::
  "kv_codec \<Rightarrow> pg_world \<Rightarrow> external_refs_op \<Rightarrow> (json list sorx_result \<times> kv_table) option" where
  "pg_get_evidence cd w op =
     transact cd w (\<lambda>env. kv_get_evidence env (xo_namespace op) (xo_collection op) (xo_entity op) (xo_id op))"

definition pg_record_migration_applied ::
  "kv_codec \<Rightarrow> pg_world \<Rightarrow> provider_namespace \<Rightarrow> string \<Rightarrow> (unit sorx_result \<times> kv_table) option" where
  "pg_record_migration_applied cd w ns i = transact cd w (\<lambda>env. kv_record_migration env ns i)"

definition pg_load_applied_migrations ::
  "kv_codec \<Rightarrow> pg_world \<Rightarrow> provider_namespace \<Rightarrow> (applied_migrations sorx_result \<times> kv_table) option" where
  "pg_load_applied_migrations cd w ns = transact cd w (\<lambda>env. kv_load_migrations env ns)"

section \<open>Connecting\<close>

text \<open>What opening a store meets; the last field is whether the table exists.\<close>

record pg_driver =
  pd_parse_url :: "string \<Rightarrow> string option"
  pd_pem_file :: "string \<Rightarrow> (string, (string, string) result list) result"
  pd_bad_certificate :: "string \<Rightarrow> string option"
  pd_tls_config :: "string list \<Rightarrow> string option"
  pd_context :: tokio_context
  pd_connect :: "driver_error option"
  pd_build_pool :: "u32 \<Rightarrow> string option"
  pd_client :: "string option"
  pd_inspect :: "driver_error option"
  pd_create_table :: "driver_error option"
  pd_exists :: bool

fun add_certificates ::
  "(string \<Rightarrow> string option) \<Rightarrow> string \<Rightarrow> (string, string) result list \<Rightarrow> string list sorx_result" where
  "add_certificates bad path [] = Ok []"
| "add_certificates bad path (c # cs) =
     (case c of
        Err e \<Rightarrow> Err (pg_error (''the Postgres CA file `'' @ path @ ''` is not valid PEM: '' @ e))
      | Ok cert \<Rightarrow>
          (case bad cert of
             Some e \<Rightarrow> Err (pg_error (''the Postgres CA file `'' @ path @ ''` holds a bad certificate: '' @ e))
           | None \<Rightarrow> map_sum id ((#) cert) (add_certificates bad path cs)))"

definition tls_connector :: "pg_driver \<Rightarrow> string option \<Rightarrow> string list sorx_result" where
  "tls_connector d ca_file =
     (case (case ca_file of
              None \<Rightarrow> Ok []
            | Some path \<Rightarrow>
                (case pd_pem_file d path of
                   Err e \<Rightarrow> Err (pg_error (''cannot read the Postgres CA file `'' @ path @ ''`: '' @ e))
                 | Ok certs \<Rightarrow>
                     (case add_certificates (pd_bad_certificate d) path certs of
                        Err e \<Rightarrow> Err e
                      | Ok roots \<Rightarrow>
                          if roots = [] then Err (pg_error (''the Postgres CA file `'' @ path @ ''` holds no certificate''))
                          else Ok roots))) of
        Err e \<Rightarrow> Err e
      | Ok roots \<Rightarrow>
          (case pd_tls_config d roots of
             Some e \<Rightarrow> Err (pg_error (''cannot configure TLS: '' @ e))
           | None \<Rightarrow> Ok roots))"

text \<open>The result and whether the table exists afterwards.\<close>

definition connect_with :: "pg_driver \<Rightarrow> string \<Rightarrow> u32 \<Rightarrow> string option \<Rightarrow> (unit sorx_result \<times> bool) option" where
  "connect_with d url pool_size ca_file =
     (case pd_parse_url d url of
        Some e \<Rightarrow> Some (Err (pg_error (''the Postgres URL does not parse: '' @ e)), pd_exists d)
      | None \<Rightarrow>
     (case tls_connector d ca_file of
        Err e \<Rightarrow> Some (Err e, pd_exists d)
      | Ok roots \<Rightarrow>
     run_blocking (pd_context d) (pd_exists d)
     (case pd_connect d of
        Some e \<Rightarrow> Some (Err (pg_error (''cannot connect to Postgres: '' @ describe_error e)), pd_exists d)
      | None \<Rightarrow>
     (case pd_build_pool d pool_size of
        Some e \<Rightarrow> Some (Err (pg_error (''cannot connect to Postgres: '' @ e)), pd_exists d)
      | None \<Rightarrow>
     (case pd_client d of
        Some e \<Rightarrow> Some (Err (pg_error (''cannot connect to Postgres: '' @ e)), pd_exists d)
      | None \<Rightarrow>
     (case pd_inspect d of
        Some e \<Rightarrow> Some (Err (pg_error (''cannot inspect the database: '' @ describe_error e)), pd_exists d)
      | None \<Rightarrow>
     if pd_exists d then Some (Ok (), True)
     else (case pd_create_table d of
             Some e \<Rightarrow> Some (Err (pg_error (''cannot create the sorx_kv table: '' @ describe_error e)), False)
           | None \<Rightarrow> Some (Ok (), True))))))))"

definition pg_connect ::
  "pg_driver \<Rightarrow> (string \<Rightarrow> (string, string) result) \<Rightarrow> (string \<Rightarrow> env_value) \<Rightarrow> postgres_config \<Rightarrow>
   (unit sorx_result \<times> bool) option" where
  "pg_connect d read var c =
     (case resolve_url read var c of
        Err e \<Rightarrow> Some (Err e, pd_exists d)
      | Ok url \<Rightarrow> connect_with d url (unwrap_or (pc_pool_size c) DEFAULT_POOL_SIZE) (resolve_ca_file var c))"

end
