(* ===== verification/Kv_Scan.thy ===== *)
theory Kv_Scan
  imports Kv_Unique
begin

text \<open>
  Queries of the key-value store: operations only ever add keys of the documented layout, so the
  range of a collection holds its records and nothing else, and a query returns exactly those that
  match. Generated ids: the search for a free one ends.
\<close>

section \<open>The layout of keys\<close>

text \<open>Keys made of clean segments; below \<^verbatim>\<open>e\<close> there are a collection and an id.\<close>

definition layout_keys :: "string set" where
  "layout_keys =
     {kv_join n ts |n ts. slash_free ts \<and> (hd ts = ''e'' \<longrightarrow> (\<exists>c i. ts = [''e'', clean_key c, clean_key i]))}"

lemma layoutI: "slash_free ts \<Longrightarrow> hd ts \<noteq> ''e'' \<Longrightarrow> kv_join n ts \<in> layout_keys"
  by (auto simp: layout_keys_def)

lemma layout_in [simp]:
  "idem_key n c k \<in> layout_keys" "uniq_key env n c x vs \<in> layout_keys"
  "event_key n st q \<in> layout_keys" "idseq_key n c \<in> layout_keys" "evseq_key n st \<in> layout_keys"
  "kv_subject_key n ''evid'' c e i \<in> layout_keys" "schema_key n \<in> layout_keys"
  "migration_key n m \<in> layout_keys"
  unfolding key_defs by (rule layoutI; simp)+

lemma layout_entity [simp]: "entity_key n c i \<in> layout_keys"
  unfolding layout_keys_def entity_key_def by (intro CollectI exI conjI, rule refl) auto

text \<open>In the range of a collection a key of the layout is a key of one of its records.\<close>

lemma layout_in_range:
  assumes "k \<in> layout_keys"
    and "fst (child_range ns [''e'', clean_key c]) \<le> k \<and> k < snd (child_range ns [''e'', clean_key c])"
  shows "\<exists>i. k = entity_key ns c i"
proof -
  obtain m ts where k: "k = kv_join m ts" and sf: "slash_free ts"
    and shape: "hd ts = ''e'' \<Longrightarrow> \<exists>d i. ts = [''e'', clean_key d, clean_key i]"
    using assms(1) unfolding layout_keys_def by blast
  have "ns_segments m = ns_segments ns" and sp: "strict_prefix [''e'', clean_key c] ts"
    using assms(2) child_range_iff [OF _ sf, of "[''e'', clean_key c]" ns m] by (auto simp: k)
  then have "hd ts = ''e''" by (cases ts) (auto simp: strict_prefix_def)
  with shape obtain d i where "ts = [''e'', clean_key d, clean_key i]" by blast
  with sp have "k = kv_join m [''e'', clean_key c, clean_key i]" by (auto simp: k strict_prefix_def)
  then show ?thesis
    using kv_join_cong [OF \<open>ns_segments m = ns_segments ns\<close>] by (auto simp: entity_key_def)
qed

lemma entity_in_range:
  "fst (child_range ns [''e'', clean_key c]) \<le> entity_key ns c i \<and>
   entity_key ns c i < snd (child_range ns [''e'', clean_key c])"
  unfolding entity_key_def by (subst child_range_iff) (simp_all add: strict_prefix_def)

context kv_transaction
begin

text \<open>\<open>adds K m\<close>: a successful run of \<open>m\<close> adds no key outside \<open>K\<close>.\<close>

definition adds :: "string set \<Rightarrow> ('s, 'a) kv \<Rightarrow> bool" where
  "adds K m \<longleftrightarrow> (\<forall>s x s'. m s = (Ok x, s') \<longrightarrow> dom (view s') \<subseteq> dom (view s) \<union> K)"

lemma addsD: "adds K m \<Longrightarrow> m s = (Ok x, s') \<Longrightarrow> dom (view s') \<subseteq> dom (view s) \<union> K"
  by (simp add: adds_def)

lemma writes_adds: "writes K m \<Longrightarrow> adds K m"
  unfolding adds_def writes_def by (auto simp: domIff)

lemma adds_bind: "adds K m \<Longrightarrow> (\<And>x. adds K (f x)) \<Longrightarrow> adds K (kv_bind m f)"
  unfolding adds_def kv_bind_iff by blast

lemma adds_clear: "adds K (kv_clear env k)"
  unfolding adds_def by (auto dest!: clear_law split: if_splits)

lemmas adds_simple = writes_adds [OF writes_get] writes_adds [OF writes_scan] writes_adds [OF writes_pure(1)]
  writes_adds [OF writes_pure(3)]

lemma adds_clear_matching: "adds K (clear_matching env i kvs)"
proof (induction kvs)
  case (Cons kv kvs)
  then show ?case by (cases kv) (auto intro: adds_bind adds_clear)
qed (simp add: writes_adds writes_pure)

lemma uniq_layout: "uniq_keys \<subseteq> layout_keys"
  by (auto simp: uniq_keys_def)

lemma create_layout: "writes layout_keys (kv_create env op)"
  unfolding kv_create_def kv_create_new_def kv_write_created_def Let_def
  by (auto intro!: writes_intros writes_schema writes_next_auto writes_find_conflict
      writes_unique_keys [OF uniq_layout] split: option.splits)

lemma update_layout: "writes layout_keys (kv_update env op)"
  unfolding kv_update_def kv_write_updated_def Let_def
  by (auto intro!: writes_intros writes_find_conflict writes_unique_keys [OF uniq_layout]
      writes_release [OF uniq_layout] split: option.splits)

lemma delete_layout: "adds layout_keys (kv_delete env op)"
  unfolding kv_delete_def clear_unique_for_record_def Let_def case_prod_beta
  by (auto intro!: adds_bind adds_clear adds_clear_matching adds_simple split: option.splits)

lemma others_layout:
  "writes layout_keys (kv_append_event env eop)" "writes layout_keys (kv_store_evidence env vop)"
  "writes layout_keys (kv_record_migration env ns i)"
  unfolding kv_append_event_def kv_store_evidence_def kv_record_migration_def Let_def
  by (auto intro!: writes_intros writes_schema)

lemma adds_layout:
  "adds layout_keys m \<Longrightarrow> dom (view s) \<subseteq> layout_keys \<Longrightarrow> m s = (Ok x, s') \<Longrightarrow> dom (view s') \<subseteq> layout_keys"
  by (drule addsD [of layout_keys m s x s'], assumption, erule subset_trans) (rule Un_least [OF _ subset_refl])

lemma step_layout:
  assumes "kv_step env ns c ixs s s'" and d: "dom (view s) \<subseteq> layout_keys"
  shows "dom (view s') \<subseteq> layout_keys"
  using assms(1)
proof cases
  case step_create
  then show ?thesis by (intro adds_layout [OF writes_adds [OF create_layout] d])
next
  case step_update
  then show ?thesis by (intro adds_layout [OF writes_adds [OF update_layout] d])
next
  case step_delete
  then show ?thesis by (intro adds_layout [OF delete_layout d])
next
  case step_event
  then show ?thesis by (intro adds_layout [OF writes_adds [OF others_layout(1)] d])
next
  case step_evidence
  then show ?thesis by (intro adds_layout [OF writes_adds [OF others_layout(2)] d])
next
  case step_migration
  then show ?thesis by (intro adds_layout [OF writes_adds [OF others_layout(3)] d])
qed

section \<open>Queries\<close>

lemma decode_records_set:
  "decode_records env kvs = Ok rs \<Longrightarrow> set rs = {r. \<exists>k b. (k, b) \<in> set kvs \<and> ke_decode_record env b = Ok r}"
proof (induction kvs arbitrary: rs)
  case (Cons kv kvs)
  obtain k b where kv: "kv = (k, b)" by fastforce
  obtain r rs' where r: "ke_decode_record env b = Ok r" "decode_records env kvs = Ok rs'" "rs = r # rs'"
    using Cons.prems by (auto simp: kv split: sum.splits)
  have "{q. \<exists>j d. (j, d) \<in> set (kv # kvs) \<and> ke_decode_record env d = Ok q} =
      {q. ke_decode_record env b = Ok q} \<union> {q. \<exists>j d. (j, d) \<in> set kvs \<and> ke_decode_record env d = Ok q}"
    unfolding kv set_simps by blast
  also have "\<dots> = insert r (set rs')" using r(1) Cons.IH [OF r(2)] by auto
  finally show ?case by (simp only: r(3) set_simps)
qed simp

definition live :: "'s \<Rightarrow> provider_namespace \<Rightarrow> string \<Rightarrow> entity_record set" where
  "live s ns c = {r. \<exists>i b. view s (entity_key ns c i) = Some b \<and> ke_decode_record env b = Ok r}"

lemma scan_entities_live:
  assumes "scan_entities env ns c s = (Ok rs, s')" and "dom (view s) \<subseteq> layout_keys"
  shows "set rs = live s ns c" and "view s' = view s"
proof -
  let ?rg = "child_range ns [''e'', clean_key c]"
  obtain kvs where scan: "kv_scan env (fst ?rg) (snd ?rg) s = (Ok kvs, s')"
    and dec: "decode_records env kvs = Ok rs"
    using assms(1) by (auto simp: scan_entities_def case_prod_beta kv_simps)
  note sc = scan_law [OF scan]
  show "view s' = view s" using sc by simp
  have "(\<exists>k. (k, b) \<in> set kvs) \<longleftrightarrow> (\<exists>i. view s (entity_key ns c i) = Some b)" for b
  proof
    assume "\<exists>k. (k, b) \<in> set kvs"
    then obtain k where k: "fst ?rg \<le> k \<and> k < snd ?rg" "view s k = Some b" using sc by auto
    then obtain i where "k = entity_key ns c i" using layout_in_range [OF _ k(1)] assms(2) by auto
    with k show "\<exists>i. view s (entity_key ns c i) = Some b" by auto
  next
    assume "\<exists>i. view s (entity_key ns c i) = Some b"
    then show "\<exists>k. (k, b) \<in> set kvs" using sc entity_in_range [of ns c] by blast
  qed
  then show "set rs = live s ns c" unfolding decode_records_set [OF dec] live_def by blast
qed

lemma query_live:
  assumes "kv_query_records env op s = (Ok rs, s')" and "dom (view s) \<subseteq> layout_keys"
  shows "set rs = {r \<in> live s (q_namespace op) (q_collection op). matches_filter (rec_data r) (object_clone (q_filter op))}"
    and "view s' = view s"
    and "q_order_by op = [] \<Longrightarrow> sorted (map rec_id rs)"
    and "q_order_by op \<noteq> [] \<Longrightarrow> \<exists>xs. rs = sort_by (compare_records (ke_value_text env) (q_order_by op)) xs"
proof -
  obtain xs where scan: "scan_entities env (q_namespace op) (q_collection op) s = (Ok xs, s')"
    and rs: "rs = (let records = filter (\<lambda>r. matches_filter (rec_data r) (object_clone (q_filter op))) xs
      in if q_order_by op = [] then sort_by (\<lambda>l r. cmp (rec_id l) (rec_id r)) records
         else sort_by (compare_records (ke_value_text env) (q_order_by op)) records)"
    using assms(1) by (auto simp: kv_query_records_def kv_simps Let_def)
  note sl = scan_entities_live [OF scan assms(2)]
  show "set rs = {r \<in> live s (q_namespace op) (q_collection op). matches_filter (rec_data r) (object_clone (q_filter op))}"
    using sl(1) by (auto simp: rs Let_def)
  show "view s' = view s" by (rule sl(2))
  show "q_order_by op = [] \<Longrightarrow> sorted (map rec_id rs)" by (simp add: rs sort_by_key)
  show "q_order_by op \<noteq> [] \<Longrightarrow> \<exists>xs. rs = sort_by (compare_records (ke_value_text env) (q_order_by op)) xs"
    by (auto simp: rs Let_def)
qed

end

section \<open>Generated ids\<close>

lemma show_nat_not_Nil [simp]: "show_nat n \<noteq> []"
  by (subst show_nat.simps) simp

lemma show_nat_inject: "show_nat m = show_nat n \<Longrightarrow> m = n"
proof (induction m arbitrary: n rule: show_nat.induct)
  case (1 m)
  have digit: "x = y" if "x < 10" "y < 10" "char_of (48 + x) = (char_of (48 + y) :: char)" for x y :: nat
  proof -
    have "(48 + x) mod 256 = (48 + y) mod 256" using arg_cong [OF that(3), of "of_char :: char \<Rightarrow> nat"] by simp
    with that(1,2) show ?thesis by simp
  qed
  have low: "k < 10 \<longleftrightarrow> length (show_nat k) = 1" for k :: nat
    by (subst show_nat.simps) (simp del: show_nat.simps)
  show ?case
  proof (cases "m < 10")
    case True
    then have n: "n < 10" using low "1.prems" by simp
    show ?thesis using "1.prems" True n digit by (subst (asm) (1 2) show_nat.simps) simp
  next
    case False
    then have n: "\<not> n < 10" using low "1.prems" by simp
    have eq: "show_nat (m div 10) @ [char_of (48 + m mod 10)] = show_nat (n div 10) @ [char_of (48 + n mod 10)]"
      using "1.prems" False n show_nat.simps [of m] show_nat.simps [of n] by simp
    then have "m div 10 = n div 10" using "1.IH" [OF False] by simp
    moreover have "m mod 10 = n mod 10" using eq digit [of "m mod 10" "n mod 10"] by simp
    ultimately show ?thesis by (metis div_mult_mod_eq)
  qed
qed

text \<open>Cleaning keeps the number at the end of a generated id.\<close>

lemma clean_auto_id:
  "\<exists>p. \<forall>n. clean_key (auto_id c n) = p @ show_nat (unat n)"
proof -
  let ?sl = "\<lambda>x. x = CHR ''/''"
  let ?clean = "\<lambda>s. filter (\<lambda>x. \<not> is_control x) (replace_chars [CHR ''/'', char_of (92 :: nat)] (CHR ''_'') s)"
  have drop: "dropWhile ?sl (c @ ''-'' @ d) = dropWhile ?sl c @ ''-'' @ d" for d
    by (induction c) auto
  have trim: "trim_matches ?sl (auto_id c n) = dropWhile ?sl c @ ''-'' @ show_nat (unat n)" for n
  proof -
    have "hd (rev (show_nat (unat n))) \<noteq> CHR ''/''"
      using slash_free_show_nat [of "unat n"] by (metis hd_in_set rev_is_Nil_conv set_rev show_nat_not_Nil)
    then show ?thesis
      unfolding trim_matches_def auto_id_def drop
      by (subst dropWhile_hd_id) (simp_all add: hd_append)
  qed
  have digits: "?clean (show_nat n) = show_nat n" for n
  proof -
    have "\<not> is_control x \<and> x \<noteq> CHR ''/'' \<and> x \<noteq> char_of (92 :: nat)" if "x \<in> set (show_nat n)" for x
      using show_nat_digits [OF that] by (auto simp: is_ascii_digit_def is_control_def char_eq_iff_code)
    then show ?thesis by (auto simp: replace_chars_def filter_id_conv map_idI)
  qed
  have "clean_key (auto_id c n) = ?clean (dropWhile ?sl c @ ''-'') @ show_nat (unat n)" for n
    unfolding clean_key_def trim using digits [of "unat n"] by (simp add: replace_chars_def)
  then show ?thesis by blast
qed

lemma auto_keys_inj: "inj (\<lambda>n. entity_key ns c (auto_id c n))"
proof (rule injI)
  fix m n :: u64
  obtain p where p: "\<And>n. clean_key (auto_id c n) = p @ show_nat (unat n)"
    using clean_auto_id [of c] by blast
  assume "entity_key ns c (auto_id c m) = entity_key ns c (auto_id c n)"
  then have "unat m = unat n" by (auto simp: p dest: show_nat_inject)
  then show "m = n" by (rule unsigned_word_eqI)
qed

text \<open>A transaction whose calls succeed.\<close>

locale working_transaction = kv_transaction +
  assumes get_works: "\<exists>v s'. kv_get env k s = (Ok v, s')"
    and set_works: "\<exists>u s'. kv_set env k w s = (Ok u, s')"
begin

lemma next_free_found:
  assumes "unat n + card {m. n < m \<and> view s (entity_key ns c (auto_id c m)) \<noteq> None} < 2 ^ 64 - 1"
  shows "\<exists>i s'. next_free_id env ns c n s = (Ok i, s')"
  using assms
proof (induction "unat (- 1 - n)" arbitrary: n s rule: less_induct)
  case less
  let ?S = "\<lambda>n s. {m. n < m \<and> view s (entity_key ns c (auto_id c m)) \<noteq> None}"
  let ?k = "entity_key ns c (auto_id c (n + 1))"
  have n: "n \<noteq> - 1" using less.prems by (auto simp: unsigned_minus_1_eq_mask mask_eq_exp_minus_1)
  have lt: "n < n + 1" using n by (metis inc_less_eq_self_iff_eq not_le)
  obtain v s1 where get: "kv_get env ?k s = (Ok v, s1)" using get_works by blast
  note g = get_law [OF get]
  show ?case
  proof (cases v)
    case None
    obtain u s2 where "kv_set env (idseq_key ns c) (u64_le (n + 1)) s1 = (Ok u, s2)" using set_works by blast
    with None n get show ?thesis by (subst next_free_id.simps) (simp add: kv_bind_def kv_return_def)
  next
    case (Some b)
    have v: "view s1 = view s" and "view s ?k \<noteq> None" using g Some by (auto dest: sym)
    then have "?S n s = insert (n + 1) (?S (n + 1) s1)"
      using lt by (auto dest: inc_le intro: less_trans simp: order_le_less)
    then have "card (?S n s) = Suc (card (?S (n + 1) s1))" by simp
    moreover have "unat (n + 1) = unat n + 1"
    proof -
      have "n + 1 \<noteq> 0" using n by (simp add: eq_neg_iff_add_eq_0)
      then show ?thesis using unat_minus_one [of "n + 1"] by (simp add: unat_gt_0)
    qed
    ultimately have "unat (n + 1) + card (?S (n + 1) s1) < 2 ^ 64 - 1" using less.prems by simp
    from less.hyps [OF u64_gap_decreases [OF n] this] Some n get show ?thesis
      by (subst next_free_id.simps) auto
  qed
qed

lemma next_free_found_finite:
  assumes "finite (dom (view s))" and "unat n + card (dom (view s)) < 2 ^ 64 - 1"
  shows "\<exists>i s'. next_free_id env ns c n s = (Ok i, s')"
proof (rule next_free_found)
  let ?f = "\<lambda>m. entity_key ns c (auto_id c m)"
  let ?S = "{m. n < m \<and> view s (?f m) \<noteq> None}"
  have "card ?S \<le> card (dom (view s))"
    by (rule card_inj_on_le [where f = ?f]) (use assms(1) auto_keys_inj in \<open>auto intro: inj_on_subset\<close>)
  with assms(2) show "unat n + card ?S < 2 ^ 64 - 1" by linarith
qed

end

end
