(* ===== verification/Postgres_Props.thy ===== *)
theory Postgres_Props
  imports Postgres Kv_Scan
begin

text \<open>
  The Postgres store provides the contract of \<open>Kv_Laws\<close>; \<^verbatim>\<open>transact\<close> is atomic and returns; the
  operations keep unique values unique and generated ids fresh.
\<close>

section \<open>The table provides the contract\<close>

lemma table_get_upsert [simp]: "table_get (table_upsert k v t) = (table_get t)(k \<mapsto> v)"
  by transfer (simp add: fun_eq_iff)

lemma table_get_delete [simp]: "table_get (table_delete k t) = (table_get t)(k := None)"
  by transfer (simp add: fun_eq_iff)

lemma table_get_empty [simp]: "table_get table_empty = Map.empty"
  by transfer (simp add: fun_eq_iff)

lemma table_range_sorted: "sorted_wrt (<) (map fst (table_range a b t))"
  by transfer (simp add: bt_wf_filter flip: bt_wf_def)

lemma table_range_iff: "(k, v) \<in> set (table_range a b t) \<longleftrightarrow> a \<le> k \<and> k < b \<and> table_get t k = Some v"
  by transfer (auto simp: bt.mem_entries_iff)

lemma pg_env_codec [simp]:
  "ke_encode_record (pg_env cd f) = kc_encode_record cd"
  "ke_decode_record (pg_env cd f) = kc_decode_record cd"
  "ke_values_text (pg_env cd f) = kc_values_text cd"
  by (simp_all add: pg_env_def)

lemma pg_statement_Ok [simp]:
  "pg_statement f c g t = (Ok x, t') \<longleftrightarrow> f t c = None \<and> g t = (x, t')"
  by (auto simp: pg_statement_def split: option.splits prod.splits)

interpretation pg: kv_transaction "pg_env cd faults" table_get
proof unfold_locales
  fix k w a b v kvs u and t t' :: kv_table
  show "kv_get (pg_env cd faults) k t = (Ok v, t') \<Longrightarrow> v = table_get t k \<and> table_get t' = table_get t"
    by (auto simp: pg_env_def)
  show "kv_set (pg_env cd faults) k w t = (Ok u, t') \<Longrightarrow> table_get t' = (table_get t)(k \<mapsto> w)"
    by (auto simp: pg_env_def)
  show "kv_clear (pg_env cd faults) k t = (Ok u, t') \<Longrightarrow> table_get t' = (table_get t)(k := None)"
    by (auto simp: pg_env_def)
  show "kv_scan (pg_env cd faults) a b t = (Ok kvs, t') \<Longrightarrow>
      table_get t' = table_get t \<and> sorted_wrt (<) (map fst kvs) \<and>
      (\<forall>k w. (k, w) \<in> set kvs \<longleftrightarrow> a \<le> k \<and> k < b \<and> table_get t k = Some w)"
    by (auto simp: pg_env_def table_range_sorted table_range_iff)
qed

section \<open>Transactions\<close>

text \<open>What one attempt decides; a conflict within the budget decides nothing.\<close>

definition attempt_verdict ::
  "kv_codec \<Rightarrow> (kv_table kv_env \<Rightarrow> (kv_table, 'a) kv) \<Rightarrow> nat \<Rightarrow> pg_attempt \<Rightarrow> ('a sorx_result \<times> kv_table) option" where
  "attempt_verdict cd body n a =
     (case pg_attempt_run cd body a of
        (Err (RetryFailure x), t) \<Rightarrow>
          if pa_elapsed a \<ge> RETRY_BUDGET then Some (Err (gave_up n (pa_elapsed_text a) x), t) else None
      | (Err (SorxFailure e), t) \<Rightarrow> Some (Err e, t)
      | (Err (DbFailure e), t) \<Rightarrow> Some (Err (pg_error (''Postgres transaction failed: '' @ e)), t)
      | (Err (CommitUnknown e), t) \<Rightarrow> Some (Err (commit_unknown e), t)
      | (Ok v, t) \<Rightarrow> Some (Ok v, t))"

lemma verdict_unfold:
  "(case pg_attempt_run cd body a of
      (Ok v, t) \<Rightarrow> Some (Ok v, t)
    | (Err (SorxFailure e), t) \<Rightarrow> Some (Err e, t)
    | (Err (RetryFailure x), t) \<Rightarrow>
        if pa_elapsed a \<ge> RETRY_BUDGET then Some (Err (gave_up n (pa_elapsed_text a) x), t) else again
    | (Err (DbFailure e), t) \<Rightarrow> Some (Err (pg_error (''Postgres transaction failed: '' @ e)), t)
    | (Err (CommitUnknown e), t) \<Rightarrow> Some (Err (commit_unknown e), t)) =
   (case attempt_verdict cd body n a of None \<Rightarrow> again | Some y \<Rightarrow> Some y)"
  by (auto simp: attempt_verdict_def split: prod.splits sum.splits pg_failure.splits)

lemma transact_from_step:
  "transact_from cd world body n =
     (case attempt_verdict cd body n (world n) of
        None \<Rightarrow> transact_from cd world body (n + 1)
      | Some y \<Rightarrow> Some y)"
  by (subst transact_from.simps) (rule verdict_unfold)

lemma transact_decided:
  assumes "transact_from cd world body n = Some y"
  shows "\<exists>m\<ge>n. (\<forall>j. n \<le> j \<and> j < m \<longrightarrow> attempt_verdict cd body j (world j) = None) \<and>
     attempt_verdict cd body m (world m) = Some y"
  using assms
proof (rule transact_from.raw_induct [rotated], goal_cases)
  case (1 loop cd world body n y)
  note run = 1(2) [unfolded verdict_unfold]
  show ?case
  proof (cases "attempt_verdict cd body n (world n)")
    case None
    with run have "loop cd world body (n + 1) = Some y" by simp
    from 1(1) [OF this] obtain m where m: "n + 1 \<le> m \<and>
        (\<forall>j. n + 1 \<le> j \<and> j < m \<longrightarrow> attempt_verdict cd body j (world j) = None) \<and>
        attempt_verdict cd body m (world m) = Some y" ..
    have "attempt_verdict cd body j (world j) = None" if "n \<le> j \<and> j < m" for j
      using None m that by (cases "j = n") simp_all
    with m show ?thesis by (intro exI [of _ m]) simp
  next
    case (Some z)
    with run have "z = y" by simp
    with Some show ?thesis by (intro exI [of _ n]) auto
  qed
qed

lemma transact_returns_within:
  assumes "attempt_verdict cd body (n + k) (world (n + k)) \<noteq> None"
  shows "\<exists>y. transact_from cd world body n = Some y"
  using assms
proof (induction k arbitrary: n)
  case 0
  then show ?case by (subst transact_from_step) auto
next
  case (Suc k)
  have "attempt_verdict cd body (n + 1 + k) (world (n + 1 + k)) \<noteq> None" using Suc.prems by simp
  from Suc.IH [OF this] obtain y where "transact_from cd world body (n + 1) = Some y" ..
  then show ?case by (subst transact_from_step) (auto split: option.splits)
qed

lemma verdict_None:
  "attempt_verdict cd body n a = None \<longleftrightarrow>
     pa_elapsed a < RETRY_BUDGET \<and> (\<exists>x. pg_attempt_run cd body a = (Err (RetryFailure x), pa_table a))"
  by (auto simp: attempt_verdict_def pg_attempt_run_def failure_from_db_def failure_from_commit_def
      split: prod.splits sum.splits pg_failure.splits option.splits commit_outcome.splits driver_error.splits if_splits)

lemma verdict_Ok:
  "attempt_verdict cd body n a = Some (Ok v, t) \<Longrightarrow> body (pg_env cd (pa_faults a)) (pa_table a) = (Ok v, t)"
  by (auto simp: attempt_verdict_def pg_attempt_run_def failure_from_db_def failure_from_commit_def
      split: prod.splits sum.splits pg_failure.splits option.splits commit_outcome.splits driver_error.splits if_splits)

lemma verdict_Err:
  "attempt_verdict cd body n a = Some (Err e, t) \<Longrightarrow>
     t = pa_table a \<or>
     err_code e = ''provider_postgres_commit_unknown'' \<and>
     (\<exists>v. body (pg_env cd (pa_faults a)) (pa_table a) = (Ok v, t))"
  by (auto simp: attempt_verdict_def pg_attempt_run_def failure_from_db_def failure_from_commit_def
      commit_unknown_def sorx_error_new_def
      split: prod.splits sum.splits pg_failure.splits option.splits commit_outcome.splits driver_error.splits if_splits)

text \<open>Property C12. A call is applied completely or not at all, and at most once: one attempt
  decides, every attempt before it ended in a conflict and left its table alone, and the table the
  call leaves is the one the operation produced when it succeeded. An error leaves the table of the
  deciding attempt as it was, except the error that says the outcome of the commit is unknown.\<close>

theorem transact_atomic:
  assumes "transact_from cd world body n = Some (r, t)"
  shows "\<exists>m\<ge>n.
    (\<forall>j. n \<le> j \<and> j < m \<longrightarrow> (\<exists>x. pg_attempt_run cd body (world j) = (Err (RetryFailure x), pa_table (world j)))) \<and>
    (case r of
       Ok v \<Rightarrow> body (pg_env cd (pa_faults (world m))) (pa_table (world m)) = (Ok v, t)
     | Err e \<Rightarrow>
         t = pa_table (world m) \<or>
         err_code e = ''provider_postgres_commit_unknown'' \<and>
         (\<exists>v. body (pg_env cd (pa_faults (world m))) (pa_table (world m)) = (Ok v, t)))"
proof -
  obtain m where m: "n \<le> m" "attempt_verdict cd body m (world m) = Some (r, t)"
    and before: "\<And>j. n \<le> j \<and> j < m \<Longrightarrow> attempt_verdict cd body j (world j) = None"
    using transact_decided [OF assms] by blast
  have "\<exists>x. pg_attempt_run cd body (world j) = (Err (RetryFailure x), pa_table (world j))"
    if "n \<le> j \<and> j < m" for j using before [OF that] by (simp add: verdict_None)
  moreover have "case r of
       Ok v \<Rightarrow> body (pg_env cd (pa_faults (world m))) (pa_table (world m)) = (Ok v, t)
     | Err e \<Rightarrow>
         t = pa_table (world m) \<or>
         err_code e = ''provider_postgres_commit_unknown'' \<and>
         (\<exists>v. body (pg_env cd (pa_faults (world m))) (pa_table (world m)) = (Ok v, t))"
    using m(2) verdict_Ok [of cd body m "world m"] verdict_Err [of cd body m "world m"] by (cases r) simp_all
  ultimately show ?thesis using m(1) by (intro exI [of _ m]) simp
qed

text \<open>Property C13. A call of the store returns: when the clock has passed the budget at some attempt,
  the retry loop has ended by then, whatever the database answers.\<close>

theorem transact_returns:
  assumes "1 \<le> m" and "RETRY_BUDGET \<le> pa_elapsed (pw_attempt w m)"
  shows "\<exists>r t. transact cd w body = Some (r, t)"
proof -
  have "attempt_verdict cd body (1 + (m - 1)) (pw_attempt w (1 + (m - 1))) \<noteq> None"
    using assms by (simp add: verdict_None)
  from transact_returns_within [where n = 1 and k = "m - 1" and world = "pw_attempt w", OF this] obtain r t where "transact_from cd (pw_attempt w) body 1 = Some (r, t)"
    by auto
  then show ?thesis by (auto simp: transact_def run_blocking_def split: option.splits)
qed

section \<open>Unique values\<close>

text \<open>Tables reached by committed operations that name the indexes \<open>ixs\<close> for the collection; the
  statements of each operation may fail in their own way.\<close>

inductive pg_reachable ::
  "kv_codec \<Rightarrow> provider_namespace \<Rightarrow> string \<Rightarrow> unique_index list \<Rightarrow> kv_table \<Rightarrow> bool"
  for cd ns c ixs where
  pg_start: "pg_reachable cd ns c ixs table_empty"
| pg_step: "pg_reachable cd ns c ixs t \<Longrightarrow> kv_step (pg_env cd faults) ns c ixs t t' \<Longrightarrow> pg_reachable cd ns c ixs t'"

lemma pg_uniq_key: "uniq_key (pg_env cd f) = uniq_key (pg_env cd g)"
  by (simp add: uniq_key_def encode_values_def fun_eq_iff)

lemma pg_unique_inv_faults: "pg.unique_inv cd f ns c ixs t \<longleftrightarrow> pg.unique_inv cd g ns c ixs t"
  by (simp add: pg.unique_inv_def pg.owns_entries_def pg.indexed_def pg_uniq_key [of cd f g])

lemma pg_reachable_inv:
  assumes "pg_reachable cd ns c ixs t" and "codec_ok (kc_encode_record cd) (kc_decode_record cd)"
  shows "pg.unique_inv cd f ns c ixs t"
  using assms(1)
proof induction
  case pg_start
  then show ?case by (simp add: pg.unique_inv_def)
next
  case (pg_step t faults t')
  then show ?case
    using pg.step_unique_inv [of cd faults ns c ixs t t'] assms(2) pg_unique_inv_faults [of cd f _ _ _ _ faults] by simp
qed


section \<open>Creation\<close>

text \<open>Property C14. A creation either writes one record and touches no other, and then a record
  without an id of its own replaces nothing, or it answers with a stored record and changes no
  record at all.\<close>

theorem pg_create_effect:
  assumes "kv_create (pg_env cd faults) op t = (Ok r, t')"
  shows "(\<exists>b. kc_encode_record cd r = Ok b \<and>
      (\<forall>n d j. table_get t' (entity_key n d j) =
         (if entity_key n d j = entity_key (cr_namespace op) (cr_collection op) (rec_id r) then Some b
          else table_get t (entity_key n d j))) \<and>
      (value_id (cr_input op) = None \<longrightarrow>
         table_get t (entity_key (cr_namespace op) (cr_collection op) (rec_id r)) = None)) \<or>
    (\<forall>n d j. table_get t' (entity_key n d j) = table_get t (entity_key n d j)) \<and>
    (\<exists>k b. table_get t k = Some b \<and> kc_decode_record cd b = Ok r)"
  using assms
proof (cases rule: pg.create_cases)
  case (replayed k b)
  then show ?thesis by (intro disjI2) auto
next
  case (existing i b)
  then show ?thesis by (intro disjI2) auto
next
  case (created i s1 s2)
  let ?k = "entity_key (cr_namespace op) (cr_collection op) i"
  note wr = pg.create_written [OF created(5)]
  obtain b where b: "kc_encode_record cd r = Ok b" "table_get t' ?k = Some b" using wr(2) by auto
  have id: "rec_id r = i" using wr(1) by simp
  have "table_get t' (entity_key n d j) = (if entity_key n d j = ?k then Some b else table_get t (entity_key n d j))" for n d j
    using pg.writesD [OF wr(4) created(5), of "entity_key n d j"] b(2) created(1,4)
    by (simp del: entity_key_eq_iff)
  moreover have "value_id (cr_input op) = None \<longrightarrow> table_get t ?k = None" using created(2) by auto
  ultimately show ?thesis using b(1) id by (intro disjI1 exI [of _ b]) simp
qed

section \<open>Queries\<close>

lemma pg_reachable_layout: "pg_reachable cd ns c ixs t \<Longrightarrow> dom (table_get t) \<subseteq> layout_keys"
proof (induction rule: pg_reachable.induct)
  case (pg_step t faults t')
  then show ?case using pg.step_layout by blast
qed simp

text \<open>Property C15. A query answers with exactly the live records of its collection that match the
  filter, ordered by id when no order is asked for, and changes nothing.\<close>

theorem pg_query_exact:
  assumes "pg_reachable cd ns c ixs t" and "kv_query_records (pg_env cd faults) op t = (Ok rs, t')"
  shows "set rs = {r. (\<exists>i b. table_get t (entity_key (q_namespace op) (q_collection op) i) = Some b \<and>
                              kc_decode_record cd b = Ok r) \<and>
                     list_all (\<lambda>(k, v). jget (rec_data r) k = Some v) (object_clone (q_filter op))} \<and>
    table_get t' = table_get t \<and> (q_order_by op = [] \<longrightarrow> sorted (map rec_id rs))"
proof -
  note q = pg.query_live [OF assms(2) pg_reachable_layout [OF assms(1)]]
  show ?thesis using q(1-3) by (auto simp: pg.live_def matches_filter_def)
qed

section \<open>Generated ids\<close>

abbreviation no_faults :: sql_faults where "no_faults \<equiv> \<lambda>t c. None"

interpretation pgw: working_transaction "pg_env cd no_faults" table_get
proof unfold_locales
  fix k w and t :: kv_table
  show "\<exists>v t'. kv_get (pg_env cd no_faults) k t = (Ok v, t')" by (simp add: pg_env_def pg_statement_def)
  show "\<exists>u t'. kv_set (pg_env cd no_faults) k w t = (Ok u, t')" by (simp add: pg_env_def pg_statement_def)
qed

lemma table_dom: "dom (table_get t) = fst ` set (rows t)" "card (dom (table_get t)) = length (rows t)"
proof -
  show dom: "dom (table_get t) = fst ` set (rows t)"
    unfolding table_get.rep_eq bt_get_def by (simp add: dom_map_of_conv_image_fst)
  have "distinct (map fst (rows t))" using rows [of t] by (auto intro: bt_wf_distinct)
  then show "card (dom (table_get t)) = length (rows t)"
    unfolding dom using distinct_card [of "map fst (rows t)"] by simp
qed

text \<open>Property C16. The search for a generated id ends with one: as long as the counter and the rows
  of the table together stay below the largest 64-bit number, a database that answers gives an
  id that no live record has.\<close>

theorem pg_auto_id_found:
  assumes "unat n + length (rows t) < 2 ^ 64 - 1"
  shows "\<exists>i t'. next_free_id (pg_env cd (\<lambda>t c. None)) ns c n t = (Ok i, t') \<and>
    table_get t (entity_key ns c i) = None"
proof -
  have "finite (dom (table_get t))" by (simp add: table_dom(1))
  moreover have "unat n + card (dom (table_get t)) < 2 ^ 64 - 1" using assms by (simp only: table_dom(2))
  ultimately obtain i t' where "next_free_id (pg_env cd no_faults) ns c n t = (Ok i, t')"
    using pgw.next_free_found_finite by blast
  with pg.next_free_Ok [OF this] show ?thesis by blast
qed

section \<open>Witnesses\<close>

definition pg_demo_ns :: provider_namespace where
  "pg_demo_ns = \<lparr>ns_tenant_id = ''acme'', ns_sor_name = ''crm''\<rparr>"

definition pg_demo_index :: unique_index where
  "pg_demo_index = \<lparr>ui_id = ''email'', ui_record = ''Item'', ui_collection = ''items'', ui_fields = [''email'']\<rparr>"

definition pg_demo_create :: create_op where
  "pg_demo_create =
     \<lparr>cr_namespace = pg_demo_ns, cr_entity = ''Item'', cr_collection = ''items'',
      cr_input = JObj [(''email'', JStr ''x'')], cr_idempotency_key = Some ''k'',
      cr_unique_indexes = [pg_demo_index], cr_unique_behavior = Reject\<rparr>"

definition pg_demo_record :: entity_record where
  "pg_demo_record =
     \<lparr>rec_entity = ''Item'', rec_collection = ''items'', rec_id = ''items-1'',
      rec_data = JObj [(''email'', JStr ''x''), (''id'', JStr ''items-1'')], rec_version = 1\<rparr>"

text \<open>A codec that knows one record.\<close>

definition pg_demo_codec :: kv_codec where
  "pg_demo_codec =
     \<lparr>kc_utf8_error = \<lambda>b. ''invalid'',
      kc_encode_record = \<lambda>r. if r = pg_demo_record then Ok ''one'' else Err ''unknown'',
      kc_decode_record = \<lambda>b. if b = ''one'' then Ok pg_demo_record else Err ''unknown'',
      kc_encode_event = \<lambda>e. Err ''unknown'', kc_encode_values = \<lambda>v. Err ''unknown'',
      kc_decode_values = \<lambda>b. Err ''unknown'', kc_decode_refs = \<lambda>b. Err ''unknown'',
      kc_values_text = \<lambda>vs. show_nat (length vs), kc_value_text = \<lambda>v. []\<rparr>"

lemma pg_demo_codec_ok: "codec_ok (kc_encode_record pg_demo_codec) (kc_decode_record pg_demo_codec)"
  by (simp add: codec_ok_def pg_demo_codec_def)

definition pg_demo_table :: kv_table where
  "pg_demo_table = snd (kv_create (pg_env pg_demo_codec no_faults) pg_demo_create table_empty)"

lemma pg_demo_created:
  "kv_create (pg_env pg_demo_codec no_faults) pg_demo_create table_empty = (Ok pg_demo_record, pg_demo_table)"
proof -
  have "fst (kv_create (pg_env pg_demo_codec no_faults) pg_demo_create table_empty) = Ok pg_demo_record"
    by code_simp
  then show ?thesis by (simp add: pg_demo_table_def prod_eq_iff)
qed

lemma pg_demo_reachable: "pg_reachable pg_demo_codec pg_demo_ns ''items'' [pg_demo_index] pg_demo_table"
proof -
  have "kv_step (pg_env pg_demo_codec no_faults) pg_demo_ns ''items'' [pg_demo_index] table_empty pg_demo_table"
    using pg_demo_created by (rule kv_step.step_create) (simp add: pg_demo_create_def)
  with pg_start show ?thesis by (rule pg_step)
qed

lemma pg_demo_stored: "table_get pg_demo_table (entity_key pg_demo_ns ''items'' ''items-1'') = Some ''one''"
  by code_simp


theorem pg_create_effect_witness:
  "table_get table_empty (entity_key pg_demo_ns ''items'' ''items-1'') = None \<and>
   table_get pg_demo_table (entity_key pg_demo_ns ''items'' ''items-1'') = Some ''one''"
  using pg_create_effect [OF pg_demo_created] pg_demo_stored by simp

definition pg_demo_query :: query_op where
  "pg_demo_query =
     \<lparr>q_namespace = pg_demo_ns, q_entity = ''Item'', q_collection = ''items'',
      q_filter = JObj [(''email'', JStr ''x'')], q_order_by = []\<rparr>"

theorem pg_query_exact_witness:
  "\<exists>rs t'. kv_query_records (pg_env pg_demo_codec no_faults) pg_demo_query pg_demo_table = (Ok rs, t') \<and>
     pg_demo_record \<in> set rs"
proof -
  have "fst (kv_query_records (pg_env pg_demo_codec no_faults) pg_demo_query pg_demo_table) = Ok [pg_demo_record]"
    by code_simp
  then obtain t' where run:
    "kv_query_records (pg_env pg_demo_codec no_faults) pg_demo_query pg_demo_table = (Ok [pg_demo_record], t')"
    by (metis prod.collapse)
  from pg_query_exact [OF pg_demo_reachable run] run show ?thesis by fastforce
qed

theorem pg_auto_id_found_witness:
  "\<exists>i t'. next_free_id (pg_env pg_demo_codec (\<lambda>t c. None)) pg_demo_ns ''items'' 0 pg_demo_table = (Ok i, t') \<and>
     table_get pg_demo_table (entity_key pg_demo_ns ''items'' i) = None"
proof -
  have "length (rows pg_demo_table) = 5" by code_simp
  then show ?thesis by (intro pg_auto_id_found) simp
qed

text \<open>A first attempt that meets a conflict and a second that commits.\<close>

definition pg_demo_world :: "nat \<Rightarrow> pg_attempt" where
  "pg_demo_world n =
     \<lparr>pa_table = table_empty,
      pa_start = (if n = 1 then Some (ServerError ''could not serialize access'' ''40001'') else None),
      pa_faults = no_faults, pa_commit = Committed, pa_elapsed = 6000 * n, pa_elapsed_text = []\<rparr>"

abbreviation pg_demo_body :: "kv_table kv_env \<Rightarrow> (kv_table, entity_record) kv" where
  "pg_demo_body \<equiv> \<lambda>env. kv_create env pg_demo_create"

lemma pg_demo_run: "transact_from pg_demo_codec pg_demo_world pg_demo_body 1 = Some (Ok pg_demo_record, pg_demo_table)"
proof -
  have first: "attempt_verdict pg_demo_codec pg_demo_body 1 (pg_demo_world 1) = None" by code_simp
  have "attempt_verdict pg_demo_codec pg_demo_body 2 (pg_demo_world 2) = Some (Ok pg_demo_record, pg_demo_table)"
    using pg_demo_created by (simp add: attempt_verdict_def pg_attempt_run_def pg_demo_world_def)
  then have "transact_from pg_demo_codec pg_demo_world pg_demo_body 2 = Some (Ok pg_demo_record, pg_demo_table)"
    by (subst transact_from_step) simp
  with first show ?thesis by (subst transact_from_step) (simp flip: numeral_2_eq_2)
qed

theorem transact_atomic_witness:
  "\<exists>m\<ge>1. kv_create (pg_env pg_demo_codec (pa_faults (pg_demo_world m))) pg_demo_create (pa_table (pg_demo_world m)) =
     (Ok pg_demo_record, pg_demo_table)"
  using transact_atomic [OF pg_demo_run] by auto

theorem transact_returns_witness:
  "\<exists>r t. transact pg_demo_codec
     \<lparr>pw_table = table_empty, pw_context = NoRuntime, pw_pool = None, pw_attempt = pg_demo_world\<rparr> pg_demo_body = Some (r, t)"
  by (rule transact_returns [of 2]) (simp_all add: pg_demo_world_def RETRY_BUDGET_def)

end
