(* ===== verification/Spec2Isabelle.thy ===== *)
theory Spec2Isabelle
  imports Registry_Props Memory_Props Migration_Props Ontology_Props Policy Runtime_Props Command_Props
    Postgres_Props
begin

text \<open>
  Verification of greentic-sorx, a runtime that serves systems of record from deployed packs.
  The crates are under \<^verbatim>\<open>src/crates\<close>; the paths below are relative to
  \<^verbatim>\<open>src/crates/greentic-sorx-core/src\<close> unless they begin with a crate.

  \<^bold>\<open>The parts and how they interact.\<close> A pack is deployed into the registry
  (\<^verbatim>\<open>deployment.rs\<close>), which decides what may be promoted and which paths and state namespaces
  are taken. Before a new version runs, its data migrations are applied to the stores
  (\<^verbatim>\<open>migration\<close>). At run time \<^verbatim>\<open>SorxRuntime::invoke\<close> (\<^verbatim>\<open>runtime.rs\<close>) takes a call through
  routing, view mapping, schema validation, authorization, a control hook, the risk policy and
  approval (\<^verbatim>\<open>policy.rs\<close>, \<^verbatim>\<open>approval.rs\<close>) to a store operation (\<^verbatim>\<open>provider.rs\<close>,
  \<^verbatim>\<open>providers/memory.rs\<close>) or to the command interpreter, and audits every stage.
  \<^verbatim>\<open>ontology_graph.rs\<close> answers questions about the concepts of a pack.

  \<^bold>\<open>Theories.\<close>

  \<^item> \<open>Sorx_Prelude\<close>, \<open>Ordered_Map\<close>, \<open>Json_Value\<close>: results, ASCII strings, stable sorting,
    \<^verbatim>\<open>BTreeMap\<close> as a sorted association list behind the locale \<open>ordered_map\<close>,
    \<^verbatim>\<open>serde_json::Value\<close> and \<^verbatim>\<open>SorxError\<close>.
  \<^item> \<open>Migration_Plan\<close>, \<open>Deployment\<close>, \<open>Registry_Lemmas\<close>, \<open>Registry_Machine\<close>,
    \<open>Registry_Props\<close>: the deployment registry; every operation with all its errors, the registry
    as a state machine whose steps are the operations, its invariants by rule induction, and
    what creation, promotion, rollback, retirement and webhook replay do exactly.
  \<^item> \<open>Sorx_Model\<close>, \<open>Provider\<close>, \<open>Memory_Store\<close>, \<open>Memory_Laws\<close>, \<open>Memory_Props\<close>: the shared
    model, binding resolution and the contract of a store as the locale \<open>sor_store\<close>,
    interpreted by the in-memory store; isolation of tenants, read after write, idempotency,
    unique indexes, queries, event numbering and the versions of the persisted file.
  \<^item> \<open>Kv_Store\<close>, \<open>Kv_Keys\<close>, \<open>Kv_Laws\<close>, \<open>Kv_Unique\<close>, \<open>Kv_Scan\<close>: the store over an ordered
    key-value transaction (\<^verbatim>\<open>providers/kv.rs\<close>) in which any call may fail; its keyspace and range
    scans; the contract of a transaction as the locale \<open>kv_transaction\<close> with a frame logic
    for what an operation writes; the invariant behind unique indexes; queries and generated ids.
  \<^item> \<open>Postgres\<close>, \<open>Postgres_Props\<close>: \<^verbatim>\<open>providers/postgres.rs\<close>, the table as the interpretation of
    that contract, the retry loop (atomic, and it returns), and the guarantees of the store.
  \<^item> \<open>Migration\<close>, \<open>Migration_Laws\<close>, \<open>Migration_Props\<close>: the migration runner over any store
    that satisfies \<open>sor_store\<close> and any ledger that satisfies \<open>ledger_laws\<close>, then instantiated:
    a run completes, keeps data, and runs once.
  \<^item> \<open>Ontology_Graph\<close>, \<open>Ontology_Props\<close>: depth-first and breadth-first search against a
    declarative description of paths and distances.
  \<^item> \<open>Policy\<close>: risk, authorization and ontology policy, approval brokers, the audit event.
  \<^item> \<open>Runtime_Values\<close>, \<open>Command_Values\<close>: schema validation, views, patches, and the value
    language of commands.
  \<^item> \<open>Runtime_Effects\<close>, \<open>Command\<close>, \<open>Runtime\<close>: actions that return a result, change the
    stores and append to a trace of everything the runtime calls; the command interpreter; the
    pipeline of \<^verbatim>\<open>invoke\<close> stage by stage.
  \<^item> \<open>Runtime_Laws\<close>, \<open>Runtime_Props\<close>: composition rules for effects, the locale
    \<open>effect_scope\<close> that goes through the whole pipeline once, and its use: calls stay in their
    tenant and reach a store only through every gate.
  \<^item> \<open>Value_Props\<close>, \<open>Command_Props\<close>: schema validation against a declarative reading, views
    that lose nothing, exact increments, bounded retries, and where commands go wrong.

  \<^bold>\<open>Parameters.\<close> Code of other crates and of the operating system enters as arguments: serde
  decoding, the file system, SHA-256, clocks, the text of foreign error messages, and every trait
  object of the runtime (sinks, hooks, brokers) as a function of the trace so far, so that
  nothing is assumed about it. Locks are sequential state: each operation holds its lock
  throughout.

  \<^bold>\<open>Termination.\<close> No fuel is used. The retry loop of a database transaction is a partial
  function whose value \<open>None\<close> is a loop that never ends; it is proved to return once the clock
  passes the budget. The search for a generated id ends at the largest counter, where the addition
  panics; it is proved to find an id before that. Recursion over JSON and over command steps ends by the size
  of the data, the retries of a command step are the six of the code, and the search in the
  ontology graph is bounded by the depth the caller gives.

  \<^bold>\<open>Not modelled.\<close> The HTTP server and the command line around the core, the FoundationDB store, the database drivers,
  the rendering of manager cards, and the parts of the core listed as such in the manifest.
\<close>

end
